(* ===== verification/Prelude.thy ===== *)
theory Prelude
  imports
    Main
    "HOL-Library.Finite_Map"
    "HOL-Library.State_Monad"
    "HOL-Library.Char_ord"
    "HOL-Library.List_Lexorder"
    "HOL-Library.Sublist"
    "HOL-Library.AList"
begin

section \<open>Prelude: the Go values and idioms the components share\<close>

text \<open>
  Go strings are byte sequences, so \<^typ>\<open>string\<close> (a list of 8-bit characters) models them
  as they are, and the bytewise lexicographic order of \<open>Char_ord\<close> and \<open>List_Lexorder\<close> is the
  order of Go's \<open><\<close> on strings, hence of \<open>sort.Strings\<close>.

  A Go \<open>map[string]string\<close> is \<open>gomap\<close>: \<open>None\<close> is the nil map, \<open>Some m\<close> an allocated
  map with the finite contents \<open>m\<close>.  Reading a nil map gives the zero value.  Writing to a nil
  map panics in Go; every write of the program is preceded by the idiom
  \<open>if m == nil { m = make(map[string]string) }\<close>, and \<open>map_put\<close> is that idiom together with
  the assignment that follows it.

  An error is what the code can observe of it: the text of \<open>Error()\<close> and the class that
  \<open>apierrors.IsNotFound\<close> and \<open>apierrors.IsConflict\<close> put it in.  A function that returns
  \<open>(T, error)\<close> returns \<open>go_error + T\<close>, one that returns \<open>error\<close> returns
  \<open>go_error option\<close>, with \<open>None\<close> for nil.
\<close>

named_theorems gomap_simps \<open>reading and writing Go maps\<close>
named_theorems sg_defs \<open>definitions of the model that proofs unfold\<close>
named_theorems hoare_intros \<open>rules for triples\<close>
named_theorems keeps_intros \<open>computations that keep a part of the state\<close>

subsection \<open>Errors\<close>

datatype status_reason = StatusReasonNotFound | StatusReasonConflict | StatusReasonOther

datatype go_error = GoError (err_reason: status_reason) (Error: string)

definition IsNotFound :: "go_error \<Rightarrow> bool" where
  "IsNotFound e \<longleftrightarrow> err_reason e = StatusReasonNotFound"

definition IsConflict :: "go_error \<Rightarrow> bool" where
  "IsConflict e \<longleftrightarrow> err_reason e = StatusReasonConflict"

definition IgnoreNotFound :: "go_error option \<Rightarrow> go_error option" where
  "IgnoreNotFound err =
     (case err of None \<Rightarrow> None | Some e \<Rightarrow> if IsNotFound e then None else Some e)"

definition errors_New :: "string \<Rightarrow> go_error" where
  "errors_New msg = GoError StatusReasonOther msg"

text \<open>\<open>fmt.Errorf("prefix: %w", err)\<close>: the text is prefixed, the class of the wrapped error is
  kept, since the classifiers look through wrapped errors.\<close>

definition Errorf_w :: "string \<Rightarrow> go_error \<Rightarrow> go_error" where
  "Errorf_w pre e = GoError (err_reason e) (pre @ '': '' @ Error e)"

subsection \<open>Go maps with string keys\<close>

type_synonym 'v gmap = "(string, 'v) fmap option"
type_synonym gomap = "string gmap"
type_synonym bytes = string

abbreviation nil_map :: "'v gmap" where
  "nil_map \<equiv> None"

definition map_entries :: "'v gmap \<Rightarrow> (string, 'v) fmap" where
  "map_entries m = (case m of None \<Rightarrow> fmempty | Some f \<Rightarrow> f)"

text \<open>\<open>v, ok := m[k]\<close>\<close>

definition map_lookup :: "'v gmap \<Rightarrow> string \<Rightarrow> 'v option" where
  "map_lookup m k = fmlookup (map_entries m) k"

text \<open>\<open>m[k]\<close> on a map of strings: the empty string for a missing key.\<close>

definition map_get :: "gomap \<Rightarrow> string \<Rightarrow> string" where
  "map_get m k = (case map_lookup m k of None \<Rightarrow> [] | Some v \<Rightarrow> v)"

definition map_put :: "'v gmap \<Rightarrow> string \<Rightarrow> 'v \<Rightarrow> 'v gmap" where
  "map_put m k v = Some (fmupd k v (map_entries m))"

text \<open>\<open>delete(m, k)\<close>, a no-op on a nil map.\<close>

definition map_delete :: "'v gmap \<Rightarrow> string \<Rightarrow> 'v gmap" where
  "map_delete m k = map_option (fmdrop k) m"

text \<open>\<open>maps.Copy(dst, src)\<close> after the nil check of \<open>dst\<close>.\<close>

definition maps_Copy :: "'v gmap \<Rightarrow> 'v gmap \<Rightarrow> 'v gmap" where
  "maps_Copy dst src = Some (fmadd (map_entries dst) (map_entries src))"

text \<open>The keys of a map collected by a \<open>range\<close> loop, then sorted with \<open>sort.Strings\<close>: the
  order of the loop does not matter for the result.\<close>

definition sorted_keys :: "'v gmap \<Rightarrow> string list" where
  "sorted_keys m = sorted_list_of_fset (fmdom (map_entries m))"

text \<open>\<open>maps.Equal\<close> and \<open>apiequality.Semantic.DeepEqual\<close> on maps: a nil map and an empty map are
  equal, unlike for \<open>reflect.DeepEqual\<close>, which is plain equality of the model.\<close>

definition maps_Equal :: "'v gmap \<Rightarrow> 'v gmap \<Rightarrow> bool" where
  "maps_Equal a b \<longleftrightarrow> map_entries a = map_entries b"

text \<open>Slices: \<open>None\<close> is the nil slice, which ranges and appends like the empty one.\<close>

type_synonym 'a slice = "'a list option"

definition slice_elems :: "'a slice \<Rightarrow> 'a list" where
  "slice_elems s = (case s of None \<Rightarrow> [] | Some xs \<Rightarrow> xs)"

subsection \<open>Package strings\<close>

fun strings_Join :: "string list \<Rightarrow> string \<Rightarrow> string" where
  "strings_Join [] sep = []"
| "strings_Join [x] sep = x"
| "strings_Join (x # y # xs) sep = x @ sep @ strings_Join (y # xs) sep"

text \<open>\<open>strings.SplitSeq(s, sep)\<close> for a separator of one byte, as the list of what it yields:
  at least one element, the empty string for the empty input.\<close>

fun strings_Split :: "string \<Rightarrow> char \<Rightarrow> string list" where
  "strings_Split [] c = [[]]"
| "strings_Split (x # xs) c =
     (if x = c then [] # strings_Split xs c
      else case strings_Split xs c of [] \<Rightarrow> [[x]] | w # ws \<Rightarrow> (x # w) # ws)"

definition strings_Contains :: "string \<Rightarrow> string \<Rightarrow> bool" where
  "strings_Contains s sub \<longleftrightarrow> sublist sub s"

subsection \<open>The state monad\<close>

abbreviation ret :: "'a \<Rightarrow> ('s, 'a) state" where
  "ret \<equiv> State_Monad.return"

text \<open>Left to right iteration of an effectful loop body that carries an accumulator.\<close>

primrec for_range :: "'x list \<Rightarrow> 'a \<Rightarrow> ('x \<Rightarrow> 'a \<Rightarrow> ('s, 'a) state) \<Rightarrow> ('s, 'a) state" where
  "for_range [] a body = ret a"
| "for_range (x # xs) a body = State_Monad.bind (body x a) (\<lambda>a'. for_range xs a' body)"

text \<open>A computation that does not change the part of the state that \<open>f\<close> reads.\<close>

definition keeps :: "('s \<Rightarrow> 'x) \<Rightarrow> ('s, 'a) state \<Rightarrow> bool" where
  "keeps f m \<longleftrightarrow> (\<forall>s. f (snd (run_state m s)) = f s)"

text \<open>A Hoare triple: from a state with \<open>P\<close> the computation ends in a result and state with
  \<open>Q\<close>.\<close>

definition hoare :: "('s \<Rightarrow> bool) \<Rightarrow> ('s, 'a) state \<Rightarrow> ('a \<Rightarrow> 's \<Rightarrow> bool) \<Rightarrow> bool" where
  "hoare P m Q \<longleftrightarrow> (\<forall>s a s'. P s \<longrightarrow> run_state m s = (a, s') \<longrightarrow> Q a s')"

section \<open>Lemmas\<close>

subsection \<open>Errors\<close>

lemma IgnoreNotFound_simps [simp]:
  "IgnoreNotFound None = None"
  "IsNotFound e \<Longrightarrow> IgnoreNotFound (Some e) = None"
  "\<not> IsNotFound e \<Longrightarrow> IgnoreNotFound (Some e) = Some e"
  by (simp_all add: IgnoreNotFound_def)

lemma IgnoreNotFound_eq_None_iff:
  "IgnoreNotFound err = None \<longleftrightarrow> (\<forall>e. err = Some e \<longrightarrow> IsNotFound e)"
  by (auto simp: IgnoreNotFound_def split: option.splits)

lemma IsNotFound_wrap [simp]: "IsNotFound (Errorf_w p e) = IsNotFound e"
  by (simp add: IsNotFound_def Errorf_w_def)

lemma errors_New_class [simp]: "\<not> IsNotFound (errors_New m)" "\<not> IsConflict (errors_New m)"
  by (simp_all add: errors_New_def IsNotFound_def IsConflict_def)

subsection \<open>Maps\<close>

lemma map_entries_simps [simp, gomap_simps]:
  "map_entries None = fmempty" "map_entries (Some f) = f"
  by (simp_all add: map_entries_def)

lemma map_lookup_nil [simp]: "map_lookup None k = None"
  by (simp add: map_lookup_def)

lemma map_lookup_Some [simp]: "map_lookup (Some f) k = fmlookup f k"
  by (simp add: map_lookup_def)

lemma map_lookup_put [simp]: "map_lookup (map_put m k v) k' = (if k = k' then Some v else map_lookup m k')"
  by (simp add: map_lookup_def map_put_def)

lemma map_lookup_delete [simp]: "map_lookup (map_delete m k) k' = (if k = k' then None else map_lookup m k')"
  by (cases m) (simp_all add: map_lookup_def map_delete_def)

lemma map_lookup_Copy [simp]:
  "map_lookup (maps_Copy dst src) k = (case map_lookup src k of None \<Rightarrow> map_lookup dst k | Some v \<Rightarrow> Some v)"
  by (auto simp: map_lookup_def maps_Copy_def fmlookup_dom_iff split: option.splits)

lemma map_get_eq: "map_lookup m k = Some v \<Longrightarrow> map_get m k = v"
  by (simp add: map_get_def)

lemma map_get_put [simp]: "map_get (map_put m k v) k' = (if k = k' then v else map_get m k')"
  by (simp add: map_get_def)

lemma map_get_neq_empty: "map_get m k \<noteq> [] \<Longrightarrow> \<exists>v. map_lookup m k = Some v \<and> v = map_get m k"
  by (auto simp: map_get_def split: option.splits)

lemma gmap_eqI:
  assumes "a \<noteq> None" "b \<noteq> None" "\<And>k. map_lookup a k = map_lookup b k"
  shows "a = b"
proof -
  from assms(1,2) obtain f g where a: "a = Some f" and b: "b = Some g" by auto
  have "f = g" by (rule fmap_ext) (use assms(3) a b in auto)
  with a b show ?thesis by simp
qed

lemma map_put_neq_nil [simp]: "map_put m k v \<noteq> None" "maps_Copy a b \<noteq> None"
  by (simp_all add: map_put_def maps_Copy_def)

lemma map_delete_nil_iff [simp]: "map_delete m k = None \<longleftrightarrow> m = None"
  by (simp add: map_delete_def)

lemma maps_Equal_iff: "maps_Equal a b \<longleftrightarrow> (\<forall>k. map_lookup a k = map_lookup b k)"
  by (auto simp: maps_Equal_def map_lookup_def intro: fmap_ext)

lemma sorted_keys_props:
  "sorted (sorted_keys m)" "distinct (sorted_keys m)"
  "set (sorted_keys m) = {k. map_lookup m k \<noteq> None}"
proof -
  show "sorted (sorted_keys m)" "distinct (sorted_keys m)"
    by (simp_all add: sorted_keys_def sorted_list_of_fset.rep_eq)
  have "set (sorted_keys m) = fset (fmdom (map_entries m))"
    by (simp add: sorted_keys_def sorted_list_of_fset.rep_eq)
  also have "\<dots> = {k. map_lookup m k \<noteq> None}"
    by (auto simp: map_lookup_def fmlookup_dom_iff)
  finally show "set (sorted_keys m) = {k. map_lookup m k \<noteq> None}" .
qed

lemma sorted_keys_mem_iff [simp]: "k \<in> set (sorted_keys m) \<longleftrightarrow> map_lookup m k \<noteq> None"
  by (simp add: sorted_keys_props)

text \<open>Any enumeration of the keys, once sorted, is \<open>sorted_keys\<close>: the order in which a Go
  \<open>range\<close> loop visits the map is invisible after \<open>sort.Strings\<close>.\<close>

lemma sort_enumeration:
  assumes "distinct ks" "set ks = {k. map_lookup m k \<noteq> None}"
  shows "sort ks = sorted_keys m"
  by (rule sorted_distinct_set_unique)
     (use assms in \<open>simp_all add: sorted_keys_props\<close>)

lemma sorted_keys_fmap_of_list:
  "sorted_keys (Some (fmap_of_list xs)) = sort (remdups (map fst xs))"
  by (rule sort_enumeration [symmetric])
     (auto simp: fmlookup_of_list map_of_eq_None_iff)

subsection \<open>Strings\<close>

lemma strings_Split_neq_Nil [simp]: "strings_Split s c \<noteq> []"
  by (induction s c rule: strings_Split.induct) (auto split: list.splits)

lemma strings_Split_no_sep: "c \<notin> set s \<Longrightarrow> strings_Split s c = [s]"
  by (induction s) auto

lemma strings_Split_sep: "c \<notin> set s \<Longrightarrow> strings_Split (s @ c # t) c = s # strings_Split t c"
  by (induction s) auto

lemma strings_Split_Join:
  assumes "ks \<noteq> []" "\<And>k. k \<in> set ks \<Longrightarrow> c \<notin> set k"
  shows "strings_Split (strings_Join ks [c]) c = ks"
  using assms
proof (induction ks "[c]" rule: strings_Join.induct)
  case (3 x y xs)
  then have "strings_Split (strings_Join (y # xs) [c]) c = y # xs" by simp
  moreover have "c \<notin> set x" using "3.prems" by simp
  ultimately show ?case by (simp add: strings_Split_sep)
qed (simp_all add: strings_Split_no_sep)

lemma strings_Join_eq_Nil_iff:
  "strings_Join ks sep = [] \<longleftrightarrow> ks = [] \<or> ks = [[]] \<or> (sep = [] \<and> set ks = {[]})"
  by (induction ks sep rule: strings_Join.induct) auto

subsection \<open>The monad\<close>

lemma run_state_if [simp]:
  "run_state (if b then x else y) s = (if b then run_state x s else run_state y s)"
  by simp

text \<open>An invariant of a loop: what holds of state and accumulator before, and is kept by the
  body, holds after.\<close>

lemma for_range_invariant:
  assumes "P a s"
    and "\<And>x a s a' s'. x \<in> set xs \<Longrightarrow> P a s \<Longrightarrow> run_state (body x a) s = (a', s') \<Longrightarrow> P a' s'"
    and "run_state (for_range xs a body) s = (r, t)"
  shows "P r t"
  using assms
proof (induction xs arbitrary: a s)
  case Nil
  then show ?case by simp
next
  case (Cons x xs)
  obtain a' s' where step: "run_state (body x a) s = (a', s')" by fastforce
  have inv: "P a' s'" by (rule Cons.prems(2) [OF _ Cons.prems(1) step]) simp
  have rest: "run_state (for_range xs a' body) s' = (r, t)"
    using Cons.prems(3) step by simp
  show ?case
    by (rule Cons.IH [OF inv _ rest]) (rule Cons.prems(2), simp_all)
qed

lemma for_range_pure:
  assumes "\<And>x a. body x a = ret (f x a)"
  shows "for_range xs a body = ret (fold f xs a)"
  using assms by (induction xs arbitrary: a) simp_all

lemma keepsD: "keeps f m \<Longrightarrow> run_state m s = (a, s') \<Longrightarrow> f s' = f s"
  by (auto simp: keeps_def dest: spec [of _ s])

lemma keepsI: "(\<And>s a s'. run_state m s = (a, s') \<Longrightarrow> f s' = f s) \<Longrightarrow> keeps f m"
  unfolding keeps_def by (metis prod.collapse)

lemma keeps_ret [keeps_intros]: "keeps f (ret a)"
  by (simp add: keeps_def)

lemma keeps_bind [keeps_intros]:
  "keeps f m \<Longrightarrow> (\<And>a. keeps f (k a)) \<Longrightarrow> keeps f (State_Monad.bind m k)"
  by (simp add: keeps_def split_beta)

lemma keeps_cases [keeps_intros]:
  "(b \<Longrightarrow> keeps f x) \<Longrightarrow> (\<not> b \<Longrightarrow> keeps f y) \<Longrightarrow> keeps f (if b then x else y)"
  "keeps f n \<Longrightarrow> (\<And>z. keeps f (q z)) \<Longrightarrow> keeps f (case op of None \<Rightarrow> n | Some z \<Rightarrow> q z)"
  "(\<And>e. su = Inl e \<Longrightarrow> keeps f (l e)) \<Longrightarrow> (\<And>v. su = Inr v \<Longrightarrow> keeps f (g v)) \<Longrightarrow>
     keeps f (case su of Inl e \<Rightarrow> l e | Inr v \<Rightarrow> g v)"
  "(\<And>c d. keeps f (h c d)) \<Longrightarrow> keeps f (case pr of (c, d) \<Rightarrow> h c d)"
  by (auto split: option.split sum.split prod.split)

lemma keeps_for_range [keeps_intros]:
  "(\<And>x a. keeps f (body x a)) \<Longrightarrow> keeps f (for_range xs a body)"
  by (induction xs arbitrary: a) (auto intro: keeps_intros)

lemma hoareI: "(\<And>s a s'. P s \<Longrightarrow> run_state m s = (a, s') \<Longrightarrow> Q a s') \<Longrightarrow> hoare P m Q"
  by (auto simp: hoare_def)

lemma hoareD: "hoare P m Q \<Longrightarrow> P s \<Longrightarrow> run_state m s = (a, s') \<Longrightarrow> Q a s'"
  by (auto simp: hoare_def)

lemma hoare_conseq:
  "hoare P m Q \<Longrightarrow> (\<And>s. P' s \<Longrightarrow> P s) \<Longrightarrow> (\<And>a s. Q a s \<Longrightarrow> Q' a s) \<Longrightarrow> hoare P' m Q'"
  unfolding hoare_def by blast

lemma hoare_pre: "hoare P m Q \<Longrightarrow> (\<And>s. P' s \<Longrightarrow> P s) \<Longrightarrow> hoare P' m Q"
  unfolding hoare_def by blast

lemma hoare_const: "hoare P m (\<lambda>_. P) \<Longrightarrow> hoare (\<lambda>s. P s \<and> b) m (\<lambda>_ s. P s \<and> b)"
  unfolding hoare_def by blast

lemma hoare_both:
  "hoare P m (\<lambda>_. P) \<Longrightarrow> hoare Q m (\<lambda>_. Q) \<Longrightarrow> hoare (\<lambda>s. P s \<and> Q s) m (\<lambda>_ s. P s \<and> Q s)"
  unfolding hoare_def by blast

lemma hoare_ret: "(\<And>s. P s \<Longrightarrow> Q a s) \<Longrightarrow> hoare P (ret a) Q"
  by (auto simp: hoare_def)

lemma hoare_bind [hoare_intros]:
  "hoare P m R \<Longrightarrow> (\<And>a. hoare (R a) (k a) Q) \<Longrightarrow> hoare P (State_Monad.bind m k) Q"
  by (auto simp: hoare_def split: prod.splits)

lemma hoare_if [hoare_intros]:
  "(b \<Longrightarrow> hoare P x Q) \<Longrightarrow> (\<not> b \<Longrightarrow> hoare P y Q) \<Longrightarrow> hoare P (if b then x else y) Q"
  by simp

lemma hoare_option [hoare_intros]:
  "(op = None \<Longrightarrow> hoare P n Q) \<Longrightarrow> (\<And>z. op = Some z \<Longrightarrow> hoare P (q z) Q) \<Longrightarrow>
     hoare P (case op of None \<Rightarrow> n | Some z \<Rightarrow> q z) Q"
  by (cases op) auto

lemma hoare_sum [hoare_intros]:
  "(\<And>e. su = Inl e \<Longrightarrow> hoare P (l e) Q) \<Longrightarrow> (\<And>v. su = Inr v \<Longrightarrow> hoare P (g v) Q) \<Longrightarrow>
     hoare P (case su of Inl e \<Rightarrow> l e | Inr v \<Rightarrow> g v) Q"
  by (cases su) auto

lemma hoare_prod [hoare_intros]:
  "(\<And>c d. pr = (c, d) \<Longrightarrow> hoare P (h c d) Q) \<Longrightarrow> hoare P (case pr of (c, d) \<Rightarrow> h c d) Q"
  by (cases pr) auto

lemma hoare_for_range:
  "(\<And>x a. x \<in> set xs \<Longrightarrow> hoare (I a) (body x a) I) \<Longrightarrow> hoare (I a) (for_range xs a body) I"
  by (induction xs arbitrary: a) (auto intro: hoare_ret hoare_bind)

end
