(* ===== verification/Api_Types.thy ===== *)
theory Api_Types
  imports Prelude
begin

section \<open>The CareInstruction API and the Kubernetes objects the controllers handle\<close>

text \<open>
  The constants, structs and methods of \<open>api/v1alpha1/careinstruction_types.go\<close>, and the objects of
  other API groups reduced to the fields that the program reads or writes.  Go embeds
  \<open>metav1.ObjectMeta\<close> in every kind; here every kind extends the record \<open>ObjectMeta\<close>.

  Code outside the repository is a parameter.  \<open>ext\<close> collects the pure library functions the
  program calls: the condition helpers of Greenhouse's \<open>StatusConditions\<close>, the CEL evaluator, the
  label selector conversion, the label propagator, and the constants of the Greenhouse API package.  Fields of third-party specs and statuses that
  the program never touches are kept as one opaque string, so that comparisons of whole specs see
  them.
\<close>

subsection \<open>Constants\<close>

definition GardenClusterAccessReady :: string where
  "GardenClusterAccessReady = ''GardenClusterAccessReady''"

definition ShootControllerStartedCondition :: string where
  "ShootControllerStartedCondition = ''ShootControllerStarted''"

definition DeleteCondition :: string where
  "DeleteCondition = ''Delete''"

definition ShootsReconciledCondition :: string where
  "ShootsReconciledCondition = ''ShootsReconciled''"

definition ReadyCondition :: string where
  "ReadyCondition = ''Ready''"

definition CommonCleanupFinalizer :: string where
  "CommonCleanupFinalizer = ''shoot-grafter.cloudoperators.dev/finalizer''"

definition CareInstructionLabel :: string where
  "CareInstructionLabel = ''shoot-grafter.cloudoperators.dev/careinstruction''"

definition AuthConfigMapLabel :: string where
  "AuthConfigMapLabel = ''shoot-grafter.cloudoperators.dev/auth-configmap''"

definition ReconcileAnnotation :: string where
  "ReconcileAnnotation = ''shoot-grafter.cloudoperators.dev/reconcile''"

definition ShootStatusOnboarded :: string where
  "ShootStatusOnboarded = ''Onboarded''"

definition ShootStatusFailed :: string where
  "ShootStatusFailed = ''Failed''"

definition ShootStatusExcluded :: string where
  "ShootStatusExcluded = ''Excluded''"

lemmas condition_types = GardenClusterAccessReady_def ShootControllerStartedCondition_def
  DeleteCondition_def ShootsReconciledCondition_def ReadyCondition_def

lemmas shoot_status_consts = ShootStatusOnboarded_def ShootStatusFailed_def ShootStatusExcluded_def

lemmas label_consts = CareInstructionLabel_def AuthConfigMapLabel_def ReconcileAnnotation_def

subsection \<open>Object metadata and conditions\<close>

text \<open>A namespaced object key: namespace and name.\<close>

type_synonym obj_key = "string \<times> string"

record ObjectMeta =
  Name :: string
  Namespace :: string
  Labels :: gomap
  Annotations :: gomap
  Generation :: int
  Finalizers :: "string slice"
  OwnerReferences :: "string slice"
  DeletionTimestamp :: "int option"

datatype condition_status = ConditionTrue | ConditionFalse | ConditionUnknown

text \<open>A status condition without its transition time, which the program never reads.\<close>

record Condition =
  cond_Type :: string
  cond_Status :: condition_status
  cond_Reason :: string
  cond_Message :: string

type_synonym conditions = "Condition slice"

definition TrueCondition :: "string \<Rightarrow> string \<Rightarrow> string \<Rightarrow> Condition" where
  "TrueCondition t r m = \<lparr>cond_Type = t, cond_Status = ConditionTrue, cond_Reason = r, cond_Message = m\<rparr>"

definition FalseCondition :: "string \<Rightarrow> string \<Rightarrow> string \<Rightarrow> Condition" where
  "FalseCondition t r m = \<lparr>cond_Type = t, cond_Status = ConditionFalse, cond_Reason = r, cond_Message = m\<rparr>"

definition UnknownCondition :: "string \<Rightarrow> string \<Rightarrow> string \<Rightarrow> Condition" where
  "UnknownCondition t r m = \<lparr>cond_Type = t, cond_Status = ConditionUnknown, cond_Reason = r, cond_Message = m\<rparr>"

subsection \<open>The CareInstruction resource\<close>

record LabelSelector =
  MatchLabels :: gomap
  MatchExpressions :: "(string \<times> string \<times> string list) list"

record ShootSelector =
  sel_LabelSelector :: "LabelSelector option"
  sel_Expression :: string

record SecretKeyReference =
  skr_Name :: string
  skr_Key :: string

record CareInstructionSpec =
  GardenClusterKubeConfigSecretName :: SecretKeyReference
  GardenClusterName :: string
  GardenNamespace :: string
  spec_ShootSelector :: "ShootSelector option"
  PropagateLabels :: "string slice"
  AdditionalLabels :: gomap
  AdditionalAnnotations :: gomap
  EnableRBAC :: bool
  AuthenticationConfigMapName :: string

record ShootStatus =
  ss_Name :: string
  ss_Status :: string
  ss_Message :: string

record CareInstructionStatus =
  Conditions :: conditions
  Shoots :: "ShootStatus slice"
  TotalTargetShoots :: int
  CreatedClusters :: int
  FailedClusters :: int
  ShootControllerRestartCount :: int

record CareInstruction = ObjectMeta +
  ci_Spec :: CareInstructionSpec
  ci_Status :: CareInstructionStatus

subsection \<open>Objects of Greenhouse, Gardener and core Kubernetes\<close>

record Cluster = ObjectMeta +
  cluster_Conditions :: conditions

record ConfigMap = ObjectMeta +
  cm_Data :: gomap

record Secret = ObjectMeta +
  secret_Data :: "bytes gmap"
  secret_Type :: string

record StructuredAuthentication =
  sa_ConfigMapName :: string

record KubeAPIServerConfig =
  kas_StructuredAuthentication :: "StructuredAuthentication option"
  kas_Rest :: string

record ShootSpec =
  Workers :: "string slice"
  KubeAPIServer :: "KubeAPIServerConfig option"
  shootspec_Rest :: string

record AdvertisedAddress =
  addr_Name :: string
  addr_URL :: string

record LastOperation =
  lastop_State :: string
  lastop_Rest :: string

record ShootStatusG =
  AdvertisedAddresses :: "AdvertisedAddress slice"
  shoot_LastOperation :: "LastOperation option"
  shootstatus_Rest :: string

record Shoot = ObjectMeta +
  shoot_Spec :: ShootSpec
  shoot_Status :: ShootStatusG

record RoleRef =
  rr_APIGroup :: string
  rr_Kind :: string
  rr_Name :: string

record Subject =
  sub_Kind :: string
  sub_APIGroup :: string
  sub_Name :: string

record ClusterRoleBinding = ObjectMeta +
  crb_Subjects :: "Subject slice"
  crb_RoleRef :: RoleRef

subsection \<open>Library functions outside the repository\<close>

type_synonym selector = "gomap \<Rightarrow> bool"

record ext =
  SetConditions :: "conditions \<Rightarrow> Condition \<Rightarrow> conditions"
  GetConditionByType :: "conditions \<Rightarrow> string \<Rightarrow> Condition option"
  IsTrue :: "Condition \<Rightarrow> bool"
  IsReadyTrue :: "conditions \<Rightarrow> bool"
  cel_EvaluateTyped :: "string \<Rightarrow> Shoot \<Rightarrow> go_error + bool"
  LabelSelectorAsSelector :: "LabelSelector \<Rightarrow> go_error + selector"
  CopyLabels :: "Shoot \<Rightarrow> Secret \<Rightarrow> string list \<Rightarrow> Secret"
  SecretAPIServerURLAnnotation :: string
  ClusterWorkerlessAnnotation :: string
  SecretTypeOIDCConfig :: string
  SecretTypeKubeConfig :: string

text \<open>What the program relies on in the condition helpers: a condition is stored under its type,
  replacing an earlier one of the same type and leaving the others, and is true when its status
  is.\<close>

locale status_conditions =
  fixes set_conds :: "conditions \<Rightarrow> Condition \<Rightarrow> conditions"
    and get_cond :: "conditions \<Rightarrow> string \<Rightarrow> Condition option"
    and is_true :: "Condition \<Rightarrow> bool"
    and is_ready :: "conditions \<Rightarrow> bool"
  assumes get_set: "get_cond (set_conds cs c) t = (if t = cond_Type c then Some c else get_cond cs t)"
    and get_empty: "get_cond (Some []) t = None" "get_cond None t = None"
    and is_true_iff: "is_true x \<longleftrightarrow> cond_Status x = ConditionTrue"
    and is_ready_iff: "is_ready cs \<longleftrightarrow> (\<exists>x. get_cond cs ReadyCondition = Some x \<and> is_true x)"

definition lawful_conditions :: "ext \<Rightarrow> bool" where
  "lawful_conditions E \<longleftrightarrow>
     status_conditions (SetConditions E) (GetConditionByType E) (IsTrue E) (IsReadyTrue E)"

text \<open>A list realisation of the helpers, one entry per type.\<close>

fun put_condition :: "Condition list \<Rightarrow> Condition \<Rightarrow> Condition list" where
  "put_condition [] c = [c]"
| "put_condition (x # xs) c =
     (if cond_Type x = cond_Type c then c # xs else x # put_condition xs c)"

definition list_SetConditions :: "conditions \<Rightarrow> Condition \<Rightarrow> conditions" where
  "list_SetConditions cs c = Some (put_condition (slice_elems cs) c)"

definition list_GetConditionByType :: "conditions \<Rightarrow> string \<Rightarrow> Condition option" where
  "list_GetConditionByType cs t = find (\<lambda>c. cond_Type c = t) (slice_elems cs)"

definition list_IsTrue :: "Condition \<Rightarrow> bool" where
  "list_IsTrue x \<longleftrightarrow> cond_Status x = ConditionTrue"

definition list_IsReadyTrue :: "conditions \<Rightarrow> bool" where
  "list_IsReadyTrue cs = (case list_GetConditionByType cs ReadyCondition of None \<Rightarrow> False | Some x \<Rightarrow> list_IsTrue x)"

subsection \<open>Methods of CareInstruction\<close>

definition CanBeSuspended :: "CareInstruction \<Rightarrow> bool" where
  "CanBeSuspended c = False"

definition GetConditions :: "CareInstruction \<Rightarrow> conditions" where
  "GetConditions c = Conditions (ci_Status c)"

definition update_status :: "(CareInstructionStatus \<Rightarrow> CareInstructionStatus) \<Rightarrow> CareInstruction \<Rightarrow> CareInstruction" where
  "update_status f c = c\<lparr>ci_Status := f (ci_Status c)\<rparr>"

definition SetCondition :: "ext \<Rightarrow> Condition \<Rightarrow> CareInstruction \<Rightarrow> CareInstruction" where
  "SetCondition E condition c =
     update_status (\<lambda>st. st\<lparr>Conditions := SetConditions E (Conditions st) condition\<rparr>) c"

text \<open>\<open>slices.DeleteFunc\<close> on a nil slice returns it unchanged.\<close>

definition RemoveCondition :: "string \<Rightarrow> CareInstruction \<Rightarrow> CareInstruction" where
  "RemoveCondition conditionType c =
     update_status (\<lambda>st. st\<lparr>Conditions :=
       map_option (filter (\<lambda>cond. cond_Type cond \<noteq> conditionType)) (Conditions st)\<rparr>) c"

definition MatchesCELFilter :: "ext \<Rightarrow> CareInstruction \<Rightarrow> Shoot \<Rightarrow> go_error + bool" where
  "MatchesCELFilter E c shoot =
     (case spec_ShootSelector (ci_Spec c) of
        None \<Rightarrow> Inr True
      | Some sel \<Rightarrow>
          if sel_Expression sel = [] then Inr True
          else cel_EvaluateTyped E (sel_Expression sel) shoot)"

definition get_condition :: "ext \<Rightarrow> CareInstruction \<Rightarrow> string \<Rightarrow> Condition option" where
  "get_condition E c t = GetConditionByType E (Conditions (ci_Status c)) t"

subsection \<open>The defaulting webhook\<close>

definition webhook_Default :: "CareInstruction option \<Rightarrow> go_error + CareInstruction" where
  "webhook_Default ci =
     (case ci of
        None \<Rightarrow> Inl (errors_New ''expected CareInstruction, got nil'')
      | Some c \<Rightarrow>
          (case spec_ShootSelector (ci_Spec c) of
             None \<Rightarrow> Inr (c\<lparr>ci_Spec := (ci_Spec c)\<lparr>spec_ShootSelector :=
                        Some \<lparr>sel_LabelSelector = None, sel_Expression = []\<rparr>\<rparr>\<rparr>)
           | Some sel \<Rightarrow> Inr c))"

section \<open>Lemmas\<close>

lemma find_put_condition:
  "find (\<lambda>x. cond_Type x = t) (put_condition xs c) =
     (if t = cond_Type c then Some c else find (\<lambda>x. cond_Type x = t) xs)"
  by (induction xs c rule: put_condition.induct) auto

interpretation list_conds: status_conditions
  list_SetConditions list_GetConditionByType list_IsTrue list_IsReadyTrue
  by unfold_locales
     (auto simp: list_SetConditions_def list_GetConditionByType_def list_IsTrue_def
        list_IsReadyTrue_def slice_elems_def find_put_condition split: option.splits)

lemma condition_constructors [simp]:
  "cond_Type (TrueCondition t r m) = t" "cond_Status (TrueCondition t r m) = ConditionTrue"
  "cond_Reason (TrueCondition t r m) = r" "cond_Message (TrueCondition t r m) = m"
  "cond_Type (FalseCondition t r m) = t" "cond_Status (FalseCondition t r m) = ConditionFalse"
  "cond_Reason (FalseCondition t r m) = r" "cond_Message (FalseCondition t r m) = m"
  "cond_Type (UnknownCondition t r m) = t" "cond_Status (UnknownCondition t r m) = ConditionUnknown"
  "cond_Reason (UnknownCondition t r m) = r" "cond_Message (UnknownCondition t r m) = m"
  by (simp_all add: TrueCondition_def FalseCondition_def UnknownCondition_def)

lemma condition_types_distinct [simp]:
  "GardenClusterAccessReady \<noteq> ShootControllerStartedCondition"
  "ShootControllerStartedCondition \<noteq> GardenClusterAccessReady"
  "GardenClusterAccessReady \<noteq> ShootsReconciledCondition"
  "ShootsReconciledCondition \<noteq> GardenClusterAccessReady"
  "ShootControllerStartedCondition \<noteq> ShootsReconciledCondition"
  "ShootsReconciledCondition \<noteq> ShootControllerStartedCondition"
  "ReadyCondition \<noteq> GardenClusterAccessReady" "GardenClusterAccessReady \<noteq> ReadyCondition"
  "ReadyCondition \<noteq> ShootControllerStartedCondition" "ShootControllerStartedCondition \<noteq> ReadyCondition"
  "ReadyCondition \<noteq> ShootsReconciledCondition" "ShootsReconciledCondition \<noteq> ReadyCondition"
  "DeleteCondition \<noteq> ReadyCondition" "ReadyCondition \<noteq> DeleteCondition"
  "DeleteCondition \<noteq> GardenClusterAccessReady" "GardenClusterAccessReady \<noteq> DeleteCondition"
  "DeleteCondition \<noteq> ShootControllerStartedCondition" "ShootControllerStartedCondition \<noteq> DeleteCondition"
  "DeleteCondition \<noteq> ShootsReconciledCondition" "ShootsReconciledCondition \<noteq> DeleteCondition"
  by (simp_all add: condition_types)

lemma shoot_status_distinct [simp]:
  "ShootStatusOnboarded \<noteq> ShootStatusFailed" "ShootStatusFailed \<noteq> ShootStatusOnboarded"
  "ShootStatusOnboarded \<noteq> ShootStatusExcluded" "ShootStatusExcluded \<noteq> ShootStatusOnboarded"
  "ShootStatusFailed \<noteq> ShootStatusExcluded" "ShootStatusExcluded \<noteq> ShootStatusFailed"
  by (simp_all add: shoot_status_consts)

lemma update_status_simps [simp]:
  "ci_Spec (update_status f c) = ci_Spec c" "ci_Status (update_status f c) = f (ci_Status c)"
  "Name (update_status f c) = Name c" "Namespace (update_status f c) = Namespace c"
  "Labels (update_status f c) = Labels c" "Annotations (update_status f c) = Annotations c"
  by (simp_all add: update_status_def)

lemma SetCondition_simps [simp]:
  "ci_Spec (SetCondition E k c) = ci_Spec c"
  "Name (SetCondition E k c) = Name c" "Namespace (SetCondition E k c) = Namespace c"
  "Annotations (SetCondition E k c) = Annotations c"
  "Shoots (ci_Status (SetCondition E k c)) = Shoots (ci_Status c)"
  "TotalTargetShoots (ci_Status (SetCondition E k c)) = TotalTargetShoots (ci_Status c)"
  "CreatedClusters (ci_Status (SetCondition E k c)) = CreatedClusters (ci_Status c)"
  "FailedClusters (ci_Status (SetCondition E k c)) = FailedClusters (ci_Status c)"
  "ShootControllerRestartCount (ci_Status (SetCondition E k c)) = ShootControllerRestartCount (ci_Status c)"
  by (simp_all add: SetCondition_def)

lemma get_condition_SetCondition:
  assumes "lawful_conditions E"
  shows "get_condition E (SetCondition E k c) t = (if t = cond_Type k then Some k else get_condition E c t)"
  using assms unfolding lawful_conditions_def
  by (simp add: get_condition_def SetCondition_def status_conditions.get_set)

lemma lawful_IsTrue_iff:
  "lawful_conditions E \<Longrightarrow> IsTrue E x \<longleftrightarrow> cond_Status x = ConditionTrue"
  unfolding lawful_conditions_def by (rule status_conditions.is_true_iff)

lemma lawful_IsReadyTrue_iff:
  "lawful_conditions E \<Longrightarrow>
     IsReadyTrue E cs \<longleftrightarrow> (\<exists>x. GetConditionByType E cs ReadyCondition = Some x \<and> cond_Status x = ConditionTrue)"
  unfolding lawful_conditions_def
  by (simp add: status_conditions.is_ready_iff status_conditions.is_true_iff)

lemma MatchesCELFilter_no_expression:
  assumes "\<And>sel. spec_ShootSelector (ci_Spec c) = Some sel \<Longrightarrow> sel_Expression sel = []"
  shows "MatchesCELFilter E c shoot = Inr True"
  using assms by (auto simp: MatchesCELFilter_def split: option.splits)

end
