(* ===== verification/Shoot_Statuses.thy ===== *)
theory Shoot_Statuses
  imports Api_Types "HOL-Library.Multiset"
begin

section \<open>Shoot statuses: \<open>controller/careinstruction/shootstatus.go\<close>\<close>

text \<open>
  \<open>buildShootStatuses\<close> merges three sources into one entry per shoot name.  The Go maps
  \<open>excluded\<close> and \<open>conflicts\<close> are ranged over, in an order the runtime chooses; the model takes
  them as the association list that the loop visits, and \<open>buildShootStatuses_order_irrelevant\<close>
  shows that the result does not depend on the choice.  The local map \<open>byName\<close> is an association
  list too, whose order disappears in the final \<open>sort.Slice\<close> by name.

  The interface between the merge loop and its table is the locale \<open>ranked_table\<close>: an entry is
  replaced unless the present one has a higher rank.  The abstract meaning is \<open>best\<close>: the last
  entry of maximal rank.
\<close>

record conflictInfo =
  conf_owner :: string
  conf_ready :: bool

definition shootStatusRank :: "string \<Rightarrow> int" where
  "shootStatusRank status =
     (if status = ShootStatusExcluded then 2
      else if status = ShootStatusFailed then 1
      else 0)"

type_synonym status_table = "(string \<times> ShootStatus) list"

definition setStatus :: "status_table \<Rightarrow> ShootStatus \<Rightarrow> status_table" where
  "setStatus byName shootStatus =
     (case map_of byName (ss_Name shootStatus) of
        Some current \<Rightarrow>
          if shootStatusRank (ss_Status current) > shootStatusRank (ss_Status shootStatus) then byName
          else AList.update (ss_Name shootStatus) shootStatus byName
      | None \<Rightarrow> AList.update (ss_Name shootStatus) shootStatus byName)"

definition excluded_status :: "string \<times> string \<Rightarrow> ShootStatus" where
  "excluded_status e = \<lparr>ss_Name = fst e, ss_Status = ShootStatusExcluded, ss_Message = snd e\<rparr>"

definition owned_status :: "ext \<Rightarrow> Cluster \<Rightarrow> ShootStatus" where
  "owned_status E cluster =
     (if IsReadyTrue E (cluster_Conditions cluster)
      then \<lparr>ss_Name = Name cluster, ss_Status = ShootStatusOnboarded, ss_Message = []\<rparr>
      else \<lparr>ss_Name = Name cluster, ss_Status = ShootStatusFailed,
            ss_Message =
              (case GetConditionByType E (cluster_Conditions cluster) ReadyCondition of
                 None \<Rightarrow> []
               | Some readyCondition \<Rightarrow>
                   if cond_Message readyCondition \<noteq> [] then cond_Message readyCondition else [])\<rparr>)"

definition conflict_status :: "string \<times> conflictInfo \<Rightarrow> ShootStatus" where
  "conflict_status c =
     \<lparr>ss_Name = fst c,
      ss_Status = (if conf_ready (snd c) then ShootStatusOnboarded else ShootStatusFailed),
      ss_Message = ''Cluster managed by different CareInstruction: '' @ conf_owner (snd c)\<rparr>"

definition status_byName ::
  "ext \<Rightarrow> (string \<times> string) list \<Rightarrow> Cluster list \<Rightarrow> (string \<times> conflictInfo) list \<Rightarrow> status_table" where
  "status_byName E excluded ownedClusters conflicts =
     (let byName = fold (\<lambda>e t. setStatus t (excluded_status e)) excluded [];
          byName = fold (\<lambda>c t. setStatus t (owned_status E c)) ownedClusters byName
      in fold (\<lambda>c t. setStatus t (conflict_status c)) conflicts byName)"

text \<open>The final loop over \<open>byName\<close> collects the entries and counts the failed ones.\<close>

definition collect_statuses :: "status_table \<Rightarrow> ShootStatus list \<times> int" where
  "collect_statuses byName =
     fold (\<lambda>(_, s) (statuses, failed).
             (statuses @ [s], if ss_Status s = ShootStatusFailed then failed + 1 else failed))
          byName ([], 0)"

definition buildShootStatuses ::
  "ext \<Rightarrow> (string \<times> string) list \<Rightarrow> Cluster list \<Rightarrow> (string \<times> conflictInfo) list \<Rightarrow> ShootStatus list \<times> int" where
  "buildShootStatuses E excluded ownedClusters conflicts =
     (let (statuses, failed) = collect_statuses (status_byName E excluded ownedClusters conflicts)
      in (sort_key ss_Name statuses, failed))"

subsection \<open>The abstract meaning: the last entry of maximal rank\<close>

definition best :: "('e \<Rightarrow> int) \<Rightarrow> 'e list \<Rightarrow> 'e option" where
  "best rank es =
     (if es = [] then None
      else Some (last (filter (\<lambda>e. rank e = Max (rank ` set es)) es)))"

abbreviation status_rank :: "ShootStatus \<Rightarrow> int" where
  "status_rank s \<equiv> shootStatusRank (ss_Status s)"

definition all_reports ::
  "ext \<Rightarrow> (string \<times> string) list \<Rightarrow> Cluster list \<Rightarrow> (string \<times> conflictInfo) list \<Rightarrow> ShootStatus list" where
  "all_reports E excluded ownedClusters conflicts =
     map excluded_status excluded @ map (owned_status E) ownedClusters @ map conflict_status conflicts"

definition reported_status ::
  "ext \<Rightarrow> (string \<times> string) list \<Rightarrow> Cluster list \<Rightarrow> (string \<times> conflictInfo) list \<Rightarrow> string \<Rightarrow> ShootStatus option" where
  "reported_status E excluded ownedClusters conflicts n =
     best status_rank (filter (\<lambda>s. ss_Name s = n) (all_reports E excluded ownedClusters conflicts))"

locale ranked_table =
  fixes empty :: 't
    and lookup :: "'t \<Rightarrow> 'k \<Rightarrow> 'e option"
    and put :: "'t \<Rightarrow> 'e \<Rightarrow> 't"
    and key :: "'e \<Rightarrow> 'k"
    and rank :: "'e \<Rightarrow> int"
  assumes lookup_empty: "lookup empty k = None"
    and lookup_put: "lookup (put t e) k =
          (if k = key e \<and> (\<forall>c. lookup t k = Some c \<longrightarrow> rank c \<le> rank e) then Some e else lookup t k)"

section \<open>Lemmas\<close>

subsection \<open>Ranked merging\<close>

lemma best_Nil [simp]: "best rank [] = None"
  by (simp add: best_def)

lemma best_SomeD:
  assumes "best rank es = Some e"
  shows "e \<in> set es" "\<And>x. x \<in> set es \<Longrightarrow> rank x \<le> rank e"
proof -
  from assms have ne: "es \<noteq> []" and e: "e = last (filter (\<lambda>e. rank e = Max (rank ` set es)) es)"
    by (auto simp: best_def split: if_splits)
  have "Max (rank ` set es) \<in> rank ` set es" using ne by (intro Max_in) auto
  then have "filter (\<lambda>e. rank e = Max (rank ` set es)) es \<noteq> []" by (auto simp: filter_empty_conv)
  then have mem: "e \<in> set (filter (\<lambda>e. rank e = Max (rank ` set es)) es)" unfolding e by (rule last_in_set)
  then show "e \<in> set es" by simp
  fix x assume "x \<in> set es"
  then have "rank x \<le> Max (rank ` set es)" by simp
  with mem show "rank x \<le> rank e" by simp
qed

lemma best_eq_None_iff [simp]: "best rank es = None \<longleftrightarrow> es = []"
  by (simp add: best_def)

lemma best_single [simp]: "best rank [e] = Some e"
  by (simp add: best_def)

lemma best_snoc:
  "best rank (es @ [e]) = (case best rank es of None \<Rightarrow> Some e
     | Some c \<Rightarrow> if rank e < rank c then Some c else Some e)"
proof (cases "best rank es")
  case None
  then show ?thesis by (cases es) (simp_all add: best_def)
next
  case (Some c)
  then have ne: "es \<noteq> []" and c: "c \<in> set es" "\<And>x. x \<in> set es \<Longrightarrow> rank x \<le> rank c"
    using best_SomeD [OF Some] by auto
  have mx: "Max (rank ` set es) = rank c" using c by (intro Max_eqI) auto
  have mx': "Max (rank ` set (es @ [e])) = max (rank c) (rank e)"
    using ne mx by (simp add: max.commute)
  show ?thesis
  proof (cases "rank e < rank c")
    case True
    then show ?thesis using Some mx' ne mx by (simp add: best_def max_def)
  next
    case False
    then show ?thesis using Some mx' by (simp add: best_def max_def)
  qed
qed

text \<open>When only one entry has the maximal rank, the order of the entries is irrelevant.\<close>

lemma best_eqI:
  assumes "e \<in> set es" "\<And>x. x \<in> set es \<Longrightarrow> x = e \<or> rank x < rank e"
  shows "best rank es = Some e"
proof (cases "best rank es")
  case None
  with assms(1) show ?thesis by (auto simp: best_def split: if_splits)
next
  case (Some c)
  from best_SomeD [OF Some] assms have "c = e" by force
  with Some show ?thesis by simp
qed

context ranked_table
begin

definition put_all :: "'e list \<Rightarrow> 't" where
  "put_all es = fold (\<lambda>e t. put t e) es empty"

lemma lookup_put_all: "lookup (put_all es) k = best rank (filter (\<lambda>e. key e = k) es)"
proof (induction es rule: rev_induct)
  case Nil
  then show ?case by (simp add: put_all_def lookup_empty)
next
  case (snoc e es)
  have "put_all (es @ [e]) = put (put_all es) e" by (simp add: put_all_def)
  then show ?case
    by (cases "best rank (filter (\<lambda>e. key e = k) es)")
       (auto simp: lookup_put snoc.IH best_snoc)
qed

end

subsection \<open>The table of \<open>buildShootStatuses\<close>\<close>

lemma map_of_AList_update: "map_of (AList.update k v xs) k' = (if k = k' then Some v else map_of xs k')"
  by (simp add: AList.update_conv')

interpretation byName: ranked_table "[]" map_of setStatus ss_Name status_rank
  by unfold_locales
     (auto simp: setStatus_def map_of_AList_update not_less split: option.splits)

lemma status_byName_put_all:
  "status_byName E excluded owned conflicts = byName.put_all (all_reports E excluded owned conflicts)"
  by (simp add: status_byName_def byName.put_all_def all_reports_def fold_map comp_def)

lemma map_of_status_byName:
  "map_of (status_byName E excluded owned conflicts) n = reported_status E excluded owned conflicts n"
  by (simp add: status_byName_put_all byName.lookup_put_all reported_status_def)

lemma distinct_setStatus: "distinct (map fst t) \<Longrightarrow> distinct (map fst (setStatus t s))"
  by (auto simp: setStatus_def intro: AList.distinct_update split: option.splits)

lemma distinct_fold_setStatus:
  "distinct (map fst t) \<Longrightarrow> distinct (map fst (fold (\<lambda>x t. setStatus t (f x)) xs t))"
  by (induction xs arbitrary: t) (simp_all add: distinct_setStatus)

lemma distinct_status_byName: "distinct (map fst (status_byName E excluded owned conflicts))"
  by (simp add: status_byName_def Let_def distinct_fold_setStatus)

lemma reported_status_name: "reported_status E ex ow co n = Some s \<Longrightarrow> ss_Name s = n"
  by (auto simp: reported_status_def dest: best_SomeD)

lemma status_byName_keys:
  assumes "(k, s) \<in> set (status_byName E ex ow co)"
  shows "k = ss_Name s" "reported_status E ex ow co k = Some s"
proof -
  show *: "reported_status E ex ow co k = Some s"
    using assms distinct_status_byName by (simp add: map_of_is_SomeI flip: map_of_status_byName)
  then show "k = ss_Name s" by (simp add: reported_status_name)
qed

subsection \<open>The result of \<open>buildShootStatuses\<close>\<close>

lemma collect_statuses_acc:
  "fold (\<lambda>(_, s) (statuses, failed).
       (statuses @ [s], if ss_Status s = ShootStatusFailed then failed + 1 else failed)) t (acc, n)
   = (acc @ map snd t, n + int (length (filter (\<lambda>s. ss_Status s = ShootStatusFailed) (map snd t))))"
  by (induction t arbitrary: acc n) auto

lemma collect_statuses_eq:
  "collect_statuses t =
     (map snd t, int (length (filter (\<lambda>s. ss_Status s = ShootStatusFailed) (map snd t))))"
  by (simp add: collect_statuses_def collect_statuses_acc)

lemma buildShootStatuses_eq:
  "buildShootStatuses E ex ow co =
     (let sts = sort_key ss_Name (map snd (status_byName E ex ow co))
      in (sts, int (length (filter (\<lambda>s. ss_Status s = ShootStatusFailed) sts))))"
proof -
  let ?xs = "map snd (status_byName E ex ow co)"
  have "mset (filter (\<lambda>s. ss_Status s = ShootStatusFailed) (sort_key ss_Name ?xs)) =
        mset (filter (\<lambda>s. ss_Status s = ShootStatusFailed) ?xs)"
    by (simp add: mset_filter)
  then show ?thesis
    by (simp add: buildShootStatuses_def collect_statuses_eq Let_def flip: size_mset)
qed

lemma set_buildShootStatuses:
  "s \<in> set (fst (buildShootStatuses E ex ow co)) \<longleftrightarrow> reported_status E ex ow co (ss_Name s) = Some s"
proof -
  have "s \<in> set (fst (buildShootStatuses E ex ow co)) \<longleftrightarrow> (\<exists>k. (k, s) \<in> set (status_byName E ex ow co))"
    by (force simp: buildShootStatuses_eq Let_def)
  also have "\<dots> \<longleftrightarrow> reported_status E ex ow co (ss_Name s) = Some s"
    using status_byName_keys map_of_SomeD by (metis map_of_status_byName)
  finally show ?thesis .
qed

lemma strictly_sorted_buildShootStatuses:
  "sorted_wrt (<) (map ss_Name (fst (buildShootStatuses E ex ow co)))"
proof -
  let ?t = "status_byName E ex ow co"
  have "map ss_Name (map snd ?t) = map fst ?t"
    using status_byName_keys(1) by fastforce
  then have "distinct (map ss_Name (map snd ?t))"
    using distinct_status_byName by (simp only:)
  moreover have "mset (map ss_Name (sort_key ss_Name (map snd ?t))) = mset (map ss_Name (map snd ?t))"
    by (simp only: mset_map mset_sort)
  ultimately have "distinct (map ss_Name (sort_key ss_Name (map snd ?t)))"
    using mset_eq_imp_distinct_iff by blast
  moreover have "sorted (map ss_Name (sort_key ss_Name (map snd ?t)))" by simp
  ultimately show ?thesis
    by (simp add: buildShootStatuses_eq Let_def strict_sorted_iff)
qed

lemma strictly_sorted_key_unique:
  fixes f :: "'a \<Rightarrow> 'b :: linorder"
  assumes "sorted_wrt (<) (map f xs)" "sorted_wrt (<) (map f ys)" "set xs = set ys"
  shows "xs = ys"
proof -
  have "map f xs = map f ys"
    by (rule sorted_distinct_set_unique) (use assms in \<open>simp_all add: strict_sorted_iff\<close>)
  moreover have "inj_on f (set xs \<union> set ys)"
    using assms by (simp add: strict_sorted_iff distinct_map)
  ultimately show ?thesis by (simp add: inj_on_map_eq_map)
qed

text \<open>The reports about one name, from a map without duplicate keys.\<close>

lemma filter_alist_key:
  assumes "distinct (map fst xs)"
  shows "filter (\<lambda>e. fst e = n) xs = (case map_of xs n of None \<Rightarrow> [] | Some v \<Rightarrow> [(n, v)])"
  using assms
proof (induction xs)
  case (Cons x xs)
  then have "fst x = n \<Longrightarrow> map_of xs n = None" by (auto simp: map_of_eq_None_iff)
  with Cons show ?case by (cases x) auto
qed simp

lemma report_names [simp]:
  "ss_Name (excluded_status e) = fst e" "ss_Name (owned_status E c) = Name c"
  "ss_Name (conflict_status k) = fst k"
  by (simp_all add: excluded_status_def owned_status_def conflict_status_def)

lemma report_ranks [simp]:
  "status_rank (excluded_status e) = 2"
  "status_rank (owned_status E c) \<le> 1" "status_rank (conflict_status k) \<le> 1"
  by (simp_all add: excluded_status_def owned_status_def conflict_status_def shootStatusRank_def)

lemma reported_status_map_of:
  assumes "distinct (map fst ex)" "distinct (map fst co)"
  shows "reported_status E ex ow co n =
    best status_rank ((case map_of ex n of None \<Rightarrow> [] | Some v \<Rightarrow> [excluded_status (n, v)])
       @ map (owned_status E) (filter (\<lambda>c. Name c = n) ow)
       @ (case map_of co n of None \<Rightarrow> [] | Some v \<Rightarrow> [conflict_status (n, v)]))"
  by (simp add: reported_status_def all_reports_def filter_map comp_def filter_alist_key assms split: option.splits)

lemma reported_status_excluded:
  assumes "distinct (map fst ex)" "distinct (map fst co)" "map_of ex n = Some r"
  shows "reported_status E ex ow co n = Some (excluded_status (n, r))"
  unfolding reported_status_map_of [OF assms(1,2)]
proof (rule best_eqI)
  fix x
  assume "x \<in> set ((case map_of ex n of None \<Rightarrow> [] | Some v \<Rightarrow> [excluded_status (n, v)])
       @ map (owned_status E) (filter (\<lambda>c. Name c = n) ow)
       @ (case map_of co n of None \<Rightarrow> [] | Some v \<Rightarrow> [conflict_status (n, v)]))"
  then show "x = excluded_status (n, r) \<or> status_rank x < status_rank (excluded_status (n, r))"
    using assms(3) report_ranks(2) [of E] report_ranks(3)
    by (auto simp: le_less_trans [of _ 1] split: option.splits)
qed (simp add: assms(3))

definition other_reports ::
  "ext \<Rightarrow> Cluster list \<Rightarrow> (string \<times> conflictInfo) list \<Rightarrow> string \<Rightarrow> ShootStatus list" where
  "other_reports E ow co n = map (owned_status E) (filter (\<lambda>c. Name c = n) ow)
     @ (case map_of co n of None \<Rightarrow> [] | Some v \<Rightarrow> [conflict_status (n, v)])"

lemma set_other_reports:
  "x \<in> set (other_reports E ow co n) \<longleftrightarrow>
     (\<exists>c \<in> set ow. Name c = n \<and> x = owned_status E c) \<or> (\<exists>k. map_of co n = Some k \<and> x = conflict_status (n, k))"
  by (cases "map_of co n") (auto simp: other_reports_def)

lemma reported_status_not_excluded:
  assumes "distinct (map fst ex)" "distinct (map fst co)" "map_of ex n = None"
    "reported_status E ex ow co n = Some s"
  shows "s \<in> set (other_reports E ow co n)"
    and "\<And>x. x \<in> set (other_reports E ow co n) \<Longrightarrow> status_rank x \<le> status_rank s"
proof -
  have "best status_rank (other_reports E ow co n) = Some s"
    using assms by (simp add: reported_status_map_of other_reports_def)
  from best_SomeD [OF this] show "s \<in> set (other_reports E ow co n)"
    "\<And>x. x \<in> set (other_reports E ow co n) \<Longrightarrow> status_rank x \<le> status_rank s" by auto
qed

lemma report_status_cases:
  "ss_Status (owned_status E c) =
     (if IsReadyTrue E (cluster_Conditions c) then ShootStatusOnboarded else ShootStatusFailed)"
  "ss_Status (conflict_status k) = (if conf_ready (snd k) then ShootStatusOnboarded else ShootStatusFailed)"
  "ss_Status (excluded_status e) = ShootStatusExcluded"
  by (simp_all add: owned_status_def conflict_status_def excluded_status_def)

lemma status_rank_iff:
  "shootStatusRank st = 2 \<longleftrightarrow> st = ShootStatusExcluded"
  "shootStatusRank st = 1 \<longleftrightarrow> st = ShootStatusFailed"
  "shootStatusRank st \<le> 2"
  by (auto simp: shootStatusRank_def)

text \<open>Whether some report that is not an exclusion says that the shoot failed.\<close>

definition some_failure ::
  "ext \<Rightarrow> Cluster list \<Rightarrow> (string \<times> conflictInfo) list \<Rightarrow> string \<Rightarrow> bool" where
  "some_failure E ow co n \<longleftrightarrow>
     (\<exists>c \<in> set ow. Name c = n \<and> \<not> IsReadyTrue E (cluster_Conditions c)) \<or>
     (\<exists>k. map_of co n = Some k \<and> \<not> conf_ready k)"

lemma reported_status_failed_iff:
  assumes "distinct (map fst ex)" "distinct (map fst co)" "map_of ex n = None"
    "reported_status E ex ow co n = Some s"
  shows "ss_Status s = (if some_failure E ow co n then ShootStatusFailed else ShootStatusOnboarded)"
proof -
  let ?rs = "other_reports E ow co n"
  note s = reported_status_not_excluded [OF assms]
  have fail_iff: "some_failure E ow co n \<longleftrightarrow> (\<exists>x \<in> set ?rs. ss_Status x = ShootStatusFailed)"
    by (auto simp: some_failure_def set_other_reports report_status_cases Bex_def)
  have two: "ss_Status x \<in> {ShootStatusFailed, ShootStatusOnboarded}" if "x \<in> set ?rs" for x
    using that by (auto simp: set_other_reports report_status_cases)
  show ?thesis
  proof (cases "some_failure E ow co n")
    case True
    then obtain x where x: "x \<in> set ?rs" "ss_Status x = ShootStatusFailed" using fail_iff by blast
    from s(2) [OF x(1)] have "1 \<le> status_rank s" by (simp add: x(2) shootStatusRank_def)
    with two [OF s(1)] True show ?thesis by (auto simp: shootStatusRank_def)
  next
    case False
    with fail_iff s(1) two show ?thesis by auto
  qed
qed

section \<open>Properties\<close>

text \<open>C10: \<open>buildShootStatuses\<close> refines its specification: the statuses are strictly sorted by name
  (so there is one entry per shoot name), an entry is in the list exactly when it is the last report of
  maximal rank about its name among the exclusions, the owned clusters and the conflicts, and the
  returned count is the number of entries that ended up as Failed.\<close>

theorem buildShootStatuses_spec:
  "sorted_wrt (<) (map ss_Name (fst (buildShootStatuses E excluded owned conflicts)))
   \<and> (\<forall>s. s \<in> set (fst (buildShootStatuses E excluded owned conflicts))
          \<longleftrightarrow> reported_status E excluded owned conflicts (ss_Name s) = Some s)
   \<and> snd (buildShootStatuses E excluded owned conflicts)
       = int (length (filter (\<lambda>s. ss_Status s = ShootStatusFailed)
                        (fst (buildShootStatuses E excluded owned conflicts))))"
  by (simp add: strictly_sorted_buildShootStatuses set_buildShootStatuses) (simp add: buildShootStatuses_eq Let_def)

text \<open>C27: precedence of the sources.  A reported shoot is Excluded, with the reason of the exclusion,
  exactly when the selector excluded it; otherwise it is Failed as soon as an owned cluster or a
  conflicting cluster of that name is not ready, and Onboarded only if none is: Failed is never masked by
  Onboarded, and neither hides an exclusion.\<close>

theorem shoot_status_precedence:
  assumes "distinct (map fst excluded)" "distinct (map fst conflicts)"
    and "s \<in> set (fst (buildShootStatuses E excluded owned conflicts))"
  shows "case map_of excluded (ss_Name s) of
      Some reason \<Rightarrow> ss_Status s = ShootStatusExcluded \<and> ss_Message s = reason
    | None \<Rightarrow> ss_Status s = (if some_failure E owned conflicts (ss_Name s)
                             then ShootStatusFailed else ShootStatusOnboarded)"
proof -
  have rep: "reported_status E excluded owned conflicts (ss_Name s) = Some s"
    using assms(3) by (simp add: set_buildShootStatuses)
  show ?thesis
  proof (cases "map_of excluded (ss_Name s)")
    case None
    then show ?thesis using reported_status_failed_iff [OF assms(1,2) None rep] by simp
  next
    case (Some r)
    with reported_status_excluded [OF assms(1,2) Some, of E owned] rep
    have "s = excluded_status (ss_Name s, r)" by simp
    then have "ss_Status s = ShootStatusExcluded" "ss_Message s = r"
      by (metis excluded_status_def snd_conv ShootStatus.select_convs(2,3))+
    with Some show ?thesis by simp
  qed
qed

text \<open>C37: the order in which the Go runtime ranges over the two input maps does not matter: any two
  enumerations of the same maps give the same statuses and the same count.\<close>

theorem buildShootStatuses_order_irrelevant:
  assumes "distinct (map fst excluded)" "distinct (map fst conflicts)"
    and "mset excluded' = mset excluded" "mset conflicts' = mset conflicts"
  shows "buildShootStatuses E excluded' owned conflicts' = buildShootStatuses E excluded owned conflicts"
proof -
  have d: "distinct (map fst excluded')" "distinct (map fst conflicts')"
    using assms by (metis mset_eq_imp_distinct_iff mset_map)+
  have m: "map_of excluded' = map_of excluded" "map_of conflicts' = map_of conflicts"
    using assms d by (auto intro!: map_of_inject_set [THEN iffD2] dest: mset_eq_setD)
  have "reported_status E excluded' owned conflicts' n = reported_status E excluded owned conflicts n" for n
    by (simp add: reported_status_map_of assms(1,2) d m)
  then have "fst (buildShootStatuses E excluded' owned conflicts') = fst (buildShootStatuses E excluded owned conflicts)"
    by (intro strictly_sorted_key_unique [OF strictly_sorted_buildShootStatuses strictly_sorted_buildShootStatuses])
       (auto simp: set_buildShootStatuses)
  then show ?thesis by (simp add: buildShootStatuses_eq Let_def)
qed

end
