(* ===== verification/Clients.thy ===== *)
theory Clients
  imports Api_Types "HOL-Library.Product_Lexorder"
begin

section \<open>The API clients\<close>

text \<open>
  The program talks to three API servers through controller-runtime clients: Greenhouse, the Garden
  cluster and a Shoot cluster.  The clients and the servers behind them are not code of the repository:
  each is a record of the calls the program makes, every call a state transformer on an arbitrary world
  \<open>'w\<close>.  A call may fail, may change anything and may see changes made by others since the previous
  call; what a component needs beyond that is stated as a locale.

  \<open>Patch(obj, MergeFrom(base))\<close> takes the object and its base and returns the object as the server
  answers it, which Go writes into \<open>obj\<close>; \<open>Update\<close> likewise.  \<open>CreateOrUpdate\<close> takes the
  object and the mutate function and returns the operation result with the resulting object.
\<close>

datatype OperationResult = OperationResultNone | OperationResultCreated | OperationResultUpdated

type_synonym ('w, 'a) call = "('w, go_error + 'a) state"

record 'w gh_client =
  gh_get_cluster :: "obj_key \<Rightarrow> ('w, Cluster) call"
  gh_list_clusters :: "string \<Rightarrow> string \<times> string \<Rightarrow> ('w, Cluster list) call"
  gh_patch_cluster :: "Cluster \<Rightarrow> Cluster \<Rightarrow> ('w, Cluster) call"
  gh_delete_cluster :: "Cluster \<Rightarrow> ('w, unit) call"
  gh_get_secret :: "obj_key \<Rightarrow> ('w, Secret) call"
  gh_create_or_update_secret :: "Secret \<Rightarrow> (Secret \<Rightarrow> Secret) \<Rightarrow> ('w, OperationResult \<times> Secret) call"
  gh_get_configmap :: "obj_key \<Rightarrow> ('w, ConfigMap) call"
  gh_patch_configmap :: "ConfigMap \<Rightarrow> ConfigMap \<Rightarrow> ('w, ConfigMap) call"
  gh_list_careinstructions :: "string option \<Rightarrow> ('w, CareInstruction list) call"
  gh_patch_careinstruction :: "CareInstruction \<Rightarrow> CareInstruction \<Rightarrow> ('w, CareInstruction) call"

text \<open>\<open>gd_list_shoots ns sel field\<close>: the shoots of a namespace, restricted by a label selector and by
  an indexed field where given.\<close>

record 'w garden_client =
  gd_get_shoot :: "obj_key \<Rightarrow> ('w, Shoot) call"
  gd_list_shoots :: "string \<Rightarrow> selector option \<Rightarrow> (string \<times> string) option \<Rightarrow> ('w, Shoot list) call"
  gd_patch_shoot :: "Shoot \<Rightarrow> Shoot \<Rightarrow> ('w, Shoot) call"
  gd_update_shoot :: "Shoot \<Rightarrow> ('w, Shoot) call"
  gd_get_configmap :: "obj_key \<Rightarrow> ('w, ConfigMap) call"
  gd_create_or_update_configmap :: "ConfigMap \<Rightarrow> (ConfigMap \<Rightarrow> ConfigMap) \<Rightarrow> ('w, OperationResult \<times> ConfigMap) call"
  gd_create_adminkubeconfig :: "Shoot \<Rightarrow> int \<Rightarrow> ('w, bytes) call"

record 'w shoot_client =
  sh_get_crb :: "string \<Rightarrow> ('w, ClusterRoleBinding) call"
  sh_delete_crb :: "ClusterRoleBinding \<Rightarrow> ('w, unit) call"
  sh_create_or_update_crb ::
    "ClusterRoleBinding \<Rightarrow> (ClusterRoleBinding \<Rightarrow> ClusterRoleBinding) \<Rightarrow> ('w, OperationResult \<times> ClusterRoleBinding) call"

definition obj_key_of :: "'a ObjectMeta_scheme \<Rightarrow> obj_key" where
  "obj_key_of x = (Namespace x, Name x)"

subsection \<open>Calls of \<open>CareInstruction\<close> methods\<close>

text \<open>\<open>ListShoots\<close>: the label selector, when there is one, is converted first.\<close>

definition ListShoots :: "ext \<Rightarrow> CareInstruction \<Rightarrow> 'w garden_client \<Rightarrow> ('w, Shoot list) call" where
  "ListShoots E c gardenClient =
     (case Option.bind (spec_ShootSelector (ci_Spec c)) sel_LabelSelector of
        None \<Rightarrow> gd_list_shoots gardenClient (GardenNamespace (ci_Spec c)) None None
      | Some ls \<Rightarrow>
          (case LabelSelectorAsSelector E ls of
             Inl err \<Rightarrow> ret (Inl (Errorf_w ''invalid label selector'' err))
           | Inr sel \<Rightarrow> gd_list_shoots gardenClient (GardenNamespace (ci_Spec c)) (Some sel) None))"

definition ListClusters :: "CareInstruction \<Rightarrow> 'w gh_client \<Rightarrow> ('w, Cluster list) call" where
  "ListClusters c greenhouseClient =
     gh_list_clusters greenhouseClient (Namespace c) (CareInstructionLabel, Name c)"

subsection \<open>The contract of \<open>CreateOrUpdate\<close>\<close>

text \<open>
  The documented behaviour of \<open>controllerutil.CreateOrUpdate\<close> when no one else changes the object:
  an absent object is created as the mutate function leaves the given one, a present one is mutated and
  written back only if that changed it.  \<open>stored\<close> reads the object of a key in a world.
\<close>

locale create_or_update =
  fixes stored :: "'w \<Rightarrow> obj_key \<Rightarrow> 'o option"
    and key :: "'o \<Rightarrow> obj_key"
    and cou :: "'o \<Rightarrow> ('o \<Rightarrow> 'o) \<Rightarrow> ('w, OperationResult \<times> 'o) call"
  assumes cou_absent: "run_state (cou x f) w = (Inr (r, y), w') \<Longrightarrow> stored w (key x) = None \<Longrightarrow>
       r = OperationResultCreated \<and> y = f x \<and> stored w' (key x) = Some y"
    and cou_present: "run_state (cou x f) w = (Inr (r, y), w') \<Longrightarrow> stored w (key x) = Some z \<Longrightarrow>
       r = (if f z = z then OperationResultNone else OperationResultUpdated) \<and> y = f z
       \<and> stored w' (key x) = Some y"
    and cou_frame: "run_state (cou x f) w = (res, w') \<Longrightarrow> k \<noteq> key x \<Longrightarrow> stored w' k = stored w k"
begin

lemma cou_result: "run_state (cou x f) w = (Inr (r, y), w') \<Longrightarrow>
   y = f (case stored w (key x) of None \<Rightarrow> x | Some z \<Rightarrow> z) \<and> stored w' (key x) = Some y"
  using cou_absent cou_present by (cases "stored w (key x)") fastforce+

text \<open>A mutate function that is idempotent leaves nothing to do for a second call: it reports that
  nothing changed and the object stays as it is.\<close>

lemma cou_settles:
  assumes "run_state (cou x f) w = (Inr (r, y), w')"
    and "run_state (cou x f) w' = (Inr (r', y'), w'')"
    and "\<And>z. f (f z) = f z"
  shows "r' = OperationResultNone" "y' = y" "stored w'' (key x) = Some y"
proof -
  from cou_result [OF assms(1)] obtain z where y: "y = f z" and st: "stored w' (key x) = Some y" by blast
  have "f y = y" using y assms(3) by simp
  with cou_present [OF assms(2) st] show "r' = OperationResultNone" "y' = y" "stored w'' (key x) = Some y"
    by simp_all
qed

end

subsection \<open>An in-memory API server\<close>

text \<open>A store of objects by key, with the calls acting on it through a lens into the world: the
  realisation on which the contract is interpreted and on which the witnesses run.\<close>

type_synonym 'o store = "(obj_key, 'o) fmap"

definition not_found :: go_error where
  "not_found = GoError StatusReasonNotFound ''not found''"

definition mem_get :: "('w \<Rightarrow> 'o store) \<Rightarrow> obj_key \<Rightarrow> ('w, 'o) call" where
  "mem_get rd k = State (\<lambda>w. (case fmlookup (rd w) k of None \<Rightarrow> Inl not_found | Some x \<Rightarrow> Inr x, w))"

definition mem_replace ::
  "('w \<Rightarrow> 'o store) \<Rightarrow> ('o store \<Rightarrow> 'w \<Rightarrow> 'w) \<Rightarrow> ('o \<Rightarrow> obj_key) \<Rightarrow> 'o \<Rightarrow> ('w, 'o) call" where
  "mem_replace rd wr key x = State (\<lambda>w. case fmlookup (rd w) (key x) of
       None \<Rightarrow> (Inl not_found, w)
     | Some _ \<Rightarrow> (Inr x, wr (fmupd (key x) x (rd w)) w))"

definition mem_delete ::
  "('w \<Rightarrow> 'o store) \<Rightarrow> ('o store \<Rightarrow> 'w \<Rightarrow> 'w) \<Rightarrow> ('o \<Rightarrow> obj_key) \<Rightarrow> 'o \<Rightarrow> ('w, unit) call" where
  "mem_delete rd wr key x = State (\<lambda>w. case fmlookup (rd w) (key x) of
       None \<Rightarrow> (Inl not_found, w)
     | Some _ \<Rightarrow> (Inr (), wr (fmdrop (key x) (rd w)) w))"

definition mem_create_or_update ::
  "('w \<Rightarrow> 'o store) \<Rightarrow> ('o store \<Rightarrow> 'w \<Rightarrow> 'w) \<Rightarrow> ('o \<Rightarrow> obj_key) \<Rightarrow> 'o \<Rightarrow> ('o \<Rightarrow> 'o)
     \<Rightarrow> ('w, OperationResult \<times> 'o) call" where
  "mem_create_or_update rd wr key x f = State (\<lambda>w. case fmlookup (rd w) (key x) of
       None \<Rightarrow> (Inr (OperationResultCreated, f x), wr (fmupd (key x) (f x) (rd w)) w)
     | Some z \<Rightarrow> if f z = z then (Inr (OperationResultNone, z), w)
                  else (Inr (OperationResultUpdated, f z), wr (fmupd (key x) (f z) (rd w)) w))"

definition mem_list :: "('w \<Rightarrow> 'o store) \<Rightarrow> ('o \<Rightarrow> bool) \<Rightarrow> ('w, 'o list) call" where
  "mem_list rd sel = State (\<lambda>w. (Inr (filter sel
      (map (\<lambda>k. the (fmlookup (rd w) k)) (sorted_list_of_fset (fmdom (rd w))))), w))"

record mem_world =
  mem_clusters :: "Cluster store"
  mem_secrets :: "Secret store"
  mem_gh_configmaps :: "ConfigMap store"
  mem_careinstructions :: "CareInstruction store"
  mem_shoots :: "Shoot store"
  mem_gd_configmaps :: "ConfigMap store"
  mem_crbs :: "ClusterRoleBinding store"

definition mem_gh :: "mem_world gh_client" where
  "mem_gh = \<lparr>
     gh_get_cluster = mem_get mem_clusters,
     gh_list_clusters = (\<lambda>ns (l, v). mem_list mem_clusters
        (\<lambda>c. Namespace c = ns \<and> map_lookup (Labels c) l = Some v)),
     gh_patch_cluster = (\<lambda>c base. mem_replace mem_clusters (\<lambda>s. mem_clusters_update (\<lambda>_. s)) obj_key_of c),
     gh_delete_cluster = mem_delete mem_clusters (\<lambda>s. mem_clusters_update (\<lambda>_. s)) obj_key_of,
     gh_get_secret = mem_get mem_secrets,
     gh_create_or_update_secret =
       mem_create_or_update mem_secrets (\<lambda>s. mem_secrets_update (\<lambda>_. s)) obj_key_of,
     gh_get_configmap = mem_get mem_gh_configmaps,
     gh_patch_configmap =
       (\<lambda>c base. mem_replace mem_gh_configmaps (\<lambda>s. mem_gh_configmaps_update (\<lambda>_. s)) obj_key_of c),
     gh_list_careinstructions = (\<lambda>ns. mem_list mem_careinstructions
        (\<lambda>c. case ns of None \<Rightarrow> True | Some n \<Rightarrow> Namespace c = n)),
     gh_patch_careinstruction =
       (\<lambda>c base. mem_replace mem_careinstructions (\<lambda>s. mem_careinstructions_update (\<lambda>_. s)) obj_key_of c)\<rparr>"

definition mem_garden :: "mem_world garden_client" where
  "mem_garden = \<lparr>
     gd_get_shoot = mem_get mem_shoots,
     gd_list_shoots = (\<lambda>ns sel field. mem_list mem_shoots
        (\<lambda>s. Namespace s = ns \<and> (case sel of None \<Rightarrow> True | Some p \<Rightarrow> p (Labels s))
             \<and> (case field of None \<Rightarrow> True | Some (l, v) \<Rightarrow> v \<noteq> [] \<and> map_get (Labels s) l = v))),
     gd_patch_shoot = (\<lambda>s base. mem_replace mem_shoots (\<lambda>st. mem_shoots_update (\<lambda>_. st)) obj_key_of s),
     gd_update_shoot = mem_replace mem_shoots (\<lambda>st. mem_shoots_update (\<lambda>_. st)) obj_key_of,
     gd_get_configmap = mem_get mem_gd_configmaps,
     gd_create_or_update_configmap =
       mem_create_or_update mem_gd_configmaps (\<lambda>s. mem_gd_configmaps_update (\<lambda>_. s)) obj_key_of,
     gd_create_adminkubeconfig = (\<lambda>s secs. ret (Inr ''kubeconfig''))\<rparr>"

definition mem_shoot :: "mem_world shoot_client" where
  "mem_shoot = \<lparr>
     sh_get_crb = (\<lambda>n. mem_get mem_crbs ([], n)),
     sh_delete_crb = mem_delete mem_crbs (\<lambda>s. mem_crbs_update (\<lambda>_. s)) obj_key_of,
     sh_create_or_update_crb =
       mem_create_or_update mem_crbs (\<lambda>s. mem_crbs_update (\<lambda>_. s)) obj_key_of\<rparr>"

definition empty_world :: mem_world where
  "empty_world = \<lparr>mem_clusters = fmempty, mem_secrets = fmempty, mem_gh_configmaps = fmempty,
     mem_careinstructions = fmempty, mem_shoots = fmempty, mem_gd_configmaps = fmempty, mem_crbs = fmempty\<rparr>"

section \<open>Lemmas\<close>

lemma run_mem_calls [simp]:
  "run_state (mem_get rd k) w = (case fmlookup (rd w) k of None \<Rightarrow> Inl not_found | Some x \<Rightarrow> Inr x, w)"
  "run_state (mem_replace rd wr key x) w = (case fmlookup (rd w) (key x) of
       None \<Rightarrow> (Inl not_found, w) | Some _ \<Rightarrow> (Inr x, wr (fmupd (key x) x (rd w)) w))"
  "run_state (mem_delete rd wr key x) w = (case fmlookup (rd w) (key x) of
       None \<Rightarrow> (Inl not_found, w) | Some _ \<Rightarrow> (Inr (), wr (fmdrop (key x) (rd w)) w))"
  "run_state (mem_create_or_update rd wr key x f) w = (case fmlookup (rd w) (key x) of
       None \<Rightarrow> (Inr (OperationResultCreated, f x), wr (fmupd (key x) (f x) (rd w)) w)
     | Some z \<Rightarrow> if f z = z then (Inr (OperationResultNone, z), w)
                  else (Inr (OperationResultUpdated, f z), wr (fmupd (key x) (f z) (rd w)) w))"
  by (simp_all add: mem_get_def mem_replace_def mem_delete_def mem_create_or_update_def)

lemma not_found_class [simp]: "IsNotFound not_found" "\<not> IsConflict not_found"
  by (simp_all add: not_found_def IsNotFound_def IsConflict_def)

lemma mem_create_or_update_lawful:
  assumes "\<And>s w. rd (wr s w) = s"
  shows "create_or_update (\<lambda>w. fmlookup (rd w)) key (mem_create_or_update rd wr key)"
  by unfold_locales (auto simp: assms split: option.splits if_splits)

interpretation mem_secret_cou: create_or_update "\<lambda>w. fmlookup (mem_secrets w)" obj_key_of
  "mem_create_or_update mem_secrets (\<lambda>s. mem_secrets_update (\<lambda>_. s)) obj_key_of"
  by (rule mem_create_or_update_lawful) simp

interpretation mem_configmap_cou: create_or_update "\<lambda>w. fmlookup (mem_gd_configmaps w)" obj_key_of
  "mem_create_or_update mem_gd_configmaps (\<lambda>s. mem_gd_configmaps_update (\<lambda>_. s)) obj_key_of"
  by (rule mem_create_or_update_lawful) simp

interpretation mem_crb_cou: create_or_update "\<lambda>w. fmlookup (mem_crbs w)" obj_key_of
  "mem_create_or_update mem_crbs (\<lambda>s. mem_crbs_update (\<lambda>_. s)) obj_key_of"
  by (rule mem_create_or_update_lawful) simp

end
