(* ===== verification/Encoding.thy ===== *)
theory Encoding
  imports Prelude "HOL-Library.Word"
begin

section \<open>The encodings of the Go standard library that the program uses\<close>

text \<open>
  \<open>base64.StdEncoding.Encode\<close> with \<open>EncodedLen\<close> (the CA certificate in the Greenhouse Secret),
  \<open>crypto/sha256\<close> and \<open>hex.EncodeToString\<close> (the hash of the auth ConfigMap).  They are
  executable: the base64 round trip and lengths are proved, and the SHA-256 digest is the FIPS 180-4
  function on 32-bit words.
\<close>

unbundle bit_operations_syntax

abbreviation byte :: "char \<Rightarrow> nat" where
  "byte c \<equiv> of_char c"

subsection \<open>Base64, standard alphabet with padding\<close>

definition base64_alphabet :: string where
  "base64_alphabet = ''ABCDEFGHIJKLMNOPQRSTUVWXYZabcdefghijklmnopqrstuvwxyz0123456789+/''"

definition base64_digit :: "nat \<Rightarrow> char" where
  "base64_digit n = base64_alphabet ! (n mod 64)"

definition EncodedLen :: "nat \<Rightarrow> nat" where
  "EncodedLen n = (n + 2) div 3 * 4"

fun base64_encode :: "bytes \<Rightarrow> bytes" where
  "base64_encode (a # b # c # rest) =
     (let val = byte a * 65536 + byte b * 256 + byte c in
        base64_digit (val div 262144) # base64_digit (val div 4096)
        # base64_digit (val div 64) # base64_digit val # base64_encode rest)"
| "base64_encode [a, b] =
     (let val = byte a * 65536 + byte b * 256 in
        [base64_digit (val div 262144), base64_digit (val div 4096), base64_digit (val div 64), CHR ''=''])"
| "base64_encode [a] =
     (let val = byte a * 65536 in
        [base64_digit (val div 262144), base64_digit (val div 4096), CHR ''='', CHR ''=''])"
| "base64_encode [] = []"

text \<open>The decoder a reader of the Secret applies: the specification the encoder is proved
  against.\<close>

fun base64_index_from :: "string \<Rightarrow> char \<Rightarrow> nat option" where
  "base64_index_from [] c = None"
| "base64_index_from (x # xs) c = (if x = c then Some 0 else map_option Suc (base64_index_from xs c))"

definition base64_index :: "char \<Rightarrow> nat option" where
  "base64_index c = base64_index_from base64_alphabet c"

fun base64_decode :: "bytes \<Rightarrow> bytes option" where
  "base64_decode [] = Some []"
| "base64_decode (p # q # r # s # rest) =
     (case (base64_index p, base64_index q) of
        (Some i, Some j) \<Rightarrow>
          (if r = CHR ''='' then (if s = CHR ''='' \<and> rest = [] then Some [char_of (i * 4 + j div 16)] else None)
           else case base64_index r of None \<Rightarrow> None
             | Some k \<Rightarrow>
                 (if s = CHR ''='' then
                    (if rest = [] then Some [char_of (i * 4 + j div 16), char_of (j mod 16 * 16 + k div 4)]
                     else None)
                  else case base64_index s of None \<Rightarrow> None
                    | Some l \<Rightarrow>
                        map_option (\<lambda>bs. char_of (i * 4 + j div 16) # char_of (j mod 16 * 16 + k div 4)
                                          # char_of (k mod 4 * 64 + l) # bs)
                          (base64_decode rest)))
      | _ \<Rightarrow> None)"
| "base64_decode _ = None"

subsection \<open>Hexadecimal text\<close>

definition hex_digit :: "nat \<Rightarrow> char" where
  "hex_digit n = ''0123456789abcdef'' ! (n mod 16)"

definition hex_EncodeToString :: "nat list \<Rightarrow> string" where
  "hex_EncodeToString bs = concat (map (\<lambda>b. [hex_digit (b div 16), hex_digit b]) bs)"

subsection \<open>SHA-256\<close>

type_synonym u32 = "32 word"

definition rotr :: "nat \<Rightarrow> u32 \<Rightarrow> u32" where
  "rotr n x = drop_bit n x OR push_bit (32 - n) x"

definition sha_ch :: "u32 \<Rightarrow> u32 \<Rightarrow> u32 \<Rightarrow> u32" where
  "sha_ch x y z = (x AND y) XOR (NOT x AND z)"

definition sha_maj :: "u32 \<Rightarrow> u32 \<Rightarrow> u32 \<Rightarrow> u32" where
  "sha_maj x y z = (x AND y) XOR (x AND z) XOR (y AND z)"

definition sha_S0 :: "u32 \<Rightarrow> u32" where
  "sha_S0 x = rotr 2 x XOR rotr 13 x XOR rotr 22 x"

definition sha_S1 :: "u32 \<Rightarrow> u32" where
  "sha_S1 x = rotr 6 x XOR rotr 11 x XOR rotr 25 x"

definition sha_s0 :: "u32 \<Rightarrow> u32" where
  "sha_s0 x = rotr 7 x XOR rotr 18 x XOR drop_bit 3 x"

definition sha_s1 :: "u32 \<Rightarrow> u32" where
  "sha_s1 x = rotr 17 x XOR rotr 19 x XOR drop_bit 10 x"

text \<open>The constants of the standard are the first 32 bits of the fractional parts of the cube roots of
  the first 64 primes, and of the square roots of the first 8: \<open>integer_root\<close> finds the root bit by bit
  from above.\<close>

definition integer_root :: "nat \<Rightarrow> int \<Rightarrow> int" where
  "integer_root k n = fold (\<lambda>b x. if (x + 2 ^ b) ^ k \<le> n then x + 2 ^ b else x) (rev [0..<38]) 0"

definition root_fraction :: "nat \<Rightarrow> int \<Rightarrow> u32" where
  "root_fraction k p = word_of_int (integer_root k (p * 2 ^ (32 * k)))"

definition sha_primes :: "int list" where
  "sha_primes = [
     2, 3, 5, 7, 11, 13, 17, 19, 23, 29, 31, 37, 41, 43, 47, 53,
     59, 61, 67, 71, 73, 79, 83, 89, 97, 101, 103, 107, 109, 113, 127, 131,
     137, 139, 149, 151, 157, 163, 167, 173, 179, 181, 191, 193, 197, 199, 211, 223,
     227, 229, 233, 239, 241, 251, 257, 263, 269, 271, 277, 281, 283, 293, 307, 311]"

definition sha_K :: "u32 list" where
  "sha_K = map (root_fraction 3) sha_primes"

definition sha_H0 :: "u32 list" where
  "sha_H0 = map (root_fraction 2) (take 8 sha_primes)"

text \<open>One round on the eight working variables \<open>a\<close> to \<open>h\<close>, and the rounds of a block with the
  message schedule kept as its sixteen latest words, the oldest first.\<close>

definition sha_round :: "u32 \<Rightarrow> u32 \<Rightarrow> u32 list \<Rightarrow> u32 list" where
  "sha_round k w st =
     (let a = st ! 0; b = st ! 1; c = st ! 2; d = st ! 3; e = st ! 4; f = st ! 5; g = st ! 6; h = st ! 7;
          t1 = h + sha_S1 e + sha_ch e f g + k + w;
          t2 = sha_S0 a + sha_maj a b c
      in [t1 + t2, a, b, c, d + t1, e, f, g])"

definition sha_schedule :: "u32 list \<Rightarrow> u32 list" where
  "sha_schedule w = tl w @ [sha_s1 (w ! 14) + w ! 9 + sha_s0 (w ! 1) + w ! 0]"

fun sha_rounds :: "u32 list \<Rightarrow> u32 list \<Rightarrow> u32 list \<Rightarrow> u32 list" where
  "sha_rounds [] w st = st"
| "sha_rounds (k # ks) w st = sha_rounds ks (sha_schedule w) (sha_round k (w ! 0) st)"

definition sha_compress :: "u32 list \<Rightarrow> u32 list \<Rightarrow> u32 list" where
  "sha_compress hs block = map2 (+) hs (sha_rounds sha_K block hs)"

fun be_words :: "nat list \<Rightarrow> u32 list" where
  "be_words (a # b # c # d # rest) =
     of_nat (a * 16777216 + b * 65536 + c * 256 + d) # be_words rest"
| "be_words _ = []"

definition be64 :: "nat \<Rightarrow> nat list" where
  "be64 n = map (\<lambda>i. n div 256 ^ (7 - i) mod 256) [0..<8]"

definition sha_pad :: "nat list \<Rightarrow> nat list" where
  "sha_pad msg = (let n = length msg in
     msg @ 128 # replicate ((119 - n mod 64) mod 64) 0 @ be64 (8 * n))"

function sha_blocks :: "u32 list \<Rightarrow> u32 list \<Rightarrow> u32 list" where
  "sha_blocks hs ws = (if ws = [] then hs else sha_blocks (sha_compress hs (take 16 ws)) (drop 16 ws))"
  by pat_completeness auto
termination
  by (relation "measure (\<lambda>(hs, ws). length ws)") auto

declare sha_blocks.simps [simp del]

definition word_bytes :: "u32 \<Rightarrow> nat list" where
  "word_bytes w = map (\<lambda>i. unat w div 256 ^ (3 - i) mod 256) [0..<4]"

definition sha256 :: "bytes \<Rightarrow> nat list" where
  "sha256 msg = concat (map word_bytes (sha_blocks sha_H0 (be_words (sha_pad (map byte msg)))))"

section \<open>Lemmas\<close>

subsection \<open>Base64\<close>

lemma byte_less [simp]: "byte c < 256"
  by simp

lemma base64_alphabet_table:
  "list_all (\<lambda>n. base64_index (base64_alphabet ! n) = Some n \<and> base64_alphabet ! n \<noteq> CHR ''='') [0..<64]"
  by code_simp

lemma base64_alphabet_nth:
  assumes "n < 64"
  shows "base64_index (base64_alphabet ! n) = Some n" "base64_alphabet ! n \<noteq> CHR ''=''"
  using base64_alphabet_table assms by (auto simp: list_all_iff)

lemma base64_index_digit [simp]: "base64_index (base64_digit n) = Some (n mod 64)"
  by (simp add: base64_digit_def base64_alphabet_nth)

lemma base64_digit_not_pad [simp]: "base64_digit n \<noteq> CHR ''=''"
  by (simp add: base64_digit_def base64_alphabet_nth)

text \<open>The three bytes are recovered from the four six-bit groups of their 24-bit value.\<close>

lemma base64_split:
  fixes a1 a0 b1 b0 c1 c0 :: nat
  assumes "a1 < 64" "a0 < 4" "b1 < 16" "b0 < 16" "c1 < 4" "c0 < 64"
  defines "val \<equiv> 262144 * a1 + 65536 * a0 + 4096 * b1 + 256 * b0 + 64 * c1 + c0"
  shows "val div 262144 mod 64 = a1" "val div 4096 mod 64 = a0 * 16 + b1"
    "val div 64 mod 64 = b0 * 4 + c1" "val mod 64 = c0"
proof -
  define q where "q = a1 * 64 + (a0 * 16 + b1)"
  have val: "val = a1 * 262144 + (65536 * a0 + 4096 * b1 + 256 * b0 + 64 * c1 + c0)"
    "val = (a1 * 64 + (a0 * 16 + b1)) * 4096 + (256 * b0 + 64 * c1 + c0)"
    "val = (q * 64 + (b0 * 4 + c1)) * 64 + c0"
    by (simp_all add: val_def q_def algebra_simps)
  have "val div 262144 = a1" unfolding val(1) using assms by simp
  then show "val div 262144 mod 64 = a1" using assms by simp
  have "val div 4096 = a1 * 64 + (a0 * 16 + b1)" unfolding val(2) using assms by simp
  then show "val div 4096 mod 64 = a0 * 16 + b1" using assms by simp
  have "val div 64 = q * 64 + (b0 * 4 + c1)" unfolding val(3) using assms(6) by simp
  then show "val div 64 mod 64 = b0 * 4 + c1" using assms(4,5) by simp
  show "val mod 64 = c0" unfolding val(3) using assms(6) by (simp only: mod_mult_self3 mod_less)
qed

lemma base64_groups:
  fixes a b c :: nat
  assumes "a < 256" "b < 256" "c < 256"
  defines "val \<equiv> a * 65536 + b * 256 + c"
  shows "val div 262144 mod 64 = a div 4"
    and "val div 4096 mod 64 = a mod 4 * 16 + b div 16"
    and "val div 64 mod 64 = b mod 16 * 4 + c div 64"
    and "val mod 64 = c mod 64"
proof -
  define w where "w = 262144 * (a div 4) + 65536 * (a mod 4) + 4096 * (b div 16) + 256 * (b mod 16)
    + 64 * (c div 64) + c mod 64"
  have "a * 65536 = 262144 * (a div 4) + 65536 * (a mod 4)" "b * 256 = 4096 * (b div 16) + 256 * (b mod 16)"
    using mult_div_mod_eq [of 4 a] mult_div_mod_eq [of 16 b] by linarith+
  then have "val = w" unfolding val_def w_def by simp
  moreover note base64_split [of "a div 4" "a mod 4" "b div 16" "b mod 16" "c div 64" "c mod 64",
      folded w_def]
  ultimately show "val div 262144 mod 64 = a div 4" "val div 4096 mod 64 = a mod 4 * 16 + b div 16"
    "val div 64 mod 64 = b mod 16 * 4 + c div 64" "val mod 64 = c mod 64"
    using assms(1-3) by auto
qed

lemma base64_decode_encode: "base64_decode (base64_encode bs) = Some bs"
proof (induction bs rule: base64_encode.induct)
  case (1 a b c rest)
  have "byte b div 16 < 16" "byte c div 64 < 4" by (simp_all add: div_less_iff_less_mult)
  then show ?case
    by (simp add: Let_def base64_groups "1.IH")
next
  case (2 a b)
  have "byte b div 16 < 16" by (simp add: div_less_iff_less_mult)
  then show ?case
    using base64_groups [of "byte a" "byte b" 0] by (simp add: Let_def)
next
  case (3 a)
  show ?case
    using base64_groups [of "byte a" 0 0] by (simp add: Let_def)
qed simp

lemma length_base64_encode: "length (base64_encode bs) = EncodedLen (length bs)"
proof (induction bs rule: base64_encode.induct)
  case (1 a b c rest)
  have "(3 + (length rest + 2)) div 3 = (length rest + 2) div 3 + 1" by (rule div_add_self1) simp
  then have "EncodedLen (length (a # b # c # rest)) = EncodedLen (length rest) + 4"
    unfolding EncodedLen_def by simp
  with "1.IH" show ?case by (simp add: Let_def)
qed (simp_all add: EncodedLen_def Let_def)

lemma inj_base64_encode: "base64_encode xs = base64_encode ys \<Longrightarrow> xs = ys"
  by (metis base64_decode_encode option.inject)

subsection \<open>The hash text\<close>

lemma length_sha_rounds: "length st = 8 \<Longrightarrow> length (sha_rounds ks w st) = 8"
  by (induction ks w st rule: sha_rounds.induct) (simp_all add: sha_round_def Let_def)

lemma length_sha_compress: "length hs = 8 \<Longrightarrow> length (sha_compress hs b) = 8"
  by (simp add: sha_compress_def length_sha_rounds)

lemma length_sha_blocks: "length hs = 8 \<Longrightarrow> length (sha_blocks hs ws) = 8"
  by (induction hs ws rule: sha_blocks.induct) (subst sha_blocks.simps, simp add: length_sha_compress)

lemma length_concat_same: "(\<And>x. x \<in> set xs \<Longrightarrow> length x = n) \<Longrightarrow> length (concat xs) = n * length xs"
  by (induction xs) auto

lemma length_sha256 [simp]: "length (sha256 msg) = 32"
proof -
  have "length (sha_blocks sha_H0 (be_words (sha_pad (map byte msg)))) = 8"
    by (rule length_sha_blocks) (simp add: sha_H0_def sha_primes_def)
  then show ?thesis
    unfolding sha256_def by (subst length_concat_same [of _ 4]) (auto simp: word_bytes_def)
qed

lemma length_hex [simp]: "length (hex_EncodeToString bs) = 2 * length bs"
  unfolding hex_EncodeToString_def by (subst length_concat_same [of _ 2]) auto

lemma hex_digit_mem: "hex_digit n \<in> set ''0123456789abcdef''"
  unfolding hex_digit_def by (rule nth_mem) simp

lemma set_hex_subset: "set (hex_EncodeToString bs) \<subseteq> set ''0123456789abcdef''"
  unfolding hex_EncodeToString_def using hex_digit_mem by (simp only: set_concat set_map) force

text \<open>Hexadecimal text determines the bytes.\<close>

lemma hex_digit_inject: "a < 16 \<Longrightarrow> b < 16 \<Longrightarrow> hex_digit a = hex_digit b \<longleftrightarrow> a = b"
proof -
  have "distinct ''0123456789abcdef''" by simp
  then show "a < 16 \<Longrightarrow> b < 16 \<Longrightarrow> hex_digit a = hex_digit b \<longleftrightarrow> a = b"
    unfolding hex_digit_def by (subst nth_eq_iff_index_eq) simp_all
qed

lemma hex_byte_inject:
  assumes "a < 256" "b < 256" "hex_digit (a div 16) = hex_digit (b div 16)" "hex_digit a = hex_digit b"
  shows "a = b"
proof -
  have mod: "hex_digit n = hex_digit (n mod 16)" for n by (simp add: hex_digit_def)
  have "a div 16 = b div 16" using assms(1-3) by (subst (asm) hex_digit_inject) simp_all
  moreover have "a mod 16 = b mod 16"
    using assms(4) unfolding mod [of a] mod [of b] by (subst (asm) hex_digit_inject) simp_all
  ultimately show ?thesis by (metis div_mult_mod_eq)
qed

lemma hex_inject:
  assumes "\<forall>b \<in> set bs. b < 256" "\<forall>b \<in> set cs. b < 256" "hex_EncodeToString bs = hex_EncodeToString cs"
  shows "bs = cs"
  using assms
proof (induction bs arbitrary: cs)
  case Nil
  then show ?case by (cases cs) (simp_all add: hex_EncodeToString_def)
next
  case (Cons b bs)
  then show ?case by (cases cs) (auto simp: hex_EncodeToString_def intro: hex_byte_inject)
qed

lemma sha256_bytes: "\<forall>b \<in> set (sha256 msg). b < 256"
  by (auto simp: sha256_def word_bytes_def)

end
