(* ===== verification/Shoot_Secret.thy ===== *)
theory Shoot_Secret
  imports Clients Encoding
begin

section \<open>The Greenhouse Secret of a Shoot: \<open>controller/shoot/shoot_controller.go\<close>, lines 201 to 326\<close>

text \<open>
  The values that \<open>ShootController.Reconcile\<close> computes for the Secret of a Shoot, and the mutate
  function it passes to \<open>CreateOrUpdate\<close>.  Every definition is a function of the CareInstruction, the
  Shoot and the CA certificate, so the laws of the Secret are pure: what the mutate function writes, what
  it removes, what it leaves alone, and that applying it twice is applying it once.
\<close>

definition managedAnnotationKeysAnnotation :: string where
  "managedAnnotationKeysAnnotation = ''shoot-grafter.cloudoperators.dev/managed-annotation-keys''"

definition propagateLabelsAnnotation :: string where
  "propagateLabelsAnnotation = ''greenhouse.sap/propagate-labels''"

text \<open>The loop keeps the URL of the last advertised address called \<open>external\<close>.\<close>

definition apiServerURL :: "Shoot \<Rightarrow> string" where
  "apiServerURL shoot =
     (case AdvertisedAddresses (shoot_Status shoot) of
        None \<Rightarrow> []
      | Some addrs \<Rightarrow> fold (\<lambda>addr url. if addr_Name addr = ''external'' then addr_URL addr else url) addrs [])"

definition labelKeysToPropagate :: "CareInstruction \<Rightarrow> string list" where
  "labelKeysToPropagate ci =
     slice_elems (PropagateLabels (ci_Spec ci))
     @ (if AdditionalLabels (ci_Spec ci) \<noteq> nil_map then sorted_keys (AdditionalLabels (ci_Spec ci)) else [])
     @ [CareInstructionLabel]"

definition secretLabels :: "CareInstruction \<Rightarrow> gomap" where
  "secretLabels ci =
     (let labels =
        (if AdditionalLabels (ci_Spec ci) \<noteq> nil_map
         then fold (\<lambda>k m. map_put m k (map_get (AdditionalLabels (ci_Spec ci)) k))
                (sorted_keys (AdditionalLabels (ci_Spec ci))) (Some fmempty)
         else Some fmempty)
      in map_put labels CareInstructionLabel (Name ci))"

definition isWorkerless :: "Shoot \<Rightarrow> bool" where
  "isWorkerless shoot \<longleftrightarrow> length (slice_elems (Workers (shoot_Spec shoot))) = 0"

definition secretAnnotations :: "ext \<Rightarrow> CareInstruction \<Rightarrow> Shoot \<Rightarrow> gomap" where
  "secretAnnotations E ci shoot =
     (let m = maps_Copy (Some fmempty) (AdditionalAnnotations (ci_Spec ci));
          m = map_put m propagateLabelsAnnotation (strings_Join (labelKeysToPropagate ci) '','');
          m = map_put m (SecretAPIServerURLAnnotation E) (apiServerURL shoot)
      in if isWorkerless shoot then map_put m (ClusterWorkerlessAnnotation E) ''true'' else m)"

definition desired_secret :: "ext \<Rightarrow> CareInstruction \<Rightarrow> Shoot \<Rightarrow> string \<Rightarrow> Secret" where
  "desired_secret E ci shoot caData =
     \<lparr>Name = Name shoot, Namespace = Namespace ci,
      Labels = secretLabels ci, Annotations = secretAnnotations E ci shoot, Generation = 0, Finalizers = None, OwnerReferences = None, DeletionTimestamp = None,
      secret_Data = Some (fmupd ''ca.crt'' (base64_encode caData) fmempty),
      secret_Type = SecretTypeOIDCConfig E\<rparr>"

text \<open>Lines 297 to 303: keys tracked earlier that are no longer managed are deleted.\<close>

definition remove_stale :: "gomap \<Rightarrow> gomap \<Rightarrow> gomap" where
  "remove_stale managed annots =
     (case map_lookup annots managedAnnotationKeysAnnotation of
        None \<Rightarrow> annots
      | Some tracked \<Rightarrow>
          if tracked \<noteq> []
          then fold (\<lambda>key m. if map_lookup managed key = None then map_delete m key else m)
                 (strings_Split tracked (CHR '','')) annots
          else annots)"

definition mutate_annotations :: "ext \<Rightarrow> CareInstruction \<Rightarrow> Shoot \<Rightarrow> gomap \<Rightarrow> gomap" where
  "mutate_annotations E ci shoot annots =
     (let m = Some (map_entries annots);
          m = remove_stale (secretAnnotations E ci shoot) m;
          m = maps_Copy m (secretAnnotations E ci shoot);
          m = (if isWorkerless shoot then m else map_delete m (ClusterWorkerlessAnnotation E))
      in map_put m managedAnnotationKeysAnnotation
           (strings_Join (sorted_keys (AdditionalAnnotations (ci_Spec ci))) '',''))"

definition mutate_secret :: "ext \<Rightarrow> CareInstruction \<Rightarrow> Shoot \<Rightarrow> string \<Rightarrow> Secret \<Rightarrow> Secret" where
  "mutate_secret E ci shoot caData secret =
     (let s = secret\<lparr>secret_Data := map_put (secret_Data secret) ''ca.crt'' (base64_encode caData)\<rparr>;
          s = s\<lparr>Annotations := mutate_annotations E ci shoot (Annotations s)\<rparr>;
          s = s\<lparr>Labels := maps_Copy (Labels s) (secretLabels ci)\<rparr>
      in CopyLabels E shoot s (slice_elems (PropagateLabels (ci_Spec ci))))"

subsection \<open>The contract of the label propagator\<close>

text \<open>
  The propagator copies to the Secret those labels of the Shoot that the given keys select, a key
  ending in a star selecting by prefix, and changes nothing else.  \<open>selects\<close> says which label keys a
  list of patterns selects.
\<close>

locale label_propagator =
  fixes copy_labels :: "Shoot \<Rightarrow> Secret \<Rightarrow> string list \<Rightarrow> Secret"
    and selects :: "string list \<Rightarrow> string \<Rightarrow> bool"
  assumes copy_frame: "copy_labels sh s ks = s\<lparr>Labels := Labels (copy_labels sh s ks)\<rparr>"
    and copy_lookup: "map_lookup (Labels (copy_labels sh s ks)) k =
        (case map_lookup (Labels sh) k of
           Some v \<Rightarrow> if selects ks k then Some v else map_lookup (Labels s) k
         | None \<Rightarrow> map_lookup (Labels s) k)"
    and copy_allocated: "Labels s \<noteq> None \<Longrightarrow> Labels (copy_labels sh s ks) \<noteq> None"
    and selects_listed: "k \<in> set ks \<Longrightarrow> selects ks k"
begin

lemma copy_labels_eqI:
  assumes "Labels s \<noteq> None" "Labels s' \<noteq> None" "s\<lparr>Labels := Some fmempty\<rparr> = s'\<lparr>Labels := Some fmempty\<rparr>"
    and "\<And>k. \<not> (selects ks k \<and> map_lookup (Labels sh) k \<noteq> None) \<Longrightarrow>
           map_lookup (Labels s) k = map_lookup (Labels s') k"
  shows "copy_labels sh s ks = copy_labels sh s' ks"
proof -
  have "Labels (copy_labels sh s ks) = Labels (copy_labels sh s' ks)"
    using assms(4) by (intro gmap_eqI copy_allocated assms(1,2)) (auto simp: copy_lookup split: option.splits)
  moreover have "s\<lparr>Labels := m\<rparr> = s'\<lparr>Labels := m\<rparr>" for m
    using assms(3) by (cases s, cases s') simp
  ultimately show ?thesis by (metis copy_frame)
qed

end

definition glob_selects :: "string list \<Rightarrow> string \<Rightarrow> bool" where
  "glob_selects ks k \<longleftrightarrow> k \<in> set ks \<or> (\<exists>p \<in> set ks. p \<noteq> [] \<and> last p = CHR ''*'' \<and> prefix (butlast p) k)"

definition glob_CopyLabels :: "Shoot \<Rightarrow> Secret \<Rightarrow> string list \<Rightarrow> Secret" where
  "glob_CopyLabels sh s ks =
     s\<lparr>Labels := maps_Copy (Labels s) (Some (fmfilter (glob_selects ks) (map_entries (Labels sh))))\<rparr>"

text \<open>The constants of the Greenhouse API package are keys of their own.\<close>

definition lawful_keys :: "ext \<Rightarrow> bool" where
  "lawful_keys E \<longleftrightarrow> distinct [propagateLabelsAnnotation, managedAnnotationKeysAnnotation,
     SecretAPIServerURLAnnotation E, ClusterWorkerlessAnnotation E]"

section \<open>Lemmas\<close>

interpretation glob: label_propagator glob_CopyLabels glob_selects
proof unfold_locales
  fix sh :: Shoot and s :: Secret and ks k
  show "glob_CopyLabels sh s ks = s\<lparr>Labels := Labels (glob_CopyLabels sh s ks)\<rparr>"
    by (simp add: glob_CopyLabels_def)
  show "map_lookup (Labels (glob_CopyLabels sh s ks)) k =
        (case map_lookup (Labels sh) k of
           Some v \<Rightarrow> if glob_selects ks k then Some v else map_lookup (Labels s) k
         | None \<Rightarrow> map_lookup (Labels s) k)"
    by (auto simp: glob_CopyLabels_def map_lookup_def [of "Labels sh"] split: option.splits)
  show "Labels s \<noteq> None \<Longrightarrow> Labels (glob_CopyLabels sh s ks) \<noteq> None"
    by (simp add: glob_CopyLabels_def)
  show "k \<in> set ks \<Longrightarrow> glob_selects ks k" by (simp add: glob_selects_def)
qed

subsection \<open>The API server address\<close>

lemma apiServerURL_last:
  "apiServerURL shoot =
     (case filter (\<lambda>a. addr_Name a = ''external'') (slice_elems (AdvertisedAddresses (shoot_Status shoot))) of
        [] \<Rightarrow> [] | as \<Rightarrow> addr_URL (last as))"
proof -
  have *: "fold (\<lambda>addr url. if addr_Name addr = ''external'' then addr_URL addr else url) as u =
        (case filter (\<lambda>a. addr_Name a = ''external'') as of [] \<Rightarrow> u | bs \<Rightarrow> addr_URL (last bs))" for as u
    by (induction as arbitrary: u) (auto split: list.splits)
  show ?thesis
    by (cases "AdvertisedAddresses (shoot_Status shoot)") (simp_all add: apiServerURL_def slice_elems_def *)
qed

subsection \<open>Labels and annotations the controller computes\<close>

lemma fold_map_put_lookup:
  "map_lookup (fold (\<lambda>k m. map_put m k (f k)) ks m0) k = (if k \<in> set ks then Some (f k) else map_lookup m0 k)"
  by (induction ks arbitrary: m0) auto

lemma secretLabels_lookup:
  "map_lookup (secretLabels ci) k =
     (if k = CareInstructionLabel then Some (Name ci) else map_lookup (AdditionalLabels (ci_Spec ci)) k)"
  by (auto simp: secretLabels_def Let_def fold_map_put_lookup map_get_def split: option.splits)

lemma secretLabels_allocated [simp]: "secretLabels ci \<noteq> None"
  by (simp add: secretLabels_def Let_def)

lemma secretAnnotations_lookup:
  "map_lookup (secretAnnotations E ci shoot) k =
     (if isWorkerless shoot \<and> k = ClusterWorkerlessAnnotation E then Some ''true''
      else if k = SecretAPIServerURLAnnotation E then Some (apiServerURL shoot)
      else if k = propagateLabelsAnnotation then Some (strings_Join (labelKeysToPropagate ci) '','')
      else map_lookup (AdditionalAnnotations (ci_Spec ci)) k)"
  by (auto simp: secretAnnotations_def Let_def split: option.splits)

subsection \<open>Stale annotations\<close>

definition tracked_keys :: "gomap \<Rightarrow> string list" where
  "tracked_keys annots =
     (case map_lookup annots managedAnnotationKeysAnnotation of
        None \<Rightarrow> [] | Some t \<Rightarrow> if t = [] then [] else strings_Split t (CHR '',''))"

lemma fold_delete_lookup:
  "map_lookup (fold (\<lambda>key m. if map_lookup managed key = None then map_delete m key else m) ks m0) k =
     (if k \<in> set ks \<and> map_lookup managed k = None then None else map_lookup m0 k)"
  by (induction ks arbitrary: m0) auto

lemma fold_delete_allocated:
  "m0 \<noteq> None \<Longrightarrow> fold (\<lambda>key m. if P key then map_delete m key else m) ks m0 \<noteq> None"
  by (induction ks arbitrary: m0) (simp_all del: not_None_eq)

lemma remove_stale_lookup:
  "map_lookup (remove_stale managed m) k =
     (if k \<in> set (tracked_keys m) \<and> map_lookup managed k = None then None else map_lookup m k)"
  by (auto simp: remove_stale_def tracked_keys_def fold_delete_lookup split: option.splits)

lemma remove_stale_allocated: "m \<noteq> None \<Longrightarrow> remove_stale managed m \<noteq> None"
  by (simp add: remove_stale_def fold_delete_allocated del: not_None_eq split: option.split)

lemma map_lookup_alloc [simp]: "map_lookup (Some (map_entries m)) k = map_lookup m k"
  by (simp add: map_lookup_def)

lemma tracked_keys_alloc [simp]: "tracked_keys (Some (map_entries m)) = tracked_keys m"
  by (simp add: tracked_keys_def map_lookup_def)

lemma mutate_annotations_lookup:
  "map_lookup (mutate_annotations E ci shoot m) k =
     (if k = managedAnnotationKeysAnnotation
        then Some (strings_Join (sorted_keys (AdditionalAnnotations (ci_Spec ci))) '','')
      else if \<not> isWorkerless shoot \<and> k = ClusterWorkerlessAnnotation E then None
      else case map_lookup (secretAnnotations E ci shoot) k of
             Some v \<Rightarrow> Some v
           | None \<Rightarrow> if k \<in> set (tracked_keys m) then None else map_lookup m k)"
  by (auto simp: mutate_annotations_def Let_def remove_stale_lookup map_lookup_def [of m] split: option.splits)

lemma mutate_annotations_allocated: "mutate_annotations E ci shoot m \<noteq> None"
  by (simp add: mutate_annotations_def Let_def)

lemma tracked_keys_mutated:
  assumes "\<And>k. map_lookup (AdditionalAnnotations (ci_Spec ci)) k \<noteq> None \<Longrightarrow> CHR '','' \<notin> set k \<and> k \<noteq> []"
  shows "tracked_keys (mutate_annotations E ci shoot m) = sorted_keys (AdditionalAnnotations (ci_Spec ci))"
proof -
  let ?ks = "sorted_keys (AdditionalAnnotations (ci_Spec ci))"
  have "?ks \<noteq> [] \<Longrightarrow> strings_Split (strings_Join ?ks '','') (CHR '','') = ?ks"
    using assms by (intro strings_Split_Join) auto
  moreover have "strings_Join ?ks '','' = [] \<longleftrightarrow> ?ks = []"
  proof -
    have "[] \<notin> set ?ks" using assms by fastforce
    then show ?thesis unfolding strings_Join_eq_Nil_iff by (auto simp del: sorted_keys_mem_iff)
  qed
  ultimately show ?thesis
    by (auto simp: tracked_keys_def mutate_annotations_lookup)
qed

subsection \<open>The mutate function\<close>

definition lawful_propagator :: "ext \<Rightarrow> (string list \<Rightarrow> string \<Rightarrow> bool) \<Rightarrow> bool" where
  "lawful_propagator E selects \<longleftrightarrow> label_propagator (CopyLabels E) selects"

text \<open>Annotation keys are qualified names: not empty and without a comma.\<close>

definition valid_annotation_keys :: "CareInstruction \<Rightarrow> bool" where
  "valid_annotation_keys ci \<longleftrightarrow>
     (\<forall>k \<in> set (sorted_keys (AdditionalAnnotations (ci_Spec ci))). CHR '','' \<notin> set k \<and> k \<noteq> [])"

definition prepared_secret :: "ext \<Rightarrow> CareInstruction \<Rightarrow> Shoot \<Rightarrow> string \<Rightarrow> Secret \<Rightarrow> Secret" where
  "prepared_secret E ci shoot caData secret =
     secret\<lparr>secret_Data := map_put (secret_Data secret) ''ca.crt'' (base64_encode caData),
            Annotations := mutate_annotations E ci shoot (Annotations secret),
            Labels := maps_Copy (Labels secret) (secretLabels ci)\<rparr>"

lemma mutate_secret_prepared:
  "mutate_secret E ci shoot ca s =
     CopyLabels E shoot (prepared_secret E ci shoot ca s) (slice_elems (PropagateLabels (ci_Spec ci)))"
  by (simp add: mutate_secret_def prepared_secret_def Let_def)

lemma mutate_secret_fields:
  assumes "lawful_propagator E selects"
  shows "mutate_secret E ci shoot ca s =
     (prepared_secret E ci shoot ca s)\<lparr>Labels := Labels (mutate_secret E ci shoot ca s)\<rparr>"
  using label_propagator.copy_frame [OF assms [unfolded lawful_propagator_def]]
  by (metis mutate_secret_prepared)

lemma mutate_secret_selectors:
  assumes "lawful_propagator E selects"
  shows "Name (mutate_secret E ci shoot ca s) = Name s"
    and "Namespace (mutate_secret E ci shoot ca s) = Namespace s"
    and "Generation (mutate_secret E ci shoot ca s) = Generation s"
    and "Finalizers (mutate_secret E ci shoot ca s) = Finalizers s"
    and "OwnerReferences (mutate_secret E ci shoot ca s) = OwnerReferences s"
    and "DeletionTimestamp (mutate_secret E ci shoot ca s) = DeletionTimestamp s"
    and "secret_Type (mutate_secret E ci shoot ca s) = secret_Type s"
    and "Annotations (mutate_secret E ci shoot ca s) = mutate_annotations E ci shoot (Annotations s)"
    and "secret_Data (mutate_secret E ci shoot ca s) =
           map_put (secret_Data s) ''ca.crt'' (base64_encode ca)"
  by (subst mutate_secret_fields [OF assms], simp add: prepared_secret_def)+

lemma mutate_secret_label_lookup:
  assumes "lawful_propagator E selects"
  shows "map_lookup (Labels (mutate_secret E ci shoot ca s)) k =
     (case map_lookup (Labels shoot) k of
        Some v \<Rightarrow> if selects (slice_elems (PropagateLabels (ci_Spec ci))) k then Some v
                   else map_lookup (maps_Copy (Labels s) (secretLabels ci)) k
      | None \<Rightarrow> map_lookup (maps_Copy (Labels s) (secretLabels ci)) k)"
  unfolding mutate_secret_prepared
  using label_propagator.copy_lookup [OF assms [unfolded lawful_propagator_def]]
  by (simp add: prepared_secret_def split: option.split)

lemma mutate_secret_labels_allocated:
  assumes "lawful_propagator E selects"
  shows "Labels (mutate_secret E ci shoot ca s) \<noteq> None"
  unfolding mutate_secret_prepared
  by (rule label_propagator.copy_allocated [OF assms [unfolded lawful_propagator_def]])
     (simp add: prepared_secret_def)

lemma tracked_after_mutate:
  assumes "valid_annotation_keys ci"
  shows "tracked_keys (mutate_annotations E ci shoot m) = sorted_keys (AdditionalAnnotations (ci_Spec ci))"
  using assms by (intro tracked_keys_mutated) (simp add: valid_annotation_keys_def)

lemma mutate_annotations_idem:
  assumes "valid_annotation_keys ci"
  shows "mutate_annotations E ci shoot (mutate_annotations E ci shoot m) = mutate_annotations E ci shoot m"
proof (rule gmap_eqI)
  fix k
  have "k \<in> set (sorted_keys (AdditionalAnnotations (ci_Spec ci))) \<Longrightarrow>
        map_lookup (secretAnnotations E ci shoot) k \<noteq> None"
    by (auto simp: secretAnnotations_lookup)
  then show "map_lookup (mutate_annotations E ci shoot (mutate_annotations E ci shoot m)) k =
             map_lookup (mutate_annotations E ci shoot m) k"
    unfolding mutate_annotations_lookup [of E ci shoot "mutate_annotations E ci shoot m"]
      tracked_after_mutate [OF assms]
    by (auto simp: mutate_annotations_lookup split: option.splits)
qed (rule mutate_annotations_allocated)+

lemma map_put_put [simp]: "map_put (map_put m k v) k v' = map_put m k v'"
  by (simp add: map_put_def)

section \<open>Properties\<close>

text \<open>C13: applying the Secret's mutate function to a Secret it has already produced changes nothing, so
  a reconcile that follows an unchanged one makes \<open>CreateOrUpdate\<close> report that nothing changed and
  writes nothing.\<close>

theorem mutate_secret_idempotent:
  assumes "lawful_propagator E selects" "valid_annotation_keys ci"
  shows "mutate_secret E ci shoot ca (mutate_secret E ci shoot ca s) = mutate_secret E ci shoot ca s"
proof -
  let ?s = "mutate_secret E ci shoot ca s"
  let ?ks = "slice_elems (PropagateLabels (ci_Spec ci))"
  note sel = mutate_secret_selectors [OF assms(1), of ci shoot ca s]
  note lp = assms(1) [unfolded lawful_propagator_def]
  have rest: "(prepared_secret E ci shoot ca ?s)\<lparr>Labels := Some fmempty\<rparr> =
        (prepared_secret E ci shoot ca s)\<lparr>Labels := Some fmempty\<rparr>"
    by (simp add: prepared_secret_def sel mutate_annotations_idem [OF assms(2)])
  have "CopyLabels E shoot (prepared_secret E ci shoot ca ?s) ?ks =
        CopyLabels E shoot (prepared_secret E ci shoot ca s) ?ks"
    by (rule label_propagator.copy_labels_eqI [OF lp _ _ rest])
       (auto simp: prepared_secret_def mutate_secret_label_lookup [OF assms(1)] split: option.splits)
  then show ?thesis by (simp only: mutate_secret_prepared)
qed

text \<open>C28: the CA certificate reaches the Secret intact and nothing else of the Secret's data is lost:
  decoding the stored \<open>ca.crt\<close> gives the certificate back, and the keys written by other controllers
  (such as \<open>greenhousekubeconfig\<close>) are untouched.\<close>

theorem secret_data_roundtrip:
  assumes "lawful_propagator E selects"
  shows "Option.bind (map_lookup (secret_Data (mutate_secret E ci shoot ca s)) ''ca.crt'') base64_decode = Some ca
       \<and> (\<forall>k. map_lookup (secret_Data (mutate_secret E ci shoot ca s)) k =
              (if k = ''ca.crt'' then Some (base64_encode ca) else map_lookup (secret_Data s) k))"
  by (auto simp: mutate_secret_selectors [OF assms] base64_decode_encode)

text \<open>C23: annotation bookkeeping across a change of the CareInstruction.  After a reconcile with
  \<open>old\<close> and then one with \<open>new\<close>, an annotation that the controller does not set itself is gone if it
  was one of the old \<open>additionalAnnotations\<close>, and is exactly what it was otherwise.  So stale keys are
  removed and foreign annotations survive.\<close>

theorem stale_annotations_removed:
  assumes "lawful_propagator E selects" "valid_annotation_keys old"
    and "k \<noteq> managedAnnotationKeysAnnotation" "k \<noteq> ClusterWorkerlessAnnotation E"
    and "map_lookup (secretAnnotations E new sh') k = None"
  shows "map_lookup (Annotations (mutate_secret E new sh' ca' (mutate_secret E old sh ca s))) k =
     (if map_lookup (AdditionalAnnotations (ci_Spec old)) k \<noteq> None then None
      else map_lookup (Annotations (mutate_secret E old sh ca s)) k)"
  using assms(3-5)
  by (simp add: mutate_secret_selectors [OF assms(1)] tracked_after_mutate [OF assms(2)]
        mutate_annotations_lookup [of E new])

text \<open>C29: reserved annotations win over \<open>additionalAnnotations\<close>.  Whatever the user supplies, the
  Secret carries the controller's propagation list, the API server address of the Shoot, and the workerless
  mark exactly when the Shoot has no workers.\<close>

theorem reserved_annotations_win:
  assumes "lawful_propagator E selects" "lawful_keys E"
  shows "map_lookup (Annotations (mutate_secret E ci shoot ca s)) propagateLabelsAnnotation
           = Some (strings_Join (labelKeysToPropagate ci) '','')
       \<and> map_lookup (Annotations (mutate_secret E ci shoot ca s)) (SecretAPIServerURLAnnotation E)
           = Some (apiServerURL shoot)
       \<and> map_lookup (Annotations (mutate_secret E ci shoot ca s)) (ClusterWorkerlessAnnotation E)
           = (if isWorkerless shoot then Some ''true'' else None)"
  using assms(2)
  by (auto simp: mutate_secret_selectors [OF assms(1)] mutate_annotations_lookup secretAnnotations_lookup
        lawful_keys_def)

text \<open>C30: ownership.  Whatever labels the existing Secret, the Shoot and \<open>additionalLabels\<close> carry,
  the Secret is labelled with the name of this CareInstruction, provided that the user's
  \<open>propagateLabels\<close> patterns do not select the ownership label itself.\<close>

theorem secret_owner_label:
  assumes "lawful_propagator E selects"
    and "\<not> selects (slice_elems (PropagateLabels (ci_Spec ci))) CareInstructionLabel"
  shows "map_lookup (Labels (mutate_secret E ci shoot ca s)) CareInstructionLabel = Some (Name ci)"
  using assms(2) by (simp add: mutate_secret_label_lookup [OF assms(1)] secretLabels_lookup split: option.split)

text \<open>C38: the proviso of the previous property is needed: when \<open>propagateLabels\<close> lists the ownership
  label, the value on the Shoot replaces the one the controller has just set, and the Secret is owned by
  whatever the Shoot says.\<close>

theorem owner_label_overwritten_by_shoot:
  assumes "lawful_propagator E selects"
    and "CareInstructionLabel \<in> set (slice_elems (PropagateLabels (ci_Spec ci)))"
    and "map_lookup (Labels shoot) CareInstructionLabel = Some other"
  shows "map_lookup (Labels (mutate_secret E ci shoot ca s)) CareInstructionLabel = Some other"
  using label_propagator.selects_listed [OF assms(1) [unfolded lawful_propagator_def] assms(2)] assms(3)
  by (simp add: mutate_secret_label_lookup [OF assms(1)])

end
