(* ===== verification/Shoot_Auth.thy ===== *)
theory Shoot_Auth
  imports Clients
begin

section \<open>OIDC authentication of a Shoot: \<open>controller/shoot/auth.go\<close>\<close>

text \<open>
  \<open>ConfigureOIDCAuthentication\<close> copies the AuthenticationConfiguration from the Greenhouse
  ConfigMap to a ConfigMap of the Garden cluster, labels the Shoot, points the Shoot's spec to the
  ConfigMap, and otherwise asks Gardener to reconcile the Shoot when the ConfigMap changed.  The Go
  function changes the Shoot it is given a pointer to; the model returns the Shoot with the result.
  \<open>AnnotateShootForReconcile\<close> of \<open>shoot_controller.go\<close> is defined here because this is where it is
  first called.

  The contract of the Garden API server is the locale \<open>garden_server\<close>, which extends
  \<open>create_or_update\<close>; inside it the two results that matter are proved once: what a successful
  call leaves behind, and that a second call finds nothing to do.
\<close>

definition authConfigMapKey :: string where
  "authConfigMapKey = ''config.yaml''"

definition authConfigMapManagedByAnnotation :: string where
  "authConfigMapManagedByAnnotation = ''shoot-grafter.cloudoperators.dev/managed-by''"

definition managed_by_text :: string where
  "managed_by_text = ''shoot-grafter - do not edit by hand, this is maintained by automation''"

definition AnnotateShootForReconcile ::
  "'w garden_client \<Rightarrow> string \<Rightarrow> string \<Rightarrow> ('w, go_error option) state" where
  "AnnotateShootForReconcile gardenClient namespace name = do {
     r \<leftarrow> gd_get_shoot gardenClient (namespace, name);
     (case r of
        Inl err \<Rightarrow> ret (Some (Errorf_w (''failed to get Shoot '' @ namespace @ ''/'' @ name) err))
      | Inr s \<Rightarrow> do {
          p \<leftarrow> gd_patch_shoot gardenClient
                 (s\<lparr>Annotations := map_put (Annotations s) ''gardener.cloud/operation'' ''reconcile''\<rparr>) s;
          ret (case p of Inl e \<Rightarrow> Some e | Inr _ \<Rightarrow> None)
        })
   }"

text \<open>Lines 32 to 56: the content of the Greenhouse ConfigMap, which is labelled on the way.  A failed
  label patch is only logged, and the labelled local copy is used further.\<close>

definition fetch_auth_content :: "'w gh_client \<Rightarrow> CareInstruction \<Rightarrow> ('w, string) call" where
  "fetch_auth_content gh ci = do {
     r \<leftarrow> gh_get_configmap gh (Namespace ci, AuthenticationConfigMapName (ci_Spec ci));
     (case r of
        Inl err \<Rightarrow> ret (Inl (Errorf_w (''failed to fetch AuthenticationConfiguration ConfigMap ''
                     @ AuthenticationConfigMapName (ci_Spec ci) @ '' from Greenhouse cluster'') err))
      | Inr base \<Rightarrow> do {
          cm \<leftarrow> (if map_lookup (Labels base) AuthConfigMapLabel = None
                 then do {
                   let labelled = base\<lparr>Labels := map_put (Labels base) AuthConfigMapLabel ''true''\<rparr>;
                   p \<leftarrow> gh_patch_configmap gh labelled base;
                   ret (case p of Inl patchErr \<Rightarrow> labelled | Inr answered \<Rightarrow> answered)
                 }
                 else ret base);
          ret (if cm_Data cm = nil_map \<or> map_get (cm_Data cm) authConfigMapKey = []
               then Inl (errors_New (''AuthenticationConfiguration ConfigMap ''
                      @ AuthenticationConfigMapName (ci_Spec ci) @ '' does not contain '' @ authConfigMapKey @ '' key''))
               else Inr (map_get (cm_Data cm) authConfigMapKey))
        })
   }"

text \<open>Lines 58 to 65: a reference already on the Shoot is kept.\<close>

definition auth_configMapName :: "CareInstruction \<Rightarrow> Shoot \<Rightarrow> string" where
  "auth_configMapName ci shoot =
     (case KubeAPIServer (shoot_Spec shoot) of
        Some kas \<Rightarrow>
          (case kas_StructuredAuthentication kas of
             Some sa \<Rightarrow> if sa_ConfigMapName sa \<noteq> [] then sa_ConfigMapName sa else Name ci @ ''-greenhouse-auth''
           | None \<Rightarrow> Name ci @ ''-greenhouse-auth'')
      | None \<Rightarrow> Name ci @ ''-greenhouse-auth'')"

definition garden_configMap :: "CareInstruction \<Rightarrow> Shoot \<Rightarrow> ConfigMap" where
  "garden_configMap ci shoot =
     \<lparr>Name = auth_configMapName ci shoot, Namespace = Namespace shoot,
      Labels = nil_map, Annotations = nil_map, Generation = 0, Finalizers = None, OwnerReferences = None, DeletionTimestamp = None, cm_Data = nil_map\<rparr>"

definition mutate_garden_configMap :: "CareInstruction \<Rightarrow> string \<Rightarrow> ConfigMap \<Rightarrow> ConfigMap" where
  "mutate_garden_configMap ci authContent cm =
     cm\<lparr>Labels := map_put (Labels cm) CareInstructionLabel (Name ci),
        Annotations := map_put (Annotations cm) authConfigMapManagedByAnnotation managed_by_text,
        cm_Data := Some (fmupd authConfigMapKey authContent fmempty)\<rparr>"

text \<open>Lines 101 to 111.\<close>

definition ensure_shoot_label :: "'w garden_client \<Rightarrow> CareInstruction \<Rightarrow> Shoot \<Rightarrow> ('w, Shoot) call" where
  "ensure_shoot_label gd ci shoot =
     (if Labels shoot = nil_map \<or> map_get (Labels shoot) CareInstructionLabel \<noteq> Name ci
      then do {
        p \<leftarrow> gd_patch_shoot gd (shoot\<lparr>Labels := map_put (Labels shoot) CareInstructionLabel (Name ci)\<rparr>) shoot;
        ret (case p of
               Inl patchErr \<Rightarrow> Inl (Errorf_w ''failed to patch careinstruction label on Shoot'' patchErr)
             | Inr s \<Rightarrow> Inr s)
      }
      else ret (Inr shoot))"

text \<open>Lines 113 to 126: the Shoot's reference to the ConfigMap, and whether it had to be changed.\<close>

definition reference_configMap :: "string \<Rightarrow> Shoot \<Rightarrow> Shoot \<times> bool" where
  "reference_configMap configMapName shoot =
     (let (kas, n1) = (case KubeAPIServer (shoot_Spec shoot) of
             None \<Rightarrow> (\<lparr>kas_StructuredAuthentication = None, kas_Rest = []\<rparr>, True)
           | Some kas \<Rightarrow> (kas, False));
          (sa, n2) = (case kas_StructuredAuthentication kas of
             None \<Rightarrow> (\<lparr>sa_ConfigMapName = []\<rparr>, True)
           | Some sa \<Rightarrow> (sa, False));
          (sa, n3) = (if sa_ConfigMapName sa \<noteq> configMapName
                      then (sa\<lparr>sa_ConfigMapName := configMapName\<rparr>, True) else (sa, False))
      in (shoot\<lparr>shoot_Spec := (shoot_Spec shoot)\<lparr>KubeAPIServer :=
             Some (kas\<lparr>kas_StructuredAuthentication := Some sa\<rparr>)\<rparr>\<rparr>, n1 \<or> n2 \<or> n3))"

definition ConfigureOIDCAuthentication ::
  "'w gh_client \<Rightarrow> 'w garden_client \<Rightarrow> CareInstruction \<Rightarrow> Shoot \<Rightarrow> ('w, (go_error + bool) \<times> Shoot) state" where
  "ConfigureOIDCAuthentication gh gd ci shoot = do {
     content \<leftarrow> fetch_auth_content gh ci;
     (case content of
        Inl err \<Rightarrow> ret (Inl err, shoot)
      | Inr authContent \<Rightarrow> do {
          let configMapName = auth_configMapName ci shoot;
          cmr \<leftarrow> gd_create_or_update_configmap gd (garden_configMap ci shoot)
                   (mutate_garden_configMap ci authContent);
          (case cmr of
             Inl err \<Rightarrow> ret (Inl (Errorf_w ''failed to create/update AuthenticationConfiguration ConfigMap'' err), shoot)
           | Inr (configMapResult, _) \<Rightarrow> do {
               l \<leftarrow> ensure_shoot_label gd ci shoot;
               (case l of
                  Inl err \<Rightarrow> ret (Inl err, shoot)
                | Inr shoot1 \<Rightarrow>
                    (let (shoot2, shootNeedsUpdate) = reference_configMap configMapName shoot1 in
                     if shootNeedsUpdate
                     then do {
                       u \<leftarrow> gd_update_shoot gd shoot2;
                       (case u of
                          Inl err \<Rightarrow> ret (Inl (Errorf_w
                            ''failed to update Shoot spec with OIDC authentication ConfigMap reference'' err), shoot2)
                        | Inr shoot3 \<Rightarrow> ret (Inr True, shoot3))
                     }
                     else if configMapResult \<noteq> OperationResultNone
                     then do {
                       a \<leftarrow> AnnotateShootForReconcile gd (Namespace shoot2) (Name shoot2);
                       (case a of
                          Some err \<Rightarrow> ret (Inl (Errorf_w ''failed to annotate Shoot for reconciliation'' err), shoot2)
                        | None \<Rightarrow> ret (Inr True, shoot2))
                     }
                     else ret (Inr False, shoot2)))
             })
        })
   }"

subsection \<open>The contract of the Garden API server\<close>

text \<open>What the server answers is what was sent, up to the generation number it maintains itself.\<close>

definition same_object :: "'a ObjectMeta_scheme \<Rightarrow> 'a ObjectMeta_scheme \<Rightarrow> bool" where
  "same_object a b \<longleftrightarrow> a\<lparr>Generation := 0\<rparr> = b\<lparr>Generation := 0\<rparr>"

locale garden_server =
  create_or_update stored_cm obj_key_of "gd_create_or_update_configmap gd"
  for stored_cm :: "'w \<Rightarrow> obj_key \<Rightarrow> ConfigMap option" and gd :: "'w garden_client" +
  fixes stored_shoot :: "'w \<Rightarrow> obj_key \<Rightarrow> Shoot option"
  assumes cou_cm_shoots: "run_state (gd_create_or_update_configmap gd x f) w = (res, w') \<Longrightarrow>
        stored_shoot w' = stored_shoot w"
    and get_shoot: "run_state (gd_get_shoot gd k) w = (Inr s, w') \<Longrightarrow> stored_shoot w k = Some s"
    and get_shoot_frame: "run_state (gd_get_shoot gd k) w = (res', w') \<Longrightarrow>
        stored_shoot w' = stored_shoot w \<and> stored_cm w' = stored_cm w"
    and patch_shoot: "run_state (gd_patch_shoot gd s b) w = (Inr s', w') \<Longrightarrow>
        stored_shoot w (obj_key_of s) = Some b \<Longrightarrow>
        same_object s' s \<and> stored_shoot w' = (stored_shoot w)(obj_key_of s \<mapsto> s') \<and> stored_cm w' = stored_cm w"
    and update_shoot: "run_state (gd_update_shoot gd s) w = (Inr s', w') \<Longrightarrow>
        same_object s' s \<and> stored_shoot w' = (stored_shoot w)(obj_key_of s \<mapsto> s') \<and> stored_cm w' = stored_cm w"

text \<open>The two servers together: calls to the Greenhouse client do not touch the Garden cluster.\<close>

locale garden_and_greenhouse = garden_server stored_cm gd stored_shoot
  for stored_cm :: "'w \<Rightarrow> obj_key \<Rightarrow> ConfigMap option" and gd :: "'w garden_client"
    and stored_shoot :: "'w \<Rightarrow> obj_key \<Rightarrow> Shoot option" +
  fixes gh :: "'w gh_client"
  assumes gh_get_frame: "run_state (gh_get_configmap gh k) w = (r, w') \<Longrightarrow>
        stored_shoot w' = stored_shoot w \<and> stored_cm w' = stored_cm w"
    and gh_patch_frame: "run_state (gh_patch_configmap gh c b) w = (r', w') \<Longrightarrow>
        stored_shoot w' = stored_shoot w \<and> stored_cm w' = stored_cm w"

text \<open>The Shoot refers to the ConfigMap of the given name.\<close>

definition references :: "Shoot \<Rightarrow> string \<Rightarrow> bool" where
  "references shoot n \<longleftrightarrow>
     Option.bind (KubeAPIServer (shoot_Spec shoot)) kas_StructuredAuthentication = Some \<lparr>sa_ConfigMapName = n\<rparr>"

section \<open>Lemmas\<close>

lemma mutate_garden_configMap_idem:
  "mutate_garden_configMap ci c (mutate_garden_configMap ci c cm) = mutate_garden_configMap ci c cm"
  by (simp add: mutate_garden_configMap_def map_put_def)

lemma garden_configMap_key [simp]:
  "obj_key_of (garden_configMap ci shoot) = (Namespace shoot, auth_configMapName ci shoot)"
  by (simp add: obj_key_of_def garden_configMap_def)

lemma same_objectD:
  assumes "same_object (a :: 'a ObjectMeta_scheme) b"
  shows "Name a = Name b" "Namespace a = Namespace b" "Labels a = Labels b" "Annotations a = Annotations b"
    "ObjectMeta.more a = ObjectMeta.more b"
  using assms by (cases a, cases b, simp add: same_object_def)+

lemma same_object_shoot:
  assumes "same_object (a :: Shoot) b"
  shows "shoot_Spec a = shoot_Spec b" "shoot_Status a = shoot_Status b"
  using assms by (cases a, cases b, simp add: same_object_def)+

text \<open>The reference that a Shoot carries after \<open>reference_configMap\<close>, and when nothing was
  needed.\<close>

lemma reference_configMap_props:
  assumes "reference_configMap n shoot = (shoot', upd)" "n \<noteq> []"
  shows "auth_configMapName ci shoot' = n" "obj_key_of shoot' = obj_key_of shoot"
    "Labels shoot' = Labels shoot" "reference_configMap n shoot' = (shoot', False)"
    "\<not> upd \<Longrightarrow> shoot' = shoot"
  using assms
  by (auto simp: reference_configMap_def auth_configMapName_def obj_key_of_def Let_def
      split: option.splits if_splits)

lemma auth_configMapName_nonempty [simp]: "auth_configMapName ci shoot \<noteq> []"
  by (simp add: auth_configMapName_def split: option.split)

lemma auth_configMapName_cong:
  "shoot_Spec a = shoot_Spec b \<Longrightarrow> auth_configMapName ci a = auth_configMapName ci b"
  by (simp add: auth_configMapName_def)

lemma reference_configMap_references:
  assumes "reference_configMap n shoot = (shoot', upd)"
  shows "references shoot' n"
  using assms by (auto simp: reference_configMap_def references_def Let_def split: option.splits if_splits)

lemma references_settled:
  assumes "references shoot n" "n \<noteq> []"
  shows "auth_configMapName ci shoot = n" "reference_configMap n shoot = (shoot, False)"
  using assms by (auto simp: reference_configMap_def references_def auth_configMapName_def bind_eq_Some_conv)

text \<open>A successful call went through all its steps.\<close>

lemma ConfigureOIDC_successE:
  assumes "run_state (ConfigureOIDCAuthentication gh gd ci sh) w = ((Inr b, sh'), w')"
  obtains content w1 r cm w2 sh1 w3 sh2 upd where
    "run_state (fetch_auth_content gh ci) w = (Inr content, w1)"
    "run_state (gd_create_or_update_configmap gd (garden_configMap ci sh) (mutate_garden_configMap ci content)) w1
       = (Inr (r, cm), w2)"
    "run_state (ensure_shoot_label gd ci sh) w2 = (Inr sh1, w3)"
    "reference_configMap (auth_configMapName ci sh) sh1 = (sh2, upd)"
    "(upd \<and> b \<and> run_state (gd_update_shoot gd sh2) w3 = (Inr sh', w'))
     \<or> (\<not> upd \<and> b \<and> r \<noteq> OperationResultNone \<and> sh' = sh2
          \<and> run_state (AnnotateShootForReconcile gd (Namespace sh2) (Name sh2)) w3 = (None, w'))
     \<or> (\<not> upd \<and> \<not> b \<and> r = OperationResultNone \<and> sh' = sh2 \<and> w' = w3)"
  using assms that
  by (auto simp: ConfigureOIDCAuthentication_def Let_def split: prod.splits sum.splits if_splits option.splits)

lemma ensure_shoot_label_skip:
  "map_lookup (Labels sh) CareInstructionLabel = Some (Name ci) \<Longrightarrow> ensure_shoot_label gd ci sh = ret (Inr sh)"
  by (cases "Labels sh") (simp_all add: ensure_shoot_label_def map_get_def)

context garden_and_greenhouse
begin

lemma fetch_frame:
  assumes "run_state (fetch_auth_content gh ci) w = (r, w')"
  shows "stored_shoot w' = stored_shoot w" "stored_cm w' = stored_cm w"
  using assms gh_get_frame gh_patch_frame
  by (fastforce simp: fetch_auth_content_def Let_def split: prod.splits sum.splits if_splits)+

lemma ensure_label:
  assumes "run_state (ensure_shoot_label gd ci sh) w = (Inr sh', w')"
    and "stored_shoot w (obj_key_of sh) = Some sh" "Name ci \<noteq> []"
  shows "stored_shoot w' (obj_key_of sh) = Some sh'" "stored_cm w' = stored_cm w"
    "shoot_Spec sh' = shoot_Spec sh" "obj_key_of sh' = obj_key_of sh"
    "map_lookup (Labels sh') CareInstructionLabel = Some (Name ci)"
proof -
  let ?l = "sh\<lparr>Labels := map_put (Labels sh) CareInstructionLabel (Name ci)\<rparr>"
  have key: "obj_key_of ?l = obj_key_of sh" by (simp add: obj_key_of_def)
  have *: "stored_shoot w' (obj_key_of sh) = Some sh' \<and> stored_cm w' = stored_cm w \<and>
    shoot_Spec sh' = shoot_Spec sh \<and> obj_key_of sh' = obj_key_of sh \<and>
    map_lookup (Labels sh') CareInstructionLabel = Some (Name ci)"
  proof (cases "Labels sh = nil_map \<or> map_get (Labels sh) CareInstructionLabel \<noteq> Name ci")
    case True
    then have "run_state (gd_patch_shoot gd ?l sh) w = (Inr sh', w')"
      using assms(1) by (auto simp: ensure_shoot_label_def split: prod.splits sum.splits)
    from patch_shoot [OF this] assms(2) key same_objectD [of sh' ?l] same_object_shoot [of sh' ?l]
    show ?thesis by (auto simp: obj_key_of_def)
  next
    case False
    then show ?thesis using assms
      by (auto simp: ensure_shoot_label_def map_get_def split: option.splits)
  qed
  then show "stored_shoot w' (obj_key_of sh) = Some sh'" "stored_cm w' = stored_cm w"
    "shoot_Spec sh' = shoot_Spec sh" "obj_key_of sh' = obj_key_of sh"
    "map_lookup (Labels sh') CareInstructionLabel = Some (Name ci)" by auto
qed

lemma annotate_stored:
  assumes "run_state (AnnotateShootForReconcile gd (Namespace s) (Name s)) w = (None, w')"
    and "stored_shoot w (obj_key_of s) = Some s"
  shows "stored_cm w' = stored_cm w"
    "\<exists>s'. stored_shoot w' (obj_key_of s) = Some s' \<and>
       same_object s' (s\<lparr>Annotations := map_put (Annotations s) ''gardener.cloud/operation'' ''reconcile''\<rparr>)"
proof -
  let ?a = "\<lambda>s. s\<lparr>Annotations := map_put (Annotations s) ''gardener.cloud/operation'' ''reconcile''\<rparr>"
  from assms(1) obtain t w1 t' where get: "run_state (gd_get_shoot gd (obj_key_of s)) w = (Inr t, w1)"
    and patch: "run_state (gd_patch_shoot gd (?a t) t) w1 = (Inr t', w')"
    by (auto simp: AnnotateShootForReconcile_def obj_key_of_def split: prod.splits sum.splits)
  have t: "t = s" using get_shoot [OF get] assms(2) by simp
  have "stored_shoot w1 (obj_key_of (?a t)) = Some t"
    using get_shoot_frame [OF get] assms(2) t by (simp add: obj_key_of_def)
  from patch_shoot [OF patch this] get_shoot_frame [OF get] t
  show "stored_cm w' = stored_cm w" "\<exists>s'. stored_shoot w' (obj_key_of s) = Some s' \<and> same_object s' (?a s)"
    by (auto simp: obj_key_of_def)
qed

text \<open>What a successful call leaves behind.\<close>

lemma configured:
  assumes run: "run_state (ConfigureOIDCAuthentication gh gd ci sh) w = ((Inr b, sh'), w')"
    and sh: "stored_shoot w (obj_key_of sh) = Some sh" and ci: "Name ci \<noteq> []"
  shows "\<exists>content w1 cm s. run_state (fetch_auth_content gh ci) w = (Inr content, w1)
    \<and> stored_cm w' (Namespace sh, auth_configMapName ci sh) = Some cm
    \<and> cm = mutate_garden_configMap ci content cm
    \<and> stored_shoot w' (obj_key_of sh) = Some s
    \<and> references s (auth_configMapName ci sh)
    \<and> map_lookup (Labels s) CareInstructionLabel = Some (Name ci)
    \<and> (\<not> b \<longrightarrow> s = sh')"
proof -
  from run obtain content w1 r cm w2 sh1 w3 sh2 upd where
    f: "run_state (fetch_auth_content gh ci) w = (Inr content, w1)" and
    c: "run_state (gd_create_or_update_configmap gd (garden_configMap ci sh) (mutate_garden_configMap ci content)) w1
       = (Inr (r, cm), w2)" and
    l: "run_state (ensure_shoot_label gd ci sh) w2 = (Inr sh1, w3)" and
    ref: "reference_configMap (auth_configMapName ci sh) sh1 = (sh2, upd)" and
    fin: "(upd \<and> b \<and> run_state (gd_update_shoot gd sh2) w3 = (Inr sh', w'))
     \<or> (\<not> upd \<and> b \<and> r \<noteq> OperationResultNone \<and> sh' = sh2
          \<and> run_state (AnnotateShootForReconcile gd (Namespace sh2) (Name sh2)) w3 = (None, w'))
     \<or> (\<not> upd \<and> \<not> b \<and> r = OperationResultNone \<and> sh' = sh2 \<and> w' = w3)"
    by (rule ConfigureOIDC_successE)
  have cm: "stored_cm w2 (Namespace sh, auth_configMapName ci sh) = Some cm" "cm = mutate_garden_configMap ci content cm"
    using cou_result [OF c] mutate_garden_configMap_idem by auto
  have sh2: "stored_shoot w2 (obj_key_of sh) = Some sh"
    using cou_cm_shoots [OF c] fetch_frame [OF f] sh by simp
  note lab = ensure_label [OF l sh2 ci]
  note props = reference_configMap_props [OF ref auth_configMapName_nonempty]
  note rf = reference_configMap_references [OF ref]
  have "stored_cm w' = stored_cm w3 \<and> (\<exists>s. stored_shoot w' (obj_key_of sh) = Some s
      \<and> shoot_Spec s = shoot_Spec sh2 \<and> Labels s = Labels sh1 \<and> (\<not> b \<longrightarrow> s = sh'))"
    using fin
  proof (elim disjE conjE)
    assume "run_state (gd_update_shoot gd sh2) w3 = (Inr sh', w')" b
    from update_shoot [OF this(1)] this(2) props lab
    show ?thesis by (auto dest: same_objectD same_object_shoot)
  next
    assume a: "\<not> upd" b "run_state (AnnotateShootForReconcile gd (Namespace sh2) (Name sh2)) w3 = (None, w')"
    then have eq: "sh2 = sh1" using props by simp
    have "stored_shoot w3 (obj_key_of sh2) = Some sh2" using lab eq by simp
    from annotate_stored [OF a(3) this] a(2) eq lab
    show ?thesis by (fastforce dest: same_objectD same_object_shoot)
  next
    assume "\<not> upd" "\<not> b" "sh' = sh2" "w' = w3"
    then show ?thesis using lab props by auto
  qed
  with f cm lab rf show ?thesis unfolding references_def by auto
qed

text \<open>A call that finds everything in place changes nothing and reports so.\<close>

lemma settled:
  assumes run: "run_state (ConfigureOIDCAuthentication gh gd ci sh) w = ((Inr b, sh'), w')"
    and sh: "stored_shoot w (obj_key_of sh) = Some sh"
    and ref: "references sh n" "n \<noteq> []"
    and lab: "map_lookup (Labels sh) CareInstructionLabel = Some (Name ci)"
    and f: "run_state (fetch_auth_content gh ci) w = (Inr content, w1)"
    and cm: "stored_cm w (Namespace sh, n) = Some cm" "cm = mutate_garden_configMap ci content cm"
  shows "\<not> b \<and> sh' = sh \<and> stored_shoot w' = stored_shoot w \<and> stored_cm w' (Namespace sh, n) = Some cm"
proof -
  note st = references_settled [OF ref]
  from run obtain content' w1' r cm' w2 sh1 w3 sh2 upd where
    f': "run_state (fetch_auth_content gh ci) w = (Inr content', w1')" and
    c: "run_state (gd_create_or_update_configmap gd (garden_configMap ci sh) (mutate_garden_configMap ci content')) w1'
       = (Inr (r, cm'), w2)" and
    l: "run_state (ensure_shoot_label gd ci sh) w2 = (Inr sh1, w3)" and
    rf: "reference_configMap (auth_configMapName ci sh) sh1 = (sh2, upd)" and
    fin: "(upd \<and> b \<and> run_state (gd_update_shoot gd sh2) w3 = (Inr sh', w'))
     \<or> (\<not> upd \<and> b \<and> r \<noteq> OperationResultNone \<and> sh' = sh2
          \<and> run_state (AnnotateShootForReconcile gd (Namespace sh2) (Name sh2)) w3 = (None, w'))
     \<or> (\<not> upd \<and> \<not> b \<and> r = OperationResultNone \<and> sh' = sh2 \<and> w' = w3)"
    by (rule ConfigureOIDC_successE)
  have eqs: "content' = content" "w1' = w1" using f f' by auto
  have l': "sh1 = sh" "w3 = w2" using l by (simp_all add: ensure_shoot_label_skip [OF lab])
  have r': "sh2 = sh" "\<not> upd" using rf st l' by simp_all
  have "stored_cm w1 (Namespace sh, n) = Some cm" using fetch_frame [OF f] cm(1) by simp
  then have present: "stored_cm w1 (obj_key_of (garden_configMap ci sh)) = Some cm" using st by simp
  have "r = OperationResultNone" "stored_cm w2 (Namespace sh, n) = Some cm"
    using cou_present [OF c [unfolded eqs] present] cm(2) st by simp_all
  moreover have "stored_shoot w2 = stored_shoot w"
    using cou_cm_shoots [OF c] fetch_frame [OF f] eqs by simp
  ultimately show ?thesis using fin r' l' by auto
qed

end

lemma mem_garden_lawful:
  "garden_and_greenhouse (\<lambda>w. fmlookup (mem_gd_configmaps w)) mem_garden (\<lambda>w. fmlookup (mem_shoots w)) mem_gh"
proof -
  have cou: "create_or_update (\<lambda>w. fmlookup (mem_gd_configmaps w)) obj_key_of (gd_create_or_update_configmap mem_garden)"
    by (simp add: mem_garden_def mem_configmap_cou.create_or_update_axioms)
  show ?thesis
    by (intro garden_and_greenhouse.intro garden_server.intro cou garden_server_axioms.intro
          garden_and_greenhouse_axioms.intro)
       (auto simp: mem_garden_def mem_gh_def same_object_def fun_eq_iff split: option.splits if_splits)
qed

interpretation mem_garden: garden_and_greenhouse
  "\<lambda>w. fmlookup (mem_gd_configmaps w)" mem_garden "\<lambda>w. fmlookup (mem_shoots w)" mem_gh
  by (rule mem_garden_lawful)

section \<open>Properties\<close>

text \<open>C14: a successful \<open>ConfigureOIDCAuthentication\<close> establishes the whole configuration.  Over any
  API servers that keep their contract, the ConfigMap in the Garden cluster holds the Greenhouse content
  verbatim under \<open>config.yaml\<close> and nothing else, carries the ownership label, and the stored Shoot
  refers to that ConfigMap, under the name it already referred to or the default name, and carries the
  ownership label.\<close>

theorem oidc_configured:
  assumes "garden_and_greenhouse stored_cm gd stored_shoot gh"
    and "run_state (ConfigureOIDCAuthentication gh gd ci sh) w = ((Inr b, sh'), w')"
    and "stored_shoot w (obj_key_of sh) = Some sh" "Name ci \<noteq> []"
  shows "\<exists>content w1 cm s. run_state (fetch_auth_content gh ci) w = (Inr content, w1)
    \<and> stored_cm w' (Namespace sh, auth_configMapName ci sh) = Some cm
    \<and> cm_Data cm = Some (fmupd authConfigMapKey content fmempty)
    \<and> map_lookup (Labels cm) CareInstructionLabel = Some (Name ci)
    \<and> stored_shoot w' (obj_key_of sh) = Some s
    \<and> references s (auth_configMapName ci sh)
    \<and> map_lookup (Labels s) CareInstructionLabel = Some (Name ci)"
proof -
  have "cm_Data cm = Some (fmupd authConfigMapKey c fmempty)
      \<and> map_lookup (Labels cm) CareInstructionLabel = Some (Name ci)"
    if "cm = mutate_garden_configMap ci c cm" for cm c
    by (subst that, simp add: mutate_garden_configMap_def)+
  with garden_and_greenhouse.configured [OF assms] show ?thesis by metis
qed

text \<open>C24: the configuration settles.  When a call succeeded and the next one, on the Shoot as it is now
  stored and with the same Greenhouse content, succeeds too, that one reports that nothing was changed and
  leaves Shoot and ConfigMap as they are: no reconcile loop keeps rewriting them.\<close>

theorem oidc_settles:
  assumes "garden_and_greenhouse stored_cm gd stored_shoot gh"
    and "run_state (ConfigureOIDCAuthentication gh gd ci sh) w = ((Inr b, sh'), w1)"
    and "stored_shoot w (obj_key_of sh) = Some sh" "Name ci \<noteq> []"
    and "stored_shoot w1 (obj_key_of sh) = Some s" "obj_key_of s = obj_key_of sh"
    and "fst (run_state (fetch_auth_content gh ci) w1) = fst (run_state (fetch_auth_content gh ci) w)"
    and "run_state (ConfigureOIDCAuthentication gh gd ci s) w1 = ((Inr b', s'), w2)"
  shows "\<not> b' \<and> s' = s \<and> stored_shoot w2 = stored_shoot w1
     \<and> stored_cm w2 (Namespace sh, auth_configMapName ci sh) = stored_cm w1 (Namespace sh, auth_configMapName ci sh)"
proof -
  let ?n = "auth_configMapName ci sh"
  from garden_and_greenhouse.configured [OF assms(1-4)] assms(5)
  obtain content v cm where f: "run_state (fetch_auth_content gh ci) w = (Inr content, v)"
    and cm: "stored_cm w1 (Namespace sh, ?n) = Some cm" "cm = mutate_garden_configMap ci content cm"
    and s: "references s ?n" "map_lookup (Labels s) CareInstructionLabel = Some (Name ci)"
    by auto
  obtain v' where f': "run_state (fetch_auth_content gh ci) w1 = (Inr content, v')"
    using assms(7) f by (metis fst_conv prod.collapse)
  have ns: "Namespace s = Namespace sh" using assms(6) by (simp add: obj_key_of_def)
  have "stored_shoot w1 (obj_key_of s) = Some s" using assms(5,6) by simp
  from garden_and_greenhouse.settled [OF assms(1) assms(8) this s(1) auth_configMapName_nonempty s(2) f' _ cm(2)]
  show ?thesis using cm(1) ns by simp
qed

text \<open>A branch of its own: without a usable Greenhouse ConfigMap nothing is done to the Garden cluster.  If the ConfigMap
  cannot be read, or has no \<open>config.yaml\<close>, the call fails with that error, having made no call beyond
  reading and labelling the Greenhouse ConfigMap, and the Shoot is as it was.\<close>

lemma oidc_no_content_no_garden_call:
  assumes "run_state (fetch_auth_content gh ci) w = (Inl err, w1)"
  shows "run_state (ConfigureOIDCAuthentication gh gd ci sh) w = ((Inl err, sh), w1)"
  using assms by (simp add: ConfigureOIDCAuthentication_def)

end
