(* ===== verification/Shoot_Rbac.thy ===== *)
theory Shoot_Rbac
  imports Clients
begin

section \<open>Events, the Shoot cluster client and RBAC: \<open>rbac.go\<close>, \<open>client.go\<close>, \<open>emitEvent\<close>\<close>

text \<open>
  The Shoot controller keeps no state of its own; what it does is API calls and events.  Its state is
  the world together with the list of events recorded so far, in order.  Events go to the
  CareInstruction; without an event recorder they are only logged.

  \<open>SetRBAC\<close> gives the Greenhouse service account cluster-admin on the Shoot cluster.  The RoleRef of
  a ClusterRoleBinding is immutable, so a binding with another RoleRef is deleted first; the locale
  \<open>rbac_server\<close> states that immutability.
\<close>

record event =
  ev_Type :: string
  ev_Reason :: string
  ev_Message :: string

record 'w sc_state =
  sc_world :: 'w
  sc_events :: "event list"

record 'w ShootController =
  GreenhouseClient :: "'w gh_client"
  GardenClient :: "'w garden_client"
  sc_Name :: string
  sc_CareInstruction :: CareInstruction
  EventRecorder :: bool

definition EventTypeNormal :: string where
  "EventTypeNormal = ''Normal''"

definition EventTypeWarning :: string where
  "EventTypeWarning = ''Warning''"

definition emitEvent :: "'w ShootController \<Rightarrow> string \<Rightarrow> string \<Rightarrow> string \<Rightarrow> ('w sc_state, unit) state" where
  "emitEvent r eventType reason message =
     State_Monad.update (\<lambda>s. if EventRecorder r
        then s\<lparr>sc_events := sc_events s @ [\<lparr>ev_Type = eventType, ev_Reason = reason, ev_Message = message\<rparr>]\<rparr>
        else s)"

text \<open>An API call inside the controller.\<close>

definition api :: "('w, 'a) state \<Rightarrow> ('w sc_state, 'a) state" where
  "api m = State (\<lambda>s. case run_state m (sc_world s) of (a, w) \<Rightarrow> (a, s\<lparr>sc_world := w\<rparr>))"

subsection \<open>The client of a Shoot cluster\<close>

text \<open>The library functions between the admin kubeconfig and the client.\<close>

record 'w kube_lib =
  NewClientConfigFromBytes :: "bytes \<Rightarrow> go_error + string"
  ClientConfig :: "string \<Rightarrow> go_error + string"
  AddToScheme_corev1 :: "go_error option"
  AddToScheme_rbacv1 :: "go_error option"
  shoot_client_New :: "string \<Rightarrow> ('w, 'w shoot_client) call"

definition expirationSeconds :: int where
  "expirationSeconds = 10 * 60"

definition getShootClusterClient ::
  "'w kube_lib \<Rightarrow> 'w garden_client \<Rightarrow> Shoot \<Rightarrow> ('w, 'w shoot_client) call" where
  "getShootClusterClient K gardenClient shoot = do {
     r \<leftarrow> gd_create_adminkubeconfig gardenClient shoot expirationSeconds;
     (case r of
        Inl err \<Rightarrow> ret (Inl err)
      | Inr kubeCfg \<Rightarrow>
          (case NewClientConfigFromBytes K kubeCfg of
             Inl err \<Rightarrow> ret (Inl err)
           | Inr clientCfg \<Rightarrow>
               (case ClientConfig K clientCfg of
                  Inl err \<Rightarrow> ret (Inl err)
                | Inr restCfg \<Rightarrow>
                    (case AddToScheme_corev1 K of
                       Some err \<Rightarrow> ret (Inl err)
                     | None \<Rightarrow>
                         (case AddToScheme_rbacv1 K of
                            Some err \<Rightarrow> ret (Inl err)
                          | None \<Rightarrow> shoot_client_New K restCfg)))))
   }"

subsection \<open>SetRBAC\<close>

definition greenhouseSA :: "string \<Rightarrow> string \<Rightarrow> string" where
  "greenhouseSA org shootName = ''greenhouse:system:serviceaccount:'' @ org @ '':'' @ shootName"

definition desiredRoleRef :: RoleRef where
  "desiredRoleRef = \<lparr>rr_APIGroup = ''rbac.authorization.k8s.io'', rr_Kind = ''ClusterRole'', rr_Name = ''cluster-admin''\<rparr>"

definition crb_name :: string where
  "crb_name = ''greenhouse:system:cluster-admin''"

definition new_crb :: ClusterRoleBinding where
  "new_crb = \<lparr>Name = crb_name, Namespace = [], Labels = nil_map, Annotations = nil_map, Generation = 0, Finalizers = None, OwnerReferences = None, DeletionTimestamp = None,
     crb_Subjects = None, crb_RoleRef = \<lparr>rr_APIGroup = [], rr_Kind = [], rr_Name = []\<rparr>\<rparr>"

definition mutate_crb :: "string \<Rightarrow> string \<Rightarrow> ClusterRoleBinding \<Rightarrow> ClusterRoleBinding" where
  "mutate_crb greenhouseOrg shootName crb =
     crb\<lparr>crb_Subjects := Some [\<lparr>sub_Kind = ''User'', sub_APIGroup = ''rbac.authorization.k8s.io'',
            sub_Name = greenhouseSA greenhouseOrg shootName\<rparr>],
         crb_RoleRef := desiredRoleRef\<rparr>"

text \<open>Lines 57 to 95: create or update, then the event for the outcome.\<close>

definition apply_crb :: "'w ShootController \<Rightarrow> 'w shoot_client \<Rightarrow> string \<Rightarrow> ('w sc_state, unit) state" where
  "apply_crb r shootClient shootName = (let ci = sc_CareInstruction r in do {
     res \<leftarrow> api (sh_create_or_update_crb shootClient new_crb (mutate_crb (Namespace ci) shootName));
     (case res of
        Inl err \<Rightarrow> emitEvent r EventTypeWarning ''RBACOperationFailed''
          (''Failed to create or update ClusterRoleBinding '' @ crb_name @ '' for shoot ''
             @ Namespace ci @ ''/'' @ shootName @ '': '' @ Error err)
      | Inr (OperationResultCreated, crb) \<Rightarrow> emitEvent r EventTypeNormal ''RBACCreated''
          (''Created ClusterRoleBinding '' @ Name crb @ '' for shoot '' @ Namespace ci @ ''/'' @ shootName)
      | Inr (OperationResultUpdated, crb) \<Rightarrow> emitEvent r EventTypeNormal ''RBACUpdated''
          (''Updated ClusterRoleBinding '' @ Name crb @ '' for shoot '' @ Namespace ci @ ''/'' @ shootName)
      | Inr (OperationResultNone, crb) \<Rightarrow> ret ())
   })"

definition SetRBAC :: "'w ShootController \<Rightarrow> 'w shoot_client \<Rightarrow> string \<Rightarrow> ('w sc_state, unit) state" where
  "SetRBAC r shootClient shootName = (let ci = sc_CareInstruction r in do {
     g \<leftarrow> api (sh_get_crb shootClient crb_name);
     (case g of
        Inr existingCRB \<Rightarrow>
          if crb_RoleRef existingCRB \<noteq> desiredRoleRef
          then do {
            d \<leftarrow> api (sh_delete_crb shootClient existingCRB);
            (case d of
               Inl err \<Rightarrow> emitEvent r EventTypeWarning ''RBACOperationFailed''
                 (''Failed to delete ClusterRoleBinding '' @ Name existingCRB @ '' for shoot ''
                    @ Namespace ci @ ''/'' @ shootName @ '': '' @ Error err)
             | Inr _ \<Rightarrow> apply_crb r shootClient shootName)
          }
          else apply_crb r shootClient shootName
      | Inl err \<Rightarrow> if IsNotFound err then apply_crb r shootClient shootName else ret ())
   })"

subsection \<open>The contract of the Shoot's API server\<close>

text \<open>A working server: reads tell what is stored, a delete removes, and create-or-update works
  unless it would change the RoleRef of a stored binding, which the server refuses.\<close>

locale rbac_server =
  fixes stored :: "'w \<Rightarrow> ClusterRoleBinding option" and sc :: "'w shoot_client"
  assumes get_ok: "run_state (sh_get_crb sc crb_name) w =
        (case stored w of Some c \<Rightarrow> Inr c | None \<Rightarrow> Inl not_found, w)"
    and delete_ok: "stored w = Some c \<Longrightarrow> \<exists>w'. run_state (sh_delete_crb sc c) w = (Inr (), w') \<and> stored w' = None"
    and cou_absent_ok: "stored w = None \<Longrightarrow> Name (f x) = crb_name \<Longrightarrow>
        \<exists>w'. run_state (sh_create_or_update_crb sc x f) w = (Inr (OperationResultCreated, f x), w') \<and> stored w' = Some (f x)"
    and cou_present_ok: "stored w = Some c \<Longrightarrow> crb_RoleRef (f c) = crb_RoleRef c \<Longrightarrow>
        \<exists>w'. run_state (sh_create_or_update_crb sc x f) w =
               (Inr (if f c = c then OperationResultNone else OperationResultUpdated, f c), w') \<and> stored w' = Some (f c)"
    and cou_immutable: "stored w = Some c \<Longrightarrow> crb_RoleRef (f c) \<noteq> crb_RoleRef c \<Longrightarrow>
        \<exists>e. run_state (sh_create_or_update_crb sc x f) w = (Inl e, w)"

text \<open>An in-memory server that refuses to change a RoleRef.\<close>

record crb_world =
  cw_crb :: "ClusterRoleBinding option"

definition crb_server :: "crb_world shoot_client" where
  "crb_server = \<lparr>
     sh_get_crb = (\<lambda>n. State (\<lambda>w. (case cw_crb w of Some c \<Rightarrow> Inr c | None \<Rightarrow> Inl not_found, w))),
     sh_delete_crb = (\<lambda>c. State (\<lambda>w. case cw_crb w of
         None \<Rightarrow> (Inl not_found, w) | Some _ \<Rightarrow> (Inr (), w\<lparr>cw_crb := None\<rparr>))),
     sh_create_or_update_crb = (\<lambda>x f. State (\<lambda>w. case cw_crb w of
         None \<Rightarrow> (Inr (OperationResultCreated, f x), w\<lparr>cw_crb := Some (f x)\<rparr>)
       | Some c \<Rightarrow>
           if crb_RoleRef (f c) \<noteq> crb_RoleRef c then (Inl (errors_New ''cannot change roleRef''), w)
           else (Inr (if f c = c then OperationResultNone else OperationResultUpdated, f c), w\<lparr>cw_crb := Some (f c)\<rparr>)))\<rparr>"

section \<open>Lemmas\<close>

lemma run_api [simp]:
  "run_state (api m) s = (case run_state m (sc_world s) of (a, w) \<Rightarrow> (a, s\<lparr>sc_world := w\<rparr>))"
  by (simp add: api_def)

lemma run_emitEvent [simp]:
  "run_state (emitEvent r t re m) s = ((), if EventRecorder r
     then s\<lparr>sc_events := sc_events s @ [\<lparr>ev_Type = t, ev_Reason = re, ev_Message = m\<rparr>]\<rparr> else s)"
  by (simp add: emitEvent_def State_Monad.update_def comp_def)

interpretation crb_mem: rbac_server cw_crb crb_server
  by unfold_locales (auto simp: crb_server_def split: option.splits)

lemma mutate_crb_simps [simp]:
  "crb_RoleRef (mutate_crb org n c) = desiredRoleRef" "Name (mutate_crb org n c) = Name c"
  "mutate_crb org n (mutate_crb org n c) = mutate_crb org n c"
  by (simp_all add: mutate_crb_def)

context rbac_server
begin

lemma apply_crb_ok:
  assumes "stored (sc_world s) = None \<or> (\<exists>c. stored (sc_world s) = Some c \<and> crb_RoleRef c = desiredRoleRef)"
    and "run_state (apply_crb r sc n) s = ((), s')"
  shows "stored (sc_world s') =
      Some (mutate_crb (Namespace (sc_CareInstruction r)) n
              (case stored (sc_world s) of None \<Rightarrow> new_crb | Some c \<Rightarrow> c))"
    and "\<exists>evs. sc_events s' = sc_events s @ evs \<and> (\<forall>e \<in> set evs. ev_Reason e \<in> {''RBACCreated'', ''RBACUpdated''})"
proof -
  let ?f = "mutate_crb (Namespace (sc_CareInstruction r)) n"
  have "stored (sc_world s') = Some (?f (case stored (sc_world s) of None \<Rightarrow> new_crb | Some c \<Rightarrow> c)) \<and>
    (\<exists>evs. sc_events s' = sc_events s @ evs \<and> (\<forall>e \<in> set evs. ev_Reason e \<in> {''RBACCreated'', ''RBACUpdated''}))"
  proof (cases "stored (sc_world s)")
    case None
    from cou_absent_ok [where f = ?f, OF this, of new_crb] obtain w' where
      "run_state (sh_create_or_update_crb sc new_crb ?f) (sc_world s) = (Inr (OperationResultCreated, ?f new_crb), w')"
      "stored w' = Some (?f new_crb)" by (auto simp: new_crb_def)
    with assms(2) None show ?thesis by (auto simp: apply_crb_def Let_def split: if_splits)
  next
    case (Some c)
    with assms(1) have "crb_RoleRef (?f c) = crb_RoleRef c" by simp
    from cou_present_ok [where f = ?f, OF Some this, of new_crb] obtain w' where
      "run_state (sh_create_or_update_crb sc new_crb ?f) (sc_world s) =
         (Inr (if ?f c = c then OperationResultNone else OperationResultUpdated, ?f c), w')"
      "stored w' = Some (?f c)" by auto
    with assms(2) Some show ?thesis by (auto simp: apply_crb_def Let_def split: if_splits)
  qed
  then show "stored (sc_world s') = Some (?f (case stored (sc_world s) of None \<Rightarrow> new_crb | Some c \<Rightarrow> c))"
    "\<exists>evs. sc_events s' = sc_events s @ evs \<and> (\<forall>e \<in> set evs. ev_Reason e \<in> {''RBACCreated'', ''RBACUpdated''})"
    by auto
qed

lemma SetRBAC_ok:
  assumes "run_state (SetRBAC r sc n) s = ((), s')"
  shows "\<exists>c. stored (sc_world s') = Some c \<and> c = mutate_crb (Namespace (sc_CareInstruction r)) n c"
    and "\<exists>evs. sc_events s' = sc_events s @ evs \<and> (\<forall>e \<in> set evs. ev_Reason e \<in> {''RBACCreated'', ''RBACUpdated''})"
proof -
  have "\<exists>s1. sc_events s1 = sc_events s \<and> run_state (apply_crb r sc n) s1 = ((), s')
     \<and> (stored (sc_world s1) = None \<or> (\<exists>c. stored (sc_world s1) = Some c \<and> crb_RoleRef c = desiredRoleRef))"
  proof (cases "stored (sc_world s)")
    case None
    with assms show ?thesis by (intro exI [of _ s]) (simp add: SetRBAC_def Let_def get_ok)
  next
    case (Some c)
    show ?thesis
    proof (cases "crb_RoleRef c = desiredRoleRef")
      case True
      with assms Some show ?thesis by (intro exI [of _ s]) (simp add: SetRBAC_def Let_def get_ok)
    next
      case False
      from delete_ok [OF Some] obtain w' where
        "run_state (sh_delete_crb sc c) (sc_world s) = (Inr (), w')" "stored w' = None" by blast
      with assms Some False show ?thesis
        by (intro exI [of _ "s\<lparr>sc_world := w'\<rparr>"]) (simp add: SetRBAC_def Let_def get_ok)
    qed
  qed
  then obtain s1 where s1: "sc_events s1 = sc_events s" "run_state (apply_crb r sc n) s1 = ((), s')"
    "stored (sc_world s1) = None \<or> (\<exists>c. stored (sc_world s1) = Some c \<and> crb_RoleRef c = desiredRoleRef)" by blast
  from apply_crb_ok [OF s1(3,2)] s1(1)
  show "\<exists>c. stored (sc_world s') = Some c \<and> c = mutate_crb (Namespace (sc_CareInstruction r)) n c"
    "\<exists>evs. sc_events s' = sc_events s @ evs \<and> (\<forall>e \<in> set evs. ev_Reason e \<in> {''RBACCreated'', ''RBACUpdated''})"
    by auto
qed

end

section \<open>Properties\<close>

text \<open>C15: on a working API server, and whatever ClusterRoleBinding the Shoot cluster had before,
  \<open>SetRBAC\<close> ends with the Greenhouse service account of this organisation and Shoot, and only it, bound
  to cluster-admin, and records no failure: although the server refuses to change a RoleRef, the code never
  asks it to.\<close>

theorem SetRBAC_establishes:
  assumes "rbac_server stored shc" "run_state (SetRBAC r shc shootName) s = ((), s')"
  shows "\<exists>c evs. stored (sc_world s') = Some c \<and> crb_RoleRef c = desiredRoleRef
      \<and> crb_Subjects c = Some [\<lparr>sub_Kind = ''User'', sub_APIGroup = ''rbac.authorization.k8s.io'',
            sub_Name = greenhouseSA (Namespace (sc_CareInstruction r)) shootName\<rparr>]
      \<and> sc_events s' = sc_events s @ evs \<and> ''RBACOperationFailed'' \<notin> ev_Reason ` set evs"
proof -
  obtain c where c: "stored (sc_world s') = Some c" "c = mutate_crb (Namespace (sc_CareInstruction r)) shootName c"
    using rbac_server.SetRBAC_ok(1) [OF assms] by blast
  obtain evs where evs: "sc_events s' = sc_events s @ evs" "\<forall>e \<in> set evs. ev_Reason e \<in> {''RBACCreated'', ''RBACUpdated''}"
    using rbac_server.SetRBAC_ok(2) [OF assms] by blast
  have "crb_RoleRef c = desiredRoleRef" "crb_Subjects c = Some [\<lparr>sub_Kind = ''User'',
      sub_APIGroup = ''rbac.authorization.k8s.io'', sub_Name = greenhouseSA (Namespace (sc_CareInstruction r)) shootName\<rparr>]"
    by (subst c(2), simp add: mutate_crb_def)+
  with c(1) evs show ?thesis by (intro exI [of _ c] exI [of _ evs]) fastforce
qed

text \<open>A branch of its own: \<open>SetRBAC\<close> gives up without writing when it cannot tell what is there: a read that fails for
  another reason than the object being absent ends the function with no further call and no event.\<close>

lemma SetRBAC_read_failure:
  assumes "run_state (sh_get_crb shc crb_name) (sc_world s) = (Inl err, w')" "\<not> IsNotFound err"
  shows "run_state (SetRBAC r shc shootName) s = ((), s\<lparr>sc_world := w'\<rparr>)"
  using assms by (simp add: SetRBAC_def Let_def)

end
