(* ===== verification/Predicates.thy ===== *)
theory Predicates
  imports Api_Types
begin

section \<open>Event predicates: \<open>internal/clientutil/predicates.go\<close>\<close>

text \<open>
  The predicates that decide which watch events reach a reconciler.  \<open>predicate.Funcs\<close> of
  controller-runtime is a struct of optional functions; a filter may have effects (the CEL filter of the
  Shoot controller records events), so every function is a computation on an arbitrary state.

  controller-runtime and apimachinery are not part of the repository: how \<open>Funcs\<close> answers an event,
  what \<open>NewPredicateFuncs\<close> builds and what \<open>Semantic.DeepEqual\<close> compares are the record
  \<open>predicate_lib\<close>, with their documented behaviour as the locale \<open>predicate_library\<close>.
\<close>

datatype client_object =
    ObjShoot Shoot
  | ObjConfigMap ConfigMap
  | ObjSecret Secret
  | ObjCluster Cluster
  | ObjCareInstruction CareInstruction

definition GetLabels :: "client_object \<Rightarrow> gomap" where
  "GetLabels obj = (case obj of ObjShoot x \<Rightarrow> Labels x | ObjConfigMap x \<Rightarrow> Labels x
     | ObjSecret x \<Rightarrow> Labels x | ObjCluster x \<Rightarrow> Labels x | ObjCareInstruction x \<Rightarrow> Labels x)"

definition GetNamespace :: "client_object \<Rightarrow> string" where
  "GetNamespace obj = (case obj of ObjShoot x \<Rightarrow> Namespace x | ObjConfigMap x \<Rightarrow> Namespace x
     | ObjSecret x \<Rightarrow> Namespace x | ObjCluster x \<Rightarrow> Namespace x | ObjCareInstruction x \<Rightarrow> Namespace x)"

definition GetName :: "client_object \<Rightarrow> string" where
  "GetName obj = (case obj of ObjShoot x \<Rightarrow> Name x | ObjConfigMap x \<Rightarrow> Name x
     | ObjSecret x \<Rightarrow> Name x | ObjCluster x \<Rightarrow> Name x | ObjCareInstruction x \<Rightarrow> Name x)"

datatype watch_event =
    CreateEvent client_object
  | UpdateEvent (ObjectOld: client_object) (ObjectNew: client_object)
  | DeleteEvent client_object
  | GenericEvent client_object

record 's predicate_Funcs =
  CreateFunc :: "(client_object \<Rightarrow> ('s, bool) state) option"
  UpdateFunc :: "(client_object \<Rightarrow> client_object \<Rightarrow> ('s, bool) state) option"
  DeleteFunc :: "(client_object \<Rightarrow> ('s, bool) state) option"
  GenericFunc :: "(client_object \<Rightarrow> ('s, bool) state) option"

record 's predicate_lib =
  admit :: "'s predicate_Funcs \<Rightarrow> watch_event \<Rightarrow> ('s, bool) state"
  NewPredicateFuncs :: "(client_object \<Rightarrow> ('s, bool) state) \<Rightarrow> 's predicate_Funcs"
  LabelSelectorPredicate :: "LabelSelector \<Rightarrow> go_error + 's predicate_Funcs"
  DeepEqual_spec :: "ShootSpec \<Rightarrow> ShootSpec \<Rightarrow> bool"
  DeepEqual_map :: "gomap \<Rightarrow> gomap \<Rightarrow> bool"
  DeepEqual_addresses :: "AdvertisedAddress slice \<Rightarrow> AdvertisedAddress slice \<Rightarrow> bool"

subsection \<open>The predicates\<close>

definition PredicateFilterBySecretTypes :: "'s predicate_lib \<Rightarrow> string list \<Rightarrow> 's predicate_Funcs" where
  "PredicateFilterBySecretTypes L secretTypes =
     NewPredicateFuncs L (\<lambda>obj. ret (case obj of
        ObjSecret secret \<Rightarrow> secret_Type secret \<in> set secretTypes
      | _ \<Rightarrow> False))"

definition PredicateHasLabel :: "'s predicate_lib \<Rightarrow> string \<Rightarrow> 's predicate_Funcs" where
  "PredicateHasLabel L key =
     NewPredicateFuncs L (\<lambda>obj. ret (map_lookup (GetLabels obj) key \<noteq> None))"

definition PredicateConfigMapDataChanged :: "'s predicate_Funcs" where
  "PredicateConfigMapDataChanged = \<lparr>
     CreateFunc = Some (\<lambda>_. ret True),
     UpdateFunc = Some (\<lambda>old new. ret (case (old, new) of
        (ObjConfigMap oldCM, ObjConfigMap newCM) \<Rightarrow> \<not> maps_Equal (cm_Data oldCM) (cm_Data newCM)
      | _ \<Rightarrow> False)),
     DeleteFunc = Some (\<lambda>_. ret False),
     GenericFunc = None\<rparr>"

definition lastOperation_state :: "Shoot \<Rightarrow> string" where
  "lastOperation_state shoot =
     (case shoot_LastOperation (shoot_Status shoot) of None \<Rightarrow> [] | Some lo \<Rightarrow> lastop_State lo)"

definition shoot_update_relevant :: "'s predicate_lib \<Rightarrow> Shoot \<Rightarrow> Shoot \<Rightarrow> bool" where
  "shoot_update_relevant L oldShoot newShoot =
     (if Generation oldShoot \<noteq> Generation newShoot
         \<or> \<not> DeepEqual_spec L (shoot_Spec oldShoot) (shoot_Spec newShoot)
         \<or> \<not> DeepEqual_map L (Labels oldShoot) (Labels newShoot)
         \<or> \<not> DeepEqual_map L (Annotations oldShoot) (Annotations newShoot)
      then True
      else if \<not> DeepEqual_addresses L (AdvertisedAddresses (shoot_Status oldShoot))
                 (AdvertisedAddresses (shoot_Status newShoot))
      then True
      else if lastOperation_state oldShoot \<noteq> lastOperation_state newShoot
      then True
      else False)"

definition PredicateShootStatusNoise :: "'s predicate_lib \<Rightarrow> 's predicate_Funcs" where
  "PredicateShootStatusNoise L = \<lparr>
     CreateFunc = None,
     UpdateFunc = Some (\<lambda>old new. ret (case (old, new) of
        (ObjShoot oldShoot, ObjShoot newShoot) \<Rightarrow> shoot_update_relevant L oldShoot newShoot
      | _ \<Rightarrow> True)),
     DeleteFunc = None,
     GenericFunc = None\<rparr>"

subsection \<open>The contract of the libraries\<close>

text \<open>
  An unset function admits every event; \<open>NewPredicateFuncs\<close> applies the filter to the object of an
  event, the new one of an update; semantic equality does not tell nil from empty, and equal specs have
  the same workers and the same reference to an authentication ConfigMap.
\<close>

locale predicate_library =
  fixes L :: "'s predicate_lib"
  assumes admit_create: "admit L p (CreateEvent ob) = (case CreateFunc p of None \<Rightarrow> ret True | Some f \<Rightarrow> f ob)"
    and admit_update: "admit L p (UpdateEvent ob ob') = (case UpdateFunc p of None \<Rightarrow> ret True | Some g \<Rightarrow> g ob ob')"
    and admit_delete: "admit L p (DeleteEvent ob) = (case DeleteFunc p of None \<Rightarrow> ret True | Some f \<Rightarrow> f ob)"
    and admit_generic: "admit L p (GenericEvent ob) = (case GenericFunc p of None \<Rightarrow> ret True | Some f \<Rightarrow> f ob)"
    and new_funcs: "NewPredicateFuncs L f =
        \<lparr>CreateFunc = Some f, UpdateFunc = Some (\<lambda>_. f), DeleteFunc = Some f, GenericFunc = Some f\<rparr>"
    and deep_map: "DeepEqual_map L m m' \<longleftrightarrow> maps_Equal m m'"
    and deep_addresses: "DeepEqual_addresses L a a' \<longleftrightarrow> slice_elems a = slice_elems a'"
    and deep_spec_refl: "DeepEqual_spec L sp sp"
    and deep_spec: "DeepEqual_spec L sp sp' \<Longrightarrow>
        slice_elems (Workers sp) = slice_elems (Workers sp')
        \<and> map_option kas_StructuredAuthentication (KubeAPIServer sp)
            = map_option kas_StructuredAuthentication (KubeAPIServer sp')"
begin

lemmas library_laws = admit_create admit_update admit_delete admit_generic new_funcs

lemma irrelevant_update:
  assumes "\<not> shoot_update_relevant L a b"
  shows "Generation a = Generation b" "DeepEqual_spec L (shoot_Spec a) (shoot_Spec b)"
    and "map_lookup (Labels a) = map_lookup (Labels b)"
    and "map_lookup (Annotations a) = map_lookup (Annotations b)"
    and "slice_elems (AdvertisedAddresses (shoot_Status a)) = slice_elems (AdvertisedAddresses (shoot_Status b))"
    and "lastOperation_state a = lastOperation_state b"
  using assms
  by (auto simp: shoot_update_relevant_def deep_map maps_Equal_iff deep_addresses split: if_splits)

lemma status_only_update_irrelevant:
  assumes "Generation b = Generation a" "shoot_Spec b = shoot_Spec a"
    and "Labels b = Labels a" "Annotations b = Annotations a"
    and "AdvertisedAddresses (shoot_Status b) = AdvertisedAddresses (shoot_Status a)"
    and "lastOperation_state b = lastOperation_state a"
  shows "\<not> shoot_update_relevant L a b"
  using assms by (simp add: shoot_update_relevant_def deep_map deep_addresses deep_spec_refl maps_Equal_def)

end

subsection \<open>A realisation\<close>

definition funcs_admit :: "'s predicate_Funcs \<Rightarrow> watch_event \<Rightarrow> ('s, bool) state" where
  "funcs_admit p ev = (case ev of
      CreateEvent ob \<Rightarrow> (case CreateFunc p of None \<Rightarrow> ret True | Some f \<Rightarrow> f ob)
    | UpdateEvent ob ob' \<Rightarrow> (case UpdateFunc p of None \<Rightarrow> ret True | Some g \<Rightarrow> g ob ob')
    | DeleteEvent ob \<Rightarrow> (case DeleteFunc p of None \<Rightarrow> ret True | Some f \<Rightarrow> f ob)
    | GenericEvent ob \<Rightarrow> (case GenericFunc p of None \<Rightarrow> ret True | Some f \<Rightarrow> f ob))"

definition spec_semantic :: "ShootSpec \<Rightarrow> ShootSpec" where
  "spec_semantic sp = sp\<lparr>Workers := Some (slice_elems (Workers sp))\<rparr>"

definition funcs_lib :: "'s predicate_lib" where
  "funcs_lib = \<lparr>
     admit = funcs_admit,
     NewPredicateFuncs = (\<lambda>f. \<lparr>CreateFunc = Some f, UpdateFunc = Some (\<lambda>_. f), DeleteFunc = Some f, GenericFunc = Some f\<rparr>),
     LabelSelectorPredicate = (\<lambda>_. Inl (errors_New ''no selectors'')),
     DeepEqual_spec = (\<lambda>a b. spec_semantic a = spec_semantic b),
     DeepEqual_map = maps_Equal,
     DeepEqual_addresses = (\<lambda>a b. slice_elems a = slice_elems b)\<rparr>"

section \<open>Lemmas\<close>

lemma spec_semantic_eqD:
  assumes "spec_semantic a = spec_semantic b"
  shows "slice_elems (Workers a) = slice_elems (Workers b)" "KubeAPIServer a = KubeAPIServer b"
  using assms by (cases a, cases b, simp add: spec_semantic_def)+

interpretation funcs: predicate_library funcs_lib
  by unfold_locales (auto simp: funcs_lib_def funcs_admit_def dest: spec_semantic_eqD)

text \<open>The ConfigMap predicate admits every creation and no deletion, and an update exactly when the
  data changed: a patch of labels or annotations does not trigger a reconciliation.\<close>

lemma configmap_data_changed:
  assumes "predicate_library L"
  shows "run_state (admit L PredicateConfigMapDataChanged ev) s =
     ((case ev of CreateEvent _ \<Rightarrow> True | DeleteEvent _ \<Rightarrow> False | GenericEvent _ \<Rightarrow> True
       | UpdateEvent old new \<Rightarrow>
           (\<exists>a b k. old = ObjConfigMap a \<and> new = ObjConfigMap b \<and> map_lookup (cm_Data a) k \<noteq> map_lookup (cm_Data b) k)), s)"
  using assms
  by (auto simp: PredicateConfigMapDataChanged_def predicate_library.library_laws maps_Equal_iff
        split: watch_event.splits client_object.splits)

end
