(* ===== verification/Shoot_Controller.thy ===== *)
theory Shoot_Controller
  imports Shoot_Secret Shoot_Auth Shoot_Rbac Predicates
begin

section \<open>The Shoot controller: \<open>controller/shoot/shoot_controller.go\<close>\<close>

text \<open>
  \<open>Reconcile\<close> of one Shoot, split at its early returns: the ownership check of the Greenhouse Cluster,
  the path of a Shoot that is gone, the CA certificate, the Secret, OIDC and RBAC.  A phase that may end
  the reconciliation returns \<open>Inl\<close> with the result and error that the code returns there.  The state is
  the world and the recorded events, \<^typ>\<open>'w sc_state\<close>.

  Also here: the predicates and the ConfigMap watch that \<open>SetupWithManager\<close> hands to the controller
  builder, which is not part of the repository and a parameter.
\<close>

definition shootCACMSuffix :: string where
  "shootCACMSuffix = ''.ca-cluster''"

text \<open>\<open>ctrl.Result\<close>, with the delay in seconds, 0 for none.\<close>

record Result =
  RequeueAfter :: int

definition no_requeue :: Result where
  "no_requeue = \<lparr>RequeueAfter = 0\<rparr>"

type_synonym outcome = "Result \<times> go_error option"

definition GenerateName :: "string \<Rightarrow> string" where
  "GenerateName gardenClusterName = ''shoot-controller-'' @ gardenClusterName"

subsection \<open>Watches\<close>

definition matchesCEL :: "ext \<Rightarrow> 'w ShootController \<Rightarrow> Shoot \<Rightarrow> ('w sc_state, bool) state" where
  "matchesCEL E r shoot =
     (case MatchesCELFilter E (sc_CareInstruction r) shoot of
        Inl err \<Rightarrow> do {
          emitEvent r EventTypeWarning ''CELFilterError''
            (''CEL filter evaluation failed for shoot '' @ Namespace shoot @ ''/'' @ Name shoot @ '': '' @ Error err);
          ret False
        }
      | Inr matches \<Rightarrow> ret matches)"

definition newCELPredicate ::
  "ext \<Rightarrow> 'w sc_state predicate_lib \<Rightarrow> 'w ShootController \<Rightarrow> 'w sc_state predicate_Funcs" where
  "newCELPredicate E L r =
     (let celFilter = NewPredicateFuncs L (\<lambda>obj. case obj of
            ObjShoot shoot \<Rightarrow> matchesCEL E r shoot
          | _ \<Rightarrow> ret False)
      in celFilter\<lparr>DeleteFunc := Some (\<lambda>_. ret True)\<rparr>)"

text \<open>A nil slice when the list call fails.\<close>

definition EnqueueShoots :: "'w ShootController \<Rightarrow> client_object \<Rightarrow> ('w sc_state, obj_key slice) state" where
  "EnqueueShoots r obj = (let ciName = map_get (GetLabels obj) CareInstructionLabel in do {
     shoots \<leftarrow> api (gd_list_shoots (GardenClient r) (GetNamespace obj) None (Some (CareInstructionLabel, ciName)));
     ret (case shoots of
            Inl err \<Rightarrow> None
          | Inr items \<Rightarrow> Some (map (\<lambda>s. (Namespace s, Name s)) items))
   })"

definition shoot_predicates ::
  "ext \<Rightarrow> 'w sc_state predicate_lib \<Rightarrow> 'w ShootController \<Rightarrow> go_error + 'w sc_state predicate_Funcs list" where
  "shoot_predicates E L r =
     (let sel = spec_ShootSelector (ci_Spec (sc_CareInstruction r));
          noise = [PredicateShootStatusNoise L];
          cel = (case sel of
                   None \<Rightarrow> []
                 | Some ss \<Rightarrow> if sel_Expression ss \<noteq> [] then [newCELPredicate E L r] else [])
      in case Option.bind sel sel_LabelSelector of
           None \<Rightarrow> Inr (noise @ cel)
         | Some ls \<Rightarrow>
             (case LabelSelectorPredicate L ls of
                Inl err \<Rightarrow> Inl err
              | Inr labelPredicate \<Rightarrow> Inr (noise @ [labelPredicate] @ cel)))"

text \<open>What the builder is given: the name, the predicates of the Shoot watch, the predicates and the map
  function of the ConfigMap watch.\<close>

record 's registration =
  reg_Named :: string
  reg_For :: "'s predicate_Funcs list"
  reg_Watches_ConfigMap :: "'s predicate_Funcs list"
  reg_MapFunc :: "client_object \<Rightarrow> ('s, obj_key slice) state"

definition SetupWithManager ::
  "ext \<Rightarrow> 'w sc_state predicate_lib \<Rightarrow> ('w sc_state registration \<Rightarrow> ('w sc_state, go_error option) state)
     \<Rightarrow> 'w ShootController \<Rightarrow> ('w sc_state, go_error option) state" where
  "SetupWithManager E L Complete r =
     (case shoot_predicates E L r of
        Inl err \<Rightarrow> ret (Some err)
      | Inr predicates \<Rightarrow> Complete \<lparr>
          reg_Named = sc_Name r,
          reg_For = predicates,
          reg_Watches_ConfigMap = [PredicateHasLabel L CareInstructionLabel, PredicateConfigMapDataChanged],
          reg_MapFunc = EnqueueShoots r\<rparr>)"

subsection \<open>Reconcile\<close>

definition RequestClusterDeletion :: "'w ShootController \<Rightarrow> Cluster \<Rightarrow> ('w sc_state, go_error option) state" where
  "RequestClusterDeletion r existingCluster = do {
     d \<leftarrow> api (gh_delete_cluster (GreenhouseClient r) existingCluster);
     ret (case d of Inl err \<Rightarrow> Some err | Inr _ \<Rightarrow> None)
   }"

text \<open>Lines 142 to 165: the Cluster of the Shoot's name, when there is one this CareInstruction may
  touch.\<close>

definition check_ownership ::
  "'w ShootController \<Rightarrow> obj_key \<Rightarrow> ('w sc_state, outcome + Cluster option) state" where
  "check_ownership r req = do {
     g \<leftarrow> api (gh_get_cluster (GreenhouseClient r) (Namespace (sc_CareInstruction r), snd req));
     ret (case g of
            Inl err \<Rightarrow> if \<not> IsNotFound err then Inl (no_requeue, Some err) else Inr None
          | Inr existingCluster \<Rightarrow>
              (case map_lookup (Labels existingCluster) CareInstructionLabel of
                 Some ownerLabel \<Rightarrow>
                   if ownerLabel \<noteq> Name (sc_CareInstruction r) then Inl (no_requeue, None)
                   else Inr (Some existingCluster)
               | None \<Rightarrow> Inr (Some existingCluster)))
   }"

text \<open>Lines 168 to 199: the Shoot could not be read.\<close>

definition shoot_not_fetched ::
  "'w ShootController \<Rightarrow> obj_key \<Rightarrow> Cluster option \<Rightarrow> go_error \<Rightarrow> ('w sc_state, outcome) state" where
  "shoot_not_fetched r req existing err =
     (let ci = sc_CareInstruction r;
          deleted = do {
            emitEvent r EventTypeNormal ''ShootDeleted'' (''Shoot '' @ fst req @ ''/'' @ snd req @ '' was deleted'');
            ret (no_requeue, IgnoreNotFound (Some err))
          }
      in if IgnoreNotFound (Some err) = None
         then (case existing of
                 Some c \<Rightarrow>
                   if map_lookup (Labels c) CareInstructionLabel = Some (Name ci)
                   then do {
                     d \<leftarrow> RequestClusterDeletion r c;
                     (case d of
                        Some delErr \<Rightarrow> do {
                          emitEvent r EventTypeWarning ''ClusterDeletionFailed''
                            (''Shoot '' @ Namespace ci @ ''/'' @ Name c @ '' deleted, deletion of Cluster ''
                               @ Namespace c @ ''/'' @ Name c @ '' failed with error: '' @ Error delErr);
                          ret (no_requeue, IgnoreNotFound (Some delErr))
                        }
                      | None \<Rightarrow> do {
                          emitEvent r EventTypeNormal ''ClusterDeleted''
                            (''Shoot '' @ Namespace ci @ ''/'' @ Name c @ '' deleted, deletion of Cluster ''
                               @ Namespace c @ ''/'' @ Name c @ '' was requested'');
                          deleted
                        })
                   }
                   else deleted
               | None \<Rightarrow> deleted)
         else ret (no_requeue, IgnoreNotFound (Some err)))"

text \<open>Lines 254 to 268: the CA certificate of the Shoot.\<close>

definition fetch_ca :: "'w ShootController \<Rightarrow> Shoot \<Rightarrow> ('w sc_state, outcome + string) state" where
  "fetch_ca r shoot = do {
     g \<leftarrow> api (gd_get_configmap (GardenClient r) (Namespace shoot, Name shoot @ shootCACMSuffix));
     (case g of
        Inl err \<Rightarrow> do {
          emitEvent r EventTypeWarning ''CAConfigMapFetchFailed''
            (''Failed to fetch CA ConfigMap for shoot '' @ Namespace shoot @ ''/'' @ Name shoot @ '': '' @ Error err);
          ret (Inl (no_requeue, Some err))
        }
      | Inr cm \<Rightarrow>
          (let caData = map_get (cm_Data cm) ''ca.crt'' in
           if caData = []
           then do {
             emitEvent r EventTypeWarning ''CADataMissing''
               (''No CA data found in ConfigMap '' @ Name cm @ '' for shoot '' @ Namespace shoot @ ''/'' @ Name shoot);
             ret (Inl (no_requeue, None))
           }
           else ret (Inr caData)))
   }"

text \<open>Lines 286 to 354: the Secret is created or updated; a concurrent change leads to a retry after
  five seconds.\<close>

definition secret_event :: "Shoot \<Rightarrow> Secret \<Rightarrow> string \<Rightarrow> string" where
  "secret_event shoot secret verb = verb @ '' Greenhouse secret '' @ Name secret @ '' for shoot ''
     @ Namespace shoot @ ''/'' @ Name shoot @ '' with API server URL '' @ apiServerURL shoot"

definition apply_secret ::
  "ext \<Rightarrow> 'w ShootController \<Rightarrow> Shoot \<Rightarrow> string \<Rightarrow> ('w sc_state, outcome + unit) state" where
  "apply_secret E r shoot caData = (let ci = sc_CareInstruction r in do {
     res \<leftarrow> api (gh_create_or_update_secret (GreenhouseClient r)
                   (desired_secret E ci shoot caData) (mutate_secret E ci shoot caData));
     (case res of
        Inl err \<Rightarrow>
          if IsConflict err \<or> strings_Contains (Error err) ''the object has been modified''
          then ret (Inl (\<lparr>RequeueAfter = 5\<rparr>, None))
          else do {
            emitEvent r EventTypeWarning ''SecretOperationFailed''
              (''Failed to create or update secret for shoot '' @ Namespace shoot @ ''/'' @ Name shoot @ '': '' @ Error err);
            ret (Inl (no_requeue, Some err))
          }
      | Inr (OperationResultCreated, secret) \<Rightarrow> do {
          emitEvent r EventTypeNormal ''SecretCreated'' (secret_event shoot secret ''Created'');
          ret (Inr ())
        }
      | Inr (OperationResultUpdated, secret) \<Rightarrow> do {
          emitEvent r EventTypeNormal ''SecretUpdated'' (secret_event shoot secret ''Updated'');
          ret (Inr ())
        }
      | Inr (OperationResultNone, secret) \<Rightarrow> ret (Inr ()))
   })"

text \<open>Lines 356 to 373.  \<open>ConfigureOIDCAuthentication\<close> writes through the pointer it is given, so the
  Shoot is returned.\<close>

definition apply_oidc :: "'w ShootController \<Rightarrow> Shoot \<Rightarrow> ('w sc_state, outcome + Shoot) state" where
  "apply_oidc r shoot = (let ci = sc_CareInstruction r in
     if AuthenticationConfigMapName (ci_Spec ci) \<noteq> []
     then do {
       (res, shoot') \<leftarrow> api (ConfigureOIDCAuthentication (GreenhouseClient r) (GardenClient r) ci shoot);
       (case res of
          Inl err \<Rightarrow> do {
            emitEvent r EventTypeWarning ''OIDCConfigurationFailed''
              (''Failed to configure OIDC authentication for shoot '' @ Namespace shoot' @ ''/'' @ Name shoot' @ '': '' @ Error err);
            ret (Inl (no_requeue, Some err))
          }
        | Inr changed \<Rightarrow>
            if changed
            then do {
              emitEvent r EventTypeNormal ''OIDCConfigured''
                (''Successfully configured OIDC authentication for shoot '' @ Namespace shoot' @ ''/'' @ Name shoot');
              ret (Inr shoot')
            }
            else ret (Inr shoot'))
     }
     else ret (Inr shoot))"

text \<open>Lines 375 to 394.\<close>

definition apply_rbac :: "'w kube_lib \<Rightarrow> 'w ShootController \<Rightarrow> Shoot \<Rightarrow> ('w sc_state, outcome) state" where
  "apply_rbac K r shoot =
     (if EnableRBAC (ci_Spec (sc_CareInstruction r))
      then do {
        c \<leftarrow> api (getShootClusterClient K (GardenClient r) shoot);
        (case c of
           Inl err \<Rightarrow> do {
             emitEvent r EventTypeWarning ''ShootClientFetchFailed''
               (''Failed to get Shoot cluster client for shoot '' @ Namespace shoot @ ''/'' @ Name shoot @ '': '' @ Error err);
             ret (no_requeue, Some err)
           }
         | Inr shootClient \<Rightarrow> do {
             SetRBAC r shootClient (Name shoot);
             ret (no_requeue, None)
           })
      }
      else ret (no_requeue, None))"

text \<open>Lines 201 to 394: the Shoot exists.\<close>

definition reconcile_existing ::
  "ext \<Rightarrow> 'w kube_lib \<Rightarrow> 'w ShootController \<Rightarrow> Shoot \<Rightarrow> ('w sc_state, outcome) state" where
  "reconcile_existing E K r shoot =
     (if apiServerURL shoot = []
      then do {
        emitEvent r EventTypeWarning ''APIServerURLMissing''
          (''No external API server URL found for shoot '' @ Namespace shoot @ ''/'' @ Name shoot);
        ret (no_requeue, None)
      }
      else do {
        ca \<leftarrow> fetch_ca r shoot;
        (case ca of
           Inl out \<Rightarrow> ret out
         | Inr caData \<Rightarrow> do {
             sec \<leftarrow> apply_secret E r shoot caData;
             (case sec of
                Inl out \<Rightarrow> ret out
              | Inr _ \<Rightarrow> do {
                  oidc \<leftarrow> apply_oidc r shoot;
                  (case oidc of
                     Inl out \<Rightarrow> ret out
                   | Inr shoot' \<Rightarrow> apply_rbac K r shoot')
                })
           })
      })"

definition Reconcile ::
  "ext \<Rightarrow> 'w kube_lib \<Rightarrow> 'w ShootController \<Rightarrow> obj_key \<Rightarrow> ('w sc_state, outcome) state" where
  "Reconcile E K r req = do {
     own \<leftarrow> check_ownership r req;
     (case own of
        Inl out \<Rightarrow> ret out
      | Inr existing \<Rightarrow> do {
          g \<leftarrow> api (gd_get_shoot (GardenClient r) (fst req, snd req));
          (case g of
             Inl err \<Rightarrow> shoot_not_fetched r req existing err
           | Inr shoot \<Rightarrow> reconcile_existing E K r shoot)
        })
   }"

subsection \<open>The contract of the servers, as far as Secrets are concerned\<close>

text \<open>Secrets of Greenhouse change only through the \<open>CreateOrUpdate\<close> call.\<close>

definition client_keeps :: "('w \<Rightarrow> 'x) \<Rightarrow> 'w shoot_client \<Rightarrow> bool" where
  "client_keeps f c \<longleftrightarrow> (\<forall>n. keeps f (sh_get_crb c n)) \<and> (\<forall>b. keeps f (sh_delete_crb c b))
     \<and> (\<forall>b m. keeps f (sh_create_or_update_crb c b m))"

locale secret_server = create_or_update stored obj_key_of "gh_create_or_update_secret gh"
  for stored :: "'w \<Rightarrow> obj_key \<Rightarrow> Secret option" and gh :: "'w gh_client" +
  fixes gd :: "'w garden_client" and K :: "'w kube_lib"
  assumes gh_calls: "keeps stored (gh_get_cluster gh k)" "keeps stored (gh_delete_cluster gh cl)"
      "keeps stored (gh_get_configmap gh k)" "keeps stored (gh_patch_configmap gh cm cm')"
    and gd_calls: "keeps stored (gd_get_shoot gd k)" "keeps stored (gd_patch_shoot gd sh sh')"
      "keeps stored (gd_update_shoot gd sh)" "keeps stored (gd_get_configmap gd k)"
      "keeps stored (gd_create_or_update_configmap gd cm f)" "keeps stored (gd_create_adminkubeconfig gd sh n)"
    and new_client: "keeps stored (shoot_client_New K cfg)"
      "run_state (shoot_client_New K cfg) w = (Inr c, w') \<Longrightarrow> client_keeps stored c"

section \<open>Lemmas\<close>

lemma keeps_api [keeps_intros]: "keeps f m \<Longrightarrow> keeps (\<lambda>s. f (sc_world s)) (api m)"
  by (simp add: keeps_def split_beta)

lemma keeps_emitEvent [keeps_intros]: "keeps (\<lambda>s. f (sc_world s)) (emitEvent r t re m)"
  by (simp add: keeps_def)

lemma SetRBAC_keeps:
  assumes "client_keeps f c"
  shows "keeps (\<lambda>s. f (sc_world s)) (SetRBAC r c n)"
proof -
  from assms have c: "\<And>n. keeps f (sh_get_crb c n)" "\<And>b. keeps f (sh_delete_crb c b)"
    "\<And>b m. keeps f (sh_create_or_update_crb c b m)" by (auto simp: client_keeps_def)
  have "keeps (\<lambda>s. f (sc_world s)) (apply_crb r c n)"
    unfolding apply_crb_def Let_def
    by (intro keeps_intros c) (auto intro: keeps_intros split: OperationResult.splits)
  then show ?thesis unfolding SetRBAC_def Let_def by (intro keeps_intros c)
qed

context secret_server
begin

lemmas calls = gh_calls gd_calls new_client(1)

lemma oidc_keeps: "keeps (\<lambda>s. stored (sc_world s)) (api (ConfigureOIDCAuthentication gh gd ci sh))"
  unfolding ConfigureOIDCAuthentication_def fetch_auth_content_def ensure_shoot_label_def
    AnnotateShootForReconcile_def Let_def
  by (intro keeps_intros calls)

lemma apply_oidc_keeps:
  assumes "GreenhouseClient r = gh" "GardenClient r = gd"
  shows "keeps (\<lambda>s. stored (sc_world s)) (apply_oidc r sh)"
  unfolding apply_oidc_def Let_def assms by (intro keeps_intros oidc_keeps)

lemma getShootClusterClient_keeps: "keeps stored (getShootClusterClient K gd sh)"
  unfolding getShootClusterClient_def by (intro keeps_intros calls)

lemma getShootClusterClient_client:
  "run_state (getShootClusterClient K gd sh) w = (Inr c, w') \<Longrightarrow> client_keeps stored c"
  unfolding getShootClusterClient_def
  by (auto simp: split_beta split: sum.splits option.splits prod.splits intro: new_client(2))

lemma apply_rbac_keeps:
  assumes "GardenClient r = gd"
  shows "keeps (\<lambda>s. stored (sc_world s)) (apply_rbac K r sh)"
proof (rule keepsI)
  fix s a s'
  assume run: "run_state (apply_rbac K r sh) s = (a, s')"
  obtain c w where c: "run_state (getShootClusterClient K gd sh) (sc_world s) = (c, w)" by fastforce
  have w: "stored w = stored (sc_world s)" by (rule keepsD [OF getShootClusterClient_keeps c])
  show "stored (sc_world s') = stored (sc_world s)"
  proof (cases c)
    case (Inl e)
    with run c w assms show ?thesis by (auto simp: apply_rbac_def split: if_splits)
  next
    case (Inr cl)
    obtain s2 where s2: "run_state (SetRBAC r cl (Name sh)) (s\<lparr>sc_world := w\<rparr>) = ((), s2)"
      by (cases "run_state (SetRBAC r cl (Name sh)) (s\<lparr>sc_world := w\<rparr>)") auto
    have "stored (sc_world s2) = stored w"
      using keepsD [OF SetRBAC_keeps [OF getShootClusterClient_client [OF c [unfolded Inr]]] s2] by simp
    with run c w s2 Inr assms show ?thesis by (auto simp: apply_rbac_def split: if_splits)
  qed
qed

lemma fetch_ca_keeps:
  assumes "GardenClient r = gd"
  shows "keeps (\<lambda>s. stored (sc_world s)) (fetch_ca r sh)"
  unfolding fetch_ca_def Let_def assms by (intro keeps_intros calls)

lemma check_ownership_keeps:
  assumes "GreenhouseClient r = gh"
  shows "keeps (\<lambda>s. stored (sc_world s)) (check_ownership r req)"
  unfolding check_ownership_def Let_def assms by (intro keeps_intros calls)

lemma shoot_not_fetched_keeps:
  assumes "GreenhouseClient r = gh"
  shows "keeps (\<lambda>s. stored (sc_world s)) (shoot_not_fetched r req ex e)"
  unfolding shoot_not_fetched_def RequestClusterDeletion_def Let_def assms by (intro keeps_intros calls)

lemma apply_secret_frame:
  assumes "GreenhouseClient r = gh" "run_state (apply_secret E r sh ca) s = (res, s')"
    and "k \<noteq> (Namespace (sc_CareInstruction r), Name sh)"
  shows "stored (sc_world s') k = stored (sc_world s) k"
proof -
  let ?ci = "sc_CareInstruction r"
  obtain c w where c: "run_state (gh_create_or_update_secret gh (desired_secret E ?ci sh ca)
      (mutate_secret E ?ci sh ca)) (sc_world s) = (c, w)" by fastforce
  from assms(3) have "k \<noteq> obj_key_of (desired_secret E ?ci sh ca)"
    by (simp add: obj_key_of_def desired_secret_def)
  from cou_frame [OF c this] have "stored w k = stored (sc_world s) k" .
  with assms(1,2) c show ?thesis
    by (auto simp: apply_secret_def Let_def split: sum.splits OperationResult.splits if_splits)
qed

lemma apply_secret_writes:
  assumes "GreenhouseClient r = gh" "run_state (apply_secret E r sh ca) s = (Inr (), s')"
  shows "stored (sc_world s') (Namespace (sc_CareInstruction r), Name sh) =
     Some (mutate_secret E (sc_CareInstruction r) sh ca
        (case stored (sc_world s) (Namespace (sc_CareInstruction r), Name sh) of
           None \<Rightarrow> desired_secret E (sc_CareInstruction r) sh ca | Some z \<Rightarrow> z))"
proof -
  let ?ci = "sc_CareInstruction r"
  obtain c w where c: "run_state (gh_create_or_update_secret gh (desired_secret E ?ci sh ca)
      (mutate_secret E ?ci sh ca)) (sc_world s) = (c, w)" by fastforce
  have key: "obj_key_of (desired_secret E ?ci sh ca) = (Namespace ?ci, Name sh)"
    by (simp add: obj_key_of_def desired_secret_def)
  from assms c obtain op y where "c = Inr (op, y)"
    by (cases c) (auto simp: apply_secret_def Let_def split: if_splits)
  from cou_result [OF c [unfolded this], unfolded key] assms c this show ?thesis
    by (auto simp: apply_secret_def Let_def split: OperationResult.splits if_splits)
qed

lemma reconcile_existing_frame:
  assumes "GreenhouseClient r = gh" "GardenClient r = gd" "run_state (reconcile_existing E K r sh) s = (out, s')"
    and "k \<noteq> (Namespace (sc_CareInstruction r), Name sh)"
  shows "stored (sc_world s') k = stored (sc_world s) k"
proof -
  obtain ca s1 where ca: "run_state (fetch_ca r sh) s = (ca, s1)" by fastforce
  obtain se s2 where se: "run_state (apply_secret E r sh (projr ca)) s1 = (se, s2)" by fastforce
  obtain oi s3 where oi: "run_state (apply_oidc r sh) s2 = (oi, s3)" by fastforce
  obtain rb s4 where rb: "run_state (apply_rbac K r (projr oi)) s3 = (rb, s4)" by fastforce
  note eqs = keepsD [OF fetch_ca_keeps ca] apply_secret_frame [OF assms(1) se assms(4)]
    keepsD [OF apply_oidc_keeps oi] keepsD [OF apply_rbac_keeps rb]
  from assms(1-3) ca se oi rb eqs show ?thesis
    by (auto simp: reconcile_existing_def split: if_splits sum.splits)
qed

lemma reconcile_existing_writes:
  assumes "GreenhouseClient r = gh" "GardenClient r = gd"
    and "run_state (reconcile_existing E K r sh) s = ((res, None), s')" "RequeueAfter res = 0"
    and "apiServerURL sh \<noteq> []" "run_state (fetch_ca r sh) s = (Inr ca, s1)"
  shows "stored (sc_world s') (Namespace (sc_CareInstruction r), Name sh) =
     Some (mutate_secret E (sc_CareInstruction r) sh ca
        (case stored (sc_world s) (Namespace (sc_CareInstruction r), Name sh) of
           None \<Rightarrow> desired_secret E (sc_CareInstruction r) sh ca | Some z \<Rightarrow> z))"
proof -
  obtain se s2 where se: "run_state (apply_secret E r sh ca) s1 = (se, s2)" by fastforce
  have ok: "se = Inr ()"
  proof (cases se)
    case (Inl out)
    with se have "snd out \<noteq> None \<or> RequeueAfter (fst out) \<noteq> 0"
      by (auto simp: apply_secret_def Let_def split_beta split: sum.splits OperationResult.splits if_splits)
    with assms(3-6) se Inl show ?thesis by (auto simp: reconcile_existing_def)
  qed simp
  obtain oi s3 where oi: "run_state (apply_oidc r sh) s2 = (oi, s3)" by fastforce
  obtain rb s4 where rb: "run_state (apply_rbac K r (projr oi)) s3 = (rb, s4)" by fastforce
  note eqs = keepsD [OF fetch_ca_keeps assms(6)] apply_secret_writes [OF assms(1) se [unfolded ok]]
    keepsD [OF apply_oidc_keeps oi] keepsD [OF apply_rbac_keeps rb]
  from assms se ok oi rb eqs show ?thesis
    by (auto simp: reconcile_existing_def split: sum.splits)
qed

end

text \<open>The in-memory servers keep the contract.\<close>

definition mem_kube :: "mem_world kube_lib" where
  "mem_kube = \<lparr>NewClientConfigFromBytes = Inr, ClientConfig = Inr,
     AddToScheme_corev1 = None, AddToScheme_rbacv1 = None, shoot_client_New = (\<lambda>_. ret (Inr mem_shoot))\<rparr>"

lemma mem_secret_server: "secret_server (\<lambda>w. fmlookup (mem_secrets w)) mem_gh mem_garden mem_kube"
proof -
  have "create_or_update (\<lambda>w. fmlookup (mem_secrets w)) obj_key_of (gh_create_or_update_secret mem_gh)"
    by (simp add: mem_gh_def mem_secret_cou.create_or_update_axioms)
  then show ?thesis
    by (intro secret_server.intro secret_server_axioms.intro)
       (auto simp: keeps_def client_keeps_def mem_gh_def mem_garden_def mem_kube_def mem_shoot_def split: option.splits)
qed

interpretation mem_secrets: secret_server "\<lambda>w. fmlookup (mem_secrets w)" mem_gh mem_garden mem_kube
  by (rule mem_secret_server)

text \<open>The client with another \<open>Delete\<close>: only the deletion path can tell the difference.\<close>

definition with_delete :: "(Cluster \<Rightarrow> ('w, unit) call) \<Rightarrow> 'w ShootController \<Rightarrow> 'w ShootController" where
  "with_delete d r = r\<lparr>GreenhouseClient := (GreenhouseClient r)\<lparr>gh_delete_cluster := d\<rparr>\<rparr>"

lemma with_delete_frame:
  "sc_CareInstruction (with_delete d r) = sc_CareInstruction r" "GardenClient (with_delete d r) = GardenClient r"
  "emitEvent (with_delete d r) t re m = emitEvent r t re m"
  "check_ownership (with_delete d r) req = check_ownership r req"
  "reconcile_existing E K (with_delete d r) sh = reconcile_existing E K r sh"
proof -
  show 1: "sc_CareInstruction (with_delete d r) = sc_CareInstruction r" "GardenClient (with_delete d r) = GardenClient r"
    by (simp_all add: with_delete_def)
  show 2: "emitEvent (with_delete d r) t re m = emitEvent r t re m" for t re m
    by (simp add: emitEvent_def with_delete_def)
  have 3: "gh_get_cluster (GreenhouseClient (with_delete d r)) = gh_get_cluster (GreenhouseClient r)"
    "gh_create_or_update_secret (GreenhouseClient (with_delete d r)) = gh_create_or_update_secret (GreenhouseClient r)"
    "gh_get_configmap (GreenhouseClient (with_delete d r)) = gh_get_configmap (GreenhouseClient r)"
    "gh_patch_configmap (GreenhouseClient (with_delete d r)) = gh_patch_configmap (GreenhouseClient r)"
    by (simp_all add: with_delete_def)
  show "check_ownership (with_delete d r) req = check_ownership r req"
    unfolding check_ownership_def 1 3 ..
  show "reconcile_existing E K (with_delete d r) sh = reconcile_existing E K r sh"
    unfolding reconcile_existing_def fetch_ca_def apply_secret_def apply_oidc_def apply_rbac_def
      SetRBAC_def apply_crb_def ConfigureOIDCAuthentication_def fetch_auth_content_def 1 2 3 ..
qed

lemma run_check_ownership:
  assumes "run_state (gh_get_cluster (GreenhouseClient r) (Namespace (sc_CareInstruction r), snd req)) (sc_world s) = (g, w)"
  shows "run_state (check_ownership r req) s = (case g of
      Inl err \<Rightarrow> if \<not> IsNotFound err then Inl (no_requeue, Some err) else Inr None
    | Inr c \<Rightarrow> (case map_lookup (Labels c) CareInstructionLabel of
         Some owner \<Rightarrow> if owner \<noteq> Name (sc_CareInstruction r) then Inl (no_requeue, None) else Inr (Some c)
       | None \<Rightarrow> Inr (Some c)), s\<lparr>sc_world := w\<rparr>)"
  using assms by (simp add: check_ownership_def)

section \<open>Properties\<close>

text \<open>C9: a Shoot whose Greenhouse Cluster carries the label of another CareInstruction is left alone: the
  reconciliation ends without error after the one read of the Cluster, with no write, no further call and
  no event.\<close>

theorem foreign_cluster_untouched:
  assumes "run_state (gh_get_cluster (GreenhouseClient r) (Namespace (sc_CareInstruction r), snd req)) (sc_world s)
      = (Inr cluster, w)"
    and "map_lookup (Labels cluster) CareInstructionLabel = Some owner" "owner \<noteq> Name (sc_CareInstruction r)"
  shows "run_state (Reconcile E K r req) s = ((no_requeue, None), s\<lparr>sc_world := w\<rparr>)"
  using assms by (simp add: Reconcile_def run_check_ownership [OF assms(1)])

text \<open>C6: a Cluster is deleted only if it carries the label of this CareInstruction and the Shoot is
  really gone: in every other case the reconciliation runs exactly as it would with any other
  implementation of the delete call, that is, it never makes the call.\<close>

theorem cluster_deleted_only_if_owned:
  assumes "run_state (gh_get_cluster (GreenhouseClient r) (Namespace (sc_CareInstruction r), snd req)) (sc_world s) = (g, w)"
    and "run_state (gd_get_shoot (GardenClient r) req) w = (sh, w')"
    and "\<not> ((\<exists>c. g = Inr c \<and> map_lookup (Labels c) CareInstructionLabel = Some (Name (sc_CareInstruction r)))
            \<and> (\<exists>e. sh = Inl e \<and> IsNotFound e))"
  shows "run_state (Reconcile E K (with_delete d r) req) s = run_state (Reconcile E K r req) s"
proof -
  have "shoot_not_fetched (with_delete d r) req ex e = shoot_not_fetched r req ex e"
    if "ex = None \<or> map_lookup (Labels (the ex)) CareInstructionLabel \<noteq> Some (Name (sc_CareInstruction r)) \<or> \<not> IsNotFound e"
    for ex e using that by (cases ex) (auto simp: shoot_not_fetched_def with_delete_frame Let_def)
  then show ?thesis using assms
    by (auto simp: Reconcile_def with_delete_frame run_check_ownership [OF assms(1)]
        split: sum.splits option.splits if_splits)
qed

text \<open>C31: when the Shoot is gone and its Cluster belongs to this CareInstruction, deletion of that Cluster
  is requested; success records \<open>ClusterDeleted\<close> and \<open>ShootDeleted\<close>, in this order, and returns no
  error; a failure records \<open>ClusterDeletionFailed\<close> only and is returned for a retry unless the
  Cluster was gone already.\<close>

theorem shoot_gone_deletes_cluster:
  assumes "run_state (gh_get_cluster (GreenhouseClient r) (Namespace (sc_CareInstruction r), snd req)) (sc_world s) = (Inr c, w)"
    and "map_lookup (Labels c) CareInstructionLabel = Some (Name (sc_CareInstruction r))"
    and "run_state (gd_get_shoot (GardenClient r) req) w = (Inl e, w')" "IsNotFound e"
    and "run_state (gh_delete_cluster (GreenhouseClient r) c) w' = (d, w'')" "EventRecorder r"
    and "run_state (Reconcile E K r req) s = ((res, err), s')"
  shows "sc_world s' = w'' \<and> res = no_requeue
     \<and> err = (case d of Inr _ \<Rightarrow> None | Inl de \<Rightarrow> IgnoreNotFound (Some de))
     \<and> map ev_Reason (sc_events s') = map ev_Reason (sc_events s) @
         (case d of Inr _ \<Rightarrow> [''ClusterDeleted'', ''ShootDeleted''] | Inl _ \<Rightarrow> [''ClusterDeletionFailed''])"
  using assms by (auto simp: Reconcile_def run_check_ownership [OF assms(1)] shoot_not_fetched_def
      RequestClusterDeletion_def Let_def split: sum.splits)

text \<open>C35: without an external API server URL on the Shoot nothing is written: the reconciliation ends
  after the two reads, without error or retry, and records the one warning.\<close>

theorem no_url_no_write:
  assumes "run_state (check_ownership r req) s = (Inr ex, s1)"
    and "run_state (gd_get_shoot (GardenClient r) req) (sc_world s1) = (Inr sh, w)"
    and "\<forall>a \<in> set (slice_elems (AdvertisedAddresses (shoot_Status sh))). addr_Name a \<noteq> ''external'' \<or> addr_URL a = []"
    and "EventRecorder r" "run_state (Reconcile E K r req) s = (out, s')"
  shows "out = (no_requeue, None) \<and> sc_world s' = w
     \<and> map ev_Reason (sc_events s') = map ev_Reason (sc_events s1) @ [''APIServerURLMissing'']"
proof -
  have "fold (\<lambda>addr url. if addr_Name addr = ''external'' then addr_URL addr else url) as [] = []"
    if "\<forall>a \<in> set as. addr_Name a \<noteq> ''external'' \<or> addr_URL a = []" for as
    using that by (induction as rule: rev_induct) auto
  from this [OF assms(3)] have "apiServerURL sh = []"
    by (cases "AdvertisedAddresses (shoot_Status sh)") (simp_all add: apiServerURL_def slice_elems_def)
  with assms show ?thesis by (auto simp: Reconcile_def reconcile_existing_def)
qed

text \<open>C1: on servers that keep the \<open>CreateOrUpdate\<close> contract, a reconciliation that returns neither an
  error nor a retry, for a Shoot with an external URL and a CA certificate, leaves the Secret of the Shoot in
  the CareInstruction's namespace exactly as the mutate function makes it from what was stored before, or
  from the desired Secret when there was none; OIDC and RBAC configuration that follow do not disturb it.\<close>

theorem reconcile_writes_secret:
  assumes "secret_server stored (GreenhouseClient r) (GardenClient r) K"
    and "run_state (check_ownership r req) s = (Inr ex, s1)"
    and "run_state (gd_get_shoot (GardenClient r) req) (sc_world s1) = (Inr sh, w)"
    and "apiServerURL sh \<noteq> []" "run_state (fetch_ca r sh) (s1\<lparr>sc_world := w\<rparr>) = (Inr ca, s2)"
    and "run_state (Reconcile E K r req) s = ((res, None), s')" "RequeueAfter res = 0"
  shows "stored (sc_world s') (Namespace (sc_CareInstruction r), Name sh) =
     Some (mutate_secret E (sc_CareInstruction r) sh ca
        (case stored (sc_world s) (Namespace (sc_CareInstruction r), Name sh) of
           None \<Rightarrow> desired_secret E (sc_CareInstruction r) sh ca | Some z \<Rightarrow> z))"
proof -
  note srv = assms(1)
  have "stored (sc_world s1) = stored (sc_world s)"
    using keepsD [OF secret_server.check_ownership_keeps [OF srv refl] assms(2)] .
  moreover have "stored w = stored (sc_world s1)"
    by (rule keepsD [OF secret_server.gd_calls(1) [OF srv] assms(3)])
  moreover have "run_state (reconcile_existing E K r sh) (s1\<lparr>sc_world := w\<rparr>) = ((res, None), s')"
    using assms(2,3,6) by (simp add: Reconcile_def)
  from secret_server.reconcile_existing_writes [OF srv refl refl this assms(7,4,5)]
  have "stored (sc_world s') (Namespace (sc_CareInstruction r), Name sh) =
     Some (mutate_secret E (sc_CareInstruction r) sh ca
        (case stored w (Namespace (sc_CareInstruction r), Name sh) of
           None \<Rightarrow> desired_secret E (sc_CareInstruction r) sh ca | Some z \<Rightarrow> z))" by simp
  ultimately show ?thesis by simp
qed

text \<open>C7: whatever happens during a reconciliation, errors and early returns included, a Secret changes
  only if it is the one of the Shoot that was read, in the CareInstruction's own namespace, and only after
  the ownership check let the reconciliation pass.\<close>

theorem reconcile_touches_one_secret:
  assumes "secret_server stored (GreenhouseClient r) (GardenClient r) K"
    and "run_state (check_ownership r req) s = (own, s1)"
    and "run_state (gd_get_shoot (GardenClient r) req) (sc_world s1) = (g, w)"
    and "run_state (Reconcile E K r req) s = (out, s')"
    and "stored (sc_world s') k \<noteq> stored (sc_world s) k"
  shows "\<exists>ex sh. own = Inr ex \<and> g = Inr sh \<and> k = (Namespace (sc_CareInstruction r), Name sh)"
proof -
  note srv = assms(1)
  have e1: "stored (sc_world s1) = stored (sc_world s)"
    using keepsD [OF secret_server.check_ownership_keeps [OF srv refl] assms(2)] .
  have e2: "stored w = stored (sc_world s1)"
    by (rule keepsD [OF secret_server.gd_calls(1) [OF srv] assms(3)])
  from assms(2,4,5) e1 obtain ex where own: "own = Inr ex" by (cases own) (simp_all add: Reconcile_def)
  show ?thesis
  proof (cases g)
    case (Inl err)
    with assms(2-4) own have "run_state (shoot_not_fetched r req ex err) (s1\<lparr>sc_world := w\<rparr>) = (out, s')"
      by (simp add: Reconcile_def)
    from keepsD [OF secret_server.shoot_not_fetched_keeps [OF srv refl] this] e1 e2 assms(5) show ?thesis by simp
  next
    case (Inr sh)
    with assms(2-4) own have "run_state (reconcile_existing E K r sh) (s1\<lparr>sc_world := w\<rparr>) = (out, s')"
      by (simp add: Reconcile_def)
    from secret_server.reconcile_existing_frame [OF srv refl refl this, of k] e1 e2 assms(5) own Inr
    show ?thesis by auto
  qed
qed

text \<open>C33: a write of the Secret that loses against a concurrent change, by error class or by the text of
  the error, ends the reconciliation with a retry after five seconds, without error and without an
  event, and neither OIDC nor RBAC is touched.\<close>

theorem secret_conflict_requeues:
  assumes "apiServerURL sh \<noteq> []" "run_state (fetch_ca r sh) s = (Inr ca, s1)"
    and "run_state (gh_create_or_update_secret (GreenhouseClient r) (desired_secret E (sc_CareInstruction r) sh ca)
           (mutate_secret E (sc_CareInstruction r) sh ca)) (sc_world s1) = (Inl err, w)"
    and "IsConflict err \<or> (\<exists>pre post. Error err = pre @ ''the object has been modified'' @ post)"
  shows "run_state (reconcile_existing E K r sh) s = ((\<lparr>RequeueAfter = 5\<rparr>, None), s1\<lparr>sc_world := w\<rparr>)"
proof -
  from assms(4) have "IsConflict err \<or> strings_Contains (Error err) ''the object has been modified''"
    by (auto simp: strings_Contains_def sublist_def)
  with assms(1-3) show ?thesis by (simp add: reconcile_existing_def apply_secret_def Let_def)
qed

text \<open>C34: OIDC comes before RBAC and guards it: when configuring OIDC fails, the error is returned, the
  failure is recorded and nothing of RBAC happens, whatever client library is in use.\<close>

theorem oidc_failure_stops:
  assumes "apiServerURL sh \<noteq> []" "run_state (fetch_ca r sh) s = (Inr ca, s1)"
    and "run_state (apply_secret E r sh ca) s1 = (Inr (), s2)"
    and "AuthenticationConfigMapName (ci_Spec (sc_CareInstruction r)) \<noteq> []"
    and "run_state (ConfigureOIDCAuthentication (GreenhouseClient r) (GardenClient r) (sc_CareInstruction r) sh) (sc_world s2)
           = ((Inl err, sh'), w)"
    and "EventRecorder r" "run_state (reconcile_existing E K r sh) s = ((res, e), s')"
  shows "e = Some err \<and> res = no_requeue \<and> sc_world s' = w
     \<and> map ev_Reason (sc_events s') = map ev_Reason (sc_events s2) @ [''OIDCConfigurationFailed'']"
  using assms by (auto simp: reconcile_existing_def apply_oidc_def Let_def)

text \<open>C32: the noise filter loses nothing that matters: if it drops an update of a Shoot, then the API
  server URL, the desired Secret, the effect of the mutate function on any stored Secret and the name of the
  authentication ConfigMap are the same for the old and the new Shoot.\<close>

theorem dropped_update_is_irrelevant:
  assumes "predicate_library L" "lawful_propagator E selects" "obj_key_of b = obj_key_of a"
    and "run_state (admit L (PredicateShootStatusNoise L) (UpdateEvent (ObjShoot a) (ObjShoot b))) s = (False, s')"
  shows "apiServerURL b = apiServerURL a \<and> desired_secret E ci b ca = desired_secret E ci a ca
     \<and> mutate_secret E ci b ca z = mutate_secret E ci a ca z \<and> auth_configMapName ci b = auth_configMapName ci a"
proof -
  note lib = assms(1)
  have "\<not> shoot_update_relevant L a b"
    using assms(4) by (simp add: PredicateShootStatusNoise_def predicate_library.admit_update [OF lib])
  note irr = predicate_library.irrelevant_update [OF lib this] predicate_library.deep_spec [OF lib]
  have url: "apiServerURL b = apiServerURL a"
    using irr(5) by (auto simp: apiServerURL_def slice_elems_def split: option.splits)
  have workers: "isWorkerless b = isWorkerless a" using irr(7) [OF irr(2)] by (simp add: isWorkerless_def)
  have annots: "secretAnnotations E ci b = secretAnnotations E ci a" by (simp add: secretAnnotations_def url workers)
  have copy: "CopyLabels E b x ks = CopyLabels E a x ks" if "Labels x \<noteq> None" for x ks
  proof -
    note lp = assms(2) [unfolded lawful_propagator_def]
    have "Labels (CopyLabels E b x ks) = Labels (CopyLabels E a x ks)"
      by (rule gmap_eqI) (use that irr(3) in
        \<open>auto simp: label_propagator.copy_lookup [OF lp] label_propagator.copy_allocated [OF lp] simp del: not_None_eq\<close>)
    then show ?thesis by (metis label_propagator.copy_frame [OF lp])
  qed
  have "auth_configMapName ci b = auth_configMapName ci a"
    using irr(7) [OF irr(2)] by (auto simp: auth_configMapName_def split: option.splits)
  moreover have "CopyLabels E b (x\<lparr>Labels := maps_Copy m m'\<rparr>) ks = CopyLabels E a (x\<lparr>Labels := maps_Copy m m'\<rparr>) ks"
    for x m m' ks by (rule copy) (simp del: not_None_eq)
  ultimately show ?thesis using url workers annots assms(3)
    by (simp add: desired_secret_def mutate_secret_def mutate_annotations_def obj_key_of_def Let_def)
qed

text \<open>C36: the CEL predicate admits a created, updated or generic Shoot exactly when the expression
  evaluates to true for it, the new one of an update; an evaluation error rejects the Shoot and records
  \<open>CELFilterError\<close>; a deletion is always admitted, so the Cluster of a Shoot is cleaned up even if
  the Shoot stopped matching.\<close>

theorem cel_predicate:
  assumes "predicate_library L" "EventRecorder r"
    and "ev \<in> {CreateEvent (ObjShoot sh), UpdateEvent old (ObjShoot sh), GenericEvent (ObjShoot sh)}"
    and "run_state (admit L (newCELPredicate E L r) ev) s = (b, s')"
  shows "b = (MatchesCELFilter E (sc_CareInstruction r) sh = Inr True) \<and> sc_world s' = sc_world s
     \<and> map ev_Reason (sc_events s') = map ev_Reason (sc_events s)
         @ (if isl (MatchesCELFilter E (sc_CareInstruction r) sh) then [''CELFilterError''] else [])
     \<and> run_state (admit L (newCELPredicate E L r) (DeleteEvent ob)) s = (True, s)"
  using assms(2-4)
  by (auto simp: newCELPredicate_def matchesCEL_def predicate_library.library_laws [OF assms(1)] split: sum.splits)

end
