(* ===== verification/Witnesses.thy ===== *)
theory Witnesses
  imports Shoot_Statuses Shoot_Controller
begin

section \<open>Concrete inputs\<close>

text \<open>
  A small landscape on the in-memory servers: one CareInstruction \<open>org/ci\<close>, one Shoot
  \<open>garden/s1\<close> with its CA certificate and a Greenhouse ConfigMap with an authentication
  configuration.  Every property with hypotheses is applied here to an input on which they hold.
\<close>

definition ex_ext :: ext where
  "ex_ext = \<lparr>
     SetConditions = list_SetConditions, GetConditionByType = list_GetConditionByType,
     IsTrue = list_IsTrue, IsReadyTrue = list_IsReadyTrue,
     cel_EvaluateTyped = (\<lambda>e sh. if e = ''true'' then Inr True else Inl (errors_New ''no such expression'')),
     LabelSelectorAsSelector = (\<lambda>_. Inr (\<lambda>_. True)),
     CopyLabels = glob_CopyLabels,
     SecretAPIServerURLAnnotation = ''greenhouse.sap/oidc-api-server-url'',
     ClusterWorkerlessAnnotation = ''greenhouse.sap/cluster-workerless'',
     SecretTypeOIDCConfig = ''greenhouse.sap/oidc'',
     SecretTypeKubeConfig = ''greenhouse.sap/kubeconfig''\<rparr>"

definition ex_spec :: CareInstructionSpec where
  "ex_spec = \<lparr>GardenClusterKubeConfigSecretName = \<lparr>skr_Name = [], skr_Key = []\<rparr>,
     GardenClusterName = ''seed'', GardenNamespace = ''garden'', spec_ShootSelector = None,
     PropagateLabels = Some [''region''], AdditionalLabels = None,
     AdditionalAnnotations = Some (fmupd ''team'' ''a'' fmempty),
     EnableRBAC = True, AuthenticationConfigMapName = ''auth''\<rparr>"

definition ex_status :: CareInstructionStatus where
  "ex_status = \<lparr>Conditions = None, Shoots = None, TotalTargetShoots = 0, CreatedClusters = 0,
     FailedClusters = 0, ShootControllerRestartCount = 0\<rparr>"

definition ex_ci :: CareInstruction where
  "ex_ci = \<lparr>Name = ''ci'', Namespace = ''org'', Labels = None, Annotations = None, Generation = 1, Finalizers = None, OwnerReferences = None, DeletionTimestamp = None,
     ci_Spec = ex_spec, ci_Status = ex_status\<rparr>"

definition ex_shoot :: Shoot where
  "ex_shoot = \<lparr>Name = ''s1'', Namespace = ''garden'', Labels = Some (fmupd ''region'' ''eu'' fmempty),
     Annotations = None, Generation = 1, Finalizers = None, OwnerReferences = None, DeletionTimestamp = None,
     shoot_Spec = \<lparr>Workers = Some [''w''], KubeAPIServer = None, shootspec_Rest = []\<rparr>,
     shoot_Status = \<lparr>AdvertisedAddresses = Some [\<lparr>addr_Name = ''external'', addr_URL = ''https://s1''\<rparr>],
        shoot_LastOperation = None, shootstatus_Rest = []\<rparr>\<rparr>"

definition ex_ca_cm :: ConfigMap where
  "ex_ca_cm = \<lparr>Name = ''s1.ca-cluster'', Namespace = ''garden'', Labels = None, Annotations = None,
     Generation = 0, Finalizers = None, OwnerReferences = None, DeletionTimestamp = None, cm_Data = Some (fmupd ''ca.crt'' ''CERT'' fmempty)\<rparr>"

definition ex_auth_cm :: ConfigMap where
  "ex_auth_cm = \<lparr>Name = ''auth'', Namespace = ''org'', Labels = None, Annotations = None,
     Generation = 0, Finalizers = None, OwnerReferences = None, DeletionTimestamp = None, cm_Data = Some (fmupd ''config.yaml'' ''jwt: []'' fmempty)\<rparr>"

definition ex_cluster :: "string \<Rightarrow> Cluster" where
  "ex_cluster owner = \<lparr>Name = ''s1'', Namespace = ''org'', Labels = Some (fmupd CareInstructionLabel owner fmempty),
     Annotations = None, Generation = 0, Finalizers = None, OwnerReferences = None, DeletionTimestamp = None, cluster_Conditions = None\<rparr>"

definition ex_world :: mem_world where
  "ex_world = empty_world\<lparr>mem_shoots := fmupd (''garden'', ''s1'') ex_shoot fmempty,
     mem_gd_configmaps := fmupd (''garden'', ''s1.ca-cluster'') ex_ca_cm fmempty,
     mem_gh_configmaps := fmupd (''org'', ''auth'') ex_auth_cm fmempty\<rparr>"

definition ex_sc :: "mem_world ShootController" where
  "ex_sc = \<lparr>GreenhouseClient = mem_gh, GardenClient = mem_garden, sc_Name = ''shoot-controller-ci'',
     sc_CareInstruction = ex_ci, EventRecorder = True\<rparr>"

definition ex_state :: "mem_world \<Rightarrow> mem_world sc_state" where
  "ex_state w = \<lparr>sc_world = w, sc_events = []\<rparr>"

lemmas ex_defs = ex_ext_def ex_spec_def ex_status_def ex_ci_def ex_shoot_def ex_ca_cm_def ex_auth_cm_def
  ex_cluster_def ex_world_def empty_world_def ex_sc_def mem_kube_def ex_state_def

lemma ex_lawful: "lawful_propagator ex_ext glob_selects" "lawful_conditions ex_ext" "lawful_keys ex_ext"
  "valid_annotation_keys ex_ci"
proof -
  show "lawful_propagator ex_ext glob_selects"
    by (simp add: lawful_propagator_def ex_ext_def glob.label_propagator_axioms)
  show "lawful_conditions ex_ext"
    by (simp add: lawful_conditions_def ex_ext_def list_conds.status_conditions_axioms)
  show "lawful_keys ex_ext"
    by (simp add: lawful_keys_def ex_ext_def propagateLabelsAnnotation_def managedAnnotationKeysAnnotation_def)
  show "valid_annotation_keys ex_ci"
    by (auto simp: valid_annotation_keys_def ex_ci_def ex_spec_def split: if_splits)
qed

section \<open>Witnesses: statuses\<close>

theorem shoot_status_precedence_witness:
  "let s = \<lparr>ss_Name = ''s1'', ss_Status = ShootStatusFailed, ss_Message = []\<rparr> in
   s \<in> set (fst (buildShootStatuses ex_ext [(''s0'', ''off'')] [ex_cluster ''ci''] []))
   \<and> (case map_of [(''s0'', ''off'')] (ss_Name s) of
        Some reason \<Rightarrow> ss_Status s = ShootStatusExcluded \<and> ss_Message s = reason
      | None \<Rightarrow> ss_Status s = (if some_failure ex_ext [ex_cluster ''ci''] [] (ss_Name s)
                               then ShootStatusFailed else ShootStatusOnboarded))"
proof -
  let ?s = "\<lparr>ss_Name = ''s1'', ss_Status = ShootStatusFailed, ss_Message = []\<rparr>"
  have "?s \<in> set (fst (buildShootStatuses ex_ext [(''s0'', ''off'')] [ex_cluster ''ci''] []))" by code_simp
  with shoot_status_precedence [of "[(''s0'', ''off'')]" "[]" ?s ex_ext "[ex_cluster ''ci'']"] show ?thesis by simp
qed

theorem buildShootStatuses_order_irrelevant_witness:
  "buildShootStatuses ex_ext [(''b'', ''x''), (''a'', ''y'')] [ex_cluster ''ci''] [] =
   buildShootStatuses ex_ext [(''a'', ''y''), (''b'', ''x'')] [ex_cluster ''ci''] []"
  by (rule buildShootStatuses_order_irrelevant) simp_all

section \<open>Witnesses: the Secret\<close>

theorem mutate_secret_idempotent_witness:
  "let s = desired_secret ex_ext ex_ci ex_shoot ''CERT''; f = mutate_secret ex_ext ex_ci ex_shoot ''CERT''
   in f (f s) = f s"
  unfolding Let_def by (rule mutate_secret_idempotent [OF ex_lawful(1,4)])

theorem secret_data_roundtrip_witness:
  "Option.bind (map_lookup (secret_Data (mutate_secret ex_ext ex_ci ex_shoot ''CERT''
     (desired_secret ex_ext ex_ci ex_shoot ''CERT''))) ''ca.crt'') base64_decode = Some ''CERT''"
  by (rule secret_data_roundtrip [OF ex_lawful(1), THEN conjunct1])

theorem stale_annotations_removed_witness:
  "let old = ex_ci; new = ex_ci\<lparr>ci_Spec := ex_spec\<lparr>AdditionalAnnotations := None\<rparr>\<rparr>
   in map_lookup (Annotations (mutate_secret ex_ext new ex_shoot ''CERT''
        (mutate_secret ex_ext old ex_shoot ''CERT'' (desired_secret ex_ext old ex_shoot ''CERT'')))) ''team'' = None"
  unfolding Let_def
  by (subst stale_annotations_removed [OF ex_lawful(1,4)])
     (simp_all add: ex_defs managedAnnotationKeysAnnotation_def secretAnnotations_def Let_def
        propagateLabelsAnnotation_def isWorkerless_def slice_elems_def)

theorem reserved_annotations_win_witness:
  "map_lookup (Annotations (mutate_secret ex_ext ex_ci ex_shoot ''CERT'' (desired_secret ex_ext ex_ci ex_shoot ''CERT'')))
     (SecretAPIServerURLAnnotation ex_ext) = Some ''https://s1''"
  by (subst reserved_annotations_win [OF ex_lawful(1,3), THEN conjunct2, THEN conjunct1])
     (simp add: apiServerURL_def ex_shoot_def)

theorem secret_owner_label_witness:
  "map_lookup (Labels (mutate_secret ex_ext ex_ci ex_shoot ''CERT'' (desired_secret ex_ext ex_ci ex_shoot ''CERT'')))
     CareInstructionLabel = Some ''ci''"
  by (subst secret_owner_label [OF ex_lawful(1)])
     (simp_all add: ex_ci_def ex_spec_def glob_selects_def slice_elems_def CareInstructionLabel_def)

theorem owner_label_overwritten_by_shoot_witness:
  "map_lookup (Labels (mutate_secret ex_ext
      (ex_ci\<lparr>ci_Spec := ex_spec\<lparr>PropagateLabels := Some [CareInstructionLabel]\<rparr>\<rparr>)
      (ex_shoot\<lparr>Labels := Some (fmupd CareInstructionLabel ''mallory'' fmempty)\<rparr>) ''CERT''
      (desired_secret ex_ext ex_ci ex_shoot ''CERT''))) CareInstructionLabel = Some ''mallory''"
  by (rule owner_label_overwritten_by_shoot [OF ex_lawful(1)]) (simp_all add: slice_elems_def)

section \<open>Witnesses: OIDC and RBAC\<close>

lemmas mem_defs = mem_gh_def mem_garden_def mem_shoot_def obj_key_of_def

lemmas oidc_defs = ConfigureOIDCAuthentication_def fetch_auth_content_def auth_configMapName_def garden_configMap_def
  mutate_garden_configMap_def ensure_shoot_label_def reference_configMap_def AnnotateShootForReconcile_def
  authConfigMapKey_def

lemma ex_oidc_run: "\<exists>sh' w'. run_state (ConfigureOIDCAuthentication mem_gh mem_garden ex_ci ex_shoot) ex_world = ((Inr True, sh'), w')"
  by (simp add: oidc_defs mem_defs ex_defs AuthConfigMapLabel_def CareInstructionLabel_def Let_def map_get_def)

theorem oidc_configured_witness:
  "\<exists>w' content w1 cm s. snd (run_state (ConfigureOIDCAuthentication mem_gh mem_garden ex_ci ex_shoot) ex_world) = w'
    \<and> run_state (fetch_auth_content mem_gh ex_ci) ex_world = (Inr content, w1)
    \<and> fmlookup (mem_gd_configmaps w') (Namespace ex_shoot, auth_configMapName ex_ci ex_shoot) = Some cm
    \<and> cm_Data cm = Some (fmupd authConfigMapKey content fmempty)
    \<and> fmlookup (mem_shoots w') (obj_key_of ex_shoot) = Some s
    \<and> references s (auth_configMapName ex_ci ex_shoot)"
proof -
  obtain sh' w' where run: "run_state (ConfigureOIDCAuthentication mem_gh mem_garden ex_ci ex_shoot) ex_world = ((Inr True, sh'), w')"
    using ex_oidc_run by blast
  have "fmlookup (mem_shoots ex_world) (obj_key_of ex_shoot) = Some ex_shoot" "Name ex_ci \<noteq> []"
    by (simp_all add: ex_world_def ex_shoot_def ex_ci_def obj_key_of_def)
  from oidc_configured [OF mem_garden_lawful run this] show ?thesis unfolding run snd_conv by blast
qed

lemma ex_oidc_second:
  "\<exists>sh' w1 s r w2. run_state (ConfigureOIDCAuthentication mem_gh mem_garden ex_ci ex_shoot) ex_world = ((Inr True, sh'), w1)
     \<and> fmlookup (mem_shoots w1) (obj_key_of ex_shoot) = Some s \<and> obj_key_of s = obj_key_of ex_shoot
     \<and> fst (run_state (fetch_auth_content mem_gh ex_ci) w1) = fst (run_state (fetch_auth_content mem_gh ex_ci) ex_world)
     \<and> run_state (ConfigureOIDCAuthentication mem_gh mem_garden ex_ci s) w1 = ((Inr False, r), w2)"
  by (simp add: oidc_defs mem_defs ex_defs AuthConfigMapLabel_def CareInstructionLabel_def Let_def map_get_def map_put_def)

theorem oidc_settles_witness:
  "\<exists>b sh' w1 s b' s' w2. run_state (ConfigureOIDCAuthentication mem_gh mem_garden ex_ci ex_shoot) ex_world = ((b, sh'), w1)
     \<and> run_state (ConfigureOIDCAuthentication mem_gh mem_garden ex_ci s) w1 = ((b', s'), w2)
     \<and> b = Inr True \<and> b' = Inr False \<and> s' = s \<and> fmlookup (mem_shoots w2) = fmlookup (mem_shoots w1)"
proof -
  obtain sh' w1 s r w2 where x: "run_state (ConfigureOIDCAuthentication mem_gh mem_garden ex_ci ex_shoot) ex_world = ((Inr True, sh'), w1)"
    "fmlookup (mem_shoots w1) (obj_key_of ex_shoot) = Some s" "obj_key_of s = obj_key_of ex_shoot"
    "fst (run_state (fetch_auth_content mem_gh ex_ci) w1) = fst (run_state (fetch_auth_content mem_gh ex_ci) ex_world)"
    "run_state (ConfigureOIDCAuthentication mem_gh mem_garden ex_ci s) w1 = ((Inr False, r), w2)"
    using ex_oidc_second by blast
  have "fmlookup (mem_shoots ex_world) (obj_key_of ex_shoot) = Some ex_shoot" "Name ex_ci \<noteq> []"
    by (simp_all add: ex_world_def ex_shoot_def ex_ci_def obj_key_of_def)
  from oidc_settles [OF mem_garden_lawful x(1) this x(2-5)] x show ?thesis by metis
qed

text \<open>Clients of servers that cannot be reached: every call fails.\<close>

definition offline :: go_error where
  "offline = errors_New ''connection refused''"

definition offline_gh :: "'w gh_client" where
  "offline_gh = \<lparr>gh_get_cluster = (\<lambda>_. ret (Inl offline)), gh_list_clusters = (\<lambda>_ _. ret (Inl offline)),
     gh_patch_cluster = (\<lambda>_ _. ret (Inl offline)), gh_delete_cluster = (\<lambda>_. ret (Inl offline)),
     gh_get_secret = (\<lambda>_. ret (Inl offline)), gh_create_or_update_secret = (\<lambda>_ _. ret (Inl offline)),
     gh_get_configmap = (\<lambda>_. ret (Inl offline)), gh_patch_configmap = (\<lambda>_ _. ret (Inl offline)),
     gh_list_careinstructions = (\<lambda>_. ret (Inl offline)), gh_patch_careinstruction = (\<lambda>_ _. ret (Inl offline))\<rparr>"

definition offline_gd :: "'w garden_client" where
  "offline_gd = \<lparr>gd_get_shoot = (\<lambda>_. ret (Inl offline)), gd_list_shoots = (\<lambda>_ _ _. ret (Inl offline)),
     gd_patch_shoot = (\<lambda>_ _. ret (Inl offline)), gd_update_shoot = (\<lambda>_. ret (Inl offline)),
     gd_get_configmap = (\<lambda>_. ret (Inl offline)), gd_create_or_update_configmap = (\<lambda>_ _. ret (Inl offline)),
     gd_create_adminkubeconfig = (\<lambda>_ _. ret (Inl offline))\<rparr>"

definition offline_sc :: "'w ShootController" where
  "offline_sc = \<lparr>GreenhouseClient = offline_gh, GardenClient = offline_gd, sc_Name = ''shoot-controller-ci'',
     sc_CareInstruction = ex_ci, EventRecorder = True\<rparr>"

theorem SetRBAC_establishes_witness:
  "\<exists>c. cw_crb (sc_world (snd (run_state (SetRBAC offline_sc crb_server ''s1'')
        \<lparr>sc_world = \<lparr>cw_crb = Some new_crb\<rparr>, sc_events = []\<rparr>))) = Some c
     \<and> crb_RoleRef c = desiredRoleRef
     \<and> map sub_Name (the (crb_Subjects c)) = [''greenhouse:system:serviceaccount:org:s1'']"
proof -
  let ?s = "\<lparr>sc_world = \<lparr>cw_crb = Some new_crb\<rparr>, sc_events = []\<rparr>"
  have "run_state (SetRBAC offline_sc crb_server ''s1'') ?s = ((), snd (run_state (SetRBAC offline_sc crb_server ''s1'') ?s))"
    by (cases "run_state (SetRBAC offline_sc crb_server ''s1'') ?s") simp
  from SetRBAC_establishes [OF crb_mem.rbac_server_axioms this] show ?thesis
    by (auto simp: greenhouseSA_def ex_ci_def offline_sc_def)
qed

section \<open>Witnesses: the Shoot controller\<close>

definition ex_req :: obj_key where
  "ex_req = (''garden'', ''s1'')"

lemmas sc_defs = Reconcile_def check_ownership_def reconcile_existing_def fetch_ca_def apply_secret_def
  apply_oidc_def apply_rbac_def shoot_not_fetched_def RequestClusterDeletion_def SetRBAC_def apply_crb_def
  getShootClusterClient_def shootCACMSuffix_def no_requeue_def ex_req_def

definition ex_world_owned :: "string \<Rightarrow> mem_world" where
  "ex_world_owned owner = ex_world\<lparr>mem_clusters := fmupd (''org'', ''s1'') (ex_cluster owner) fmempty\<rparr>"

theorem foreign_cluster_untouched_witness:
  "run_state (Reconcile ex_ext mem_kube ex_sc ex_req) (ex_state (ex_world_owned ''other''))
     = ((no_requeue, None), ex_state (ex_world_owned ''other''))"
  by (subst foreign_cluster_untouched [where cluster = "ex_cluster ''other''" and w = "ex_world_owned ''other''" and owner = "''other''"])
     (simp_all add: ex_defs ex_world_owned_def mem_defs ex_req_def)

definition ex_world_gone :: mem_world where
  "ex_world_gone = (ex_world_owned ''ci'')\<lparr>mem_shoots := fmempty\<rparr>"

theorem cluster_deleted_only_if_owned_witness:
  "run_state (Reconcile ex_ext mem_kube (with_delete (\<lambda>_. ret (Inl offline)) ex_sc) ex_req) (ex_state (ex_world_owned ''ci''))
     = run_state (Reconcile ex_ext mem_kube ex_sc ex_req) (ex_state (ex_world_owned ''ci''))"
  by (rule cluster_deleted_only_if_owned [where g = "Inr (ex_cluster ''ci'')" and w = "ex_world_owned ''ci''"
        and sh = "Inr ex_shoot" and w' = "ex_world_owned ''ci''"])
     (simp_all add: ex_defs ex_world_owned_def mem_defs ex_req_def)

theorem shoot_gone_deletes_cluster_witness:
  "let s' = snd (run_state (Reconcile ex_ext mem_kube ex_sc ex_req) (ex_state ex_world_gone))
   in sc_world s' = ex_world_gone\<lparr>mem_clusters := fmempty\<rparr>
      \<and> map ev_Reason (sc_events s') = [''ClusterDeleted'', ''ShootDeleted'']"
proof -
  have "run_state (gh_get_cluster mem_gh (''org'', ''s1'')) ex_world_gone = (Inr (ex_cluster ''ci''), ex_world_gone)"
    "run_state (gd_get_shoot mem_garden ex_req) ex_world_gone = (Inl not_found, ex_world_gone)"
    "run_state (gh_delete_cluster mem_gh (ex_cluster ''ci'')) ex_world_gone = (Inr (), ex_world_gone\<lparr>mem_clusters := fmempty\<rparr>)"
    by (simp_all add: ex_world_gone_def ex_world_owned_def mem_defs ex_defs ex_req_def fmdrop_fmupd)
  note r = this
  show ?thesis
    using shoot_gone_deletes_cluster [of ex_sc ex_req "ex_state ex_world_gone" "ex_cluster ''ci''" ex_world_gone
        not_found ex_world_gone "Inr ()" "ex_world_gone\<lparr>mem_clusters := fmempty\<rparr>" ex_ext mem_kube
        "fst (fst (run_state (Reconcile ex_ext mem_kube ex_sc ex_req) (ex_state ex_world_gone)))"
        "snd (fst (run_state (Reconcile ex_ext mem_kube ex_sc ex_req) (ex_state ex_world_gone)))"
        "snd (run_state (Reconcile ex_ext mem_kube ex_sc ex_req) (ex_state ex_world_gone))"] r
    by (simp add: ex_sc_def ex_state_def ex_ci_def ex_cluster_def ex_req_def)
qed

text \<open>A Shoot that Gardener has not yet given an address.\<close>

definition ex_world_no_url :: mem_world where
  "ex_world_no_url = ex_world\<lparr>mem_shoots := fmupd (''garden'', ''s1'')
     (ex_shoot\<lparr>shoot_Status := (shoot_Status ex_shoot)\<lparr>AdvertisedAddresses := None\<rparr>\<rparr>) fmempty\<rparr>"

theorem no_url_no_write_witness:
  "let (out, s') = run_state (Reconcile ex_ext mem_kube ex_sc ex_req) (ex_state ex_world_no_url)
   in out = (no_requeue, None) \<and> sc_world s' = ex_world_no_url
      \<and> map ev_Reason (sc_events s') = [''APIServerURLMissing'']"
proof -
  obtain out s' where run: "run_state (Reconcile ex_ext mem_kube ex_sc ex_req) (ex_state ex_world_no_url) = (out, s')"
    by fastforce
  have 1: "run_state (check_ownership ex_sc ex_req) (ex_state ex_world_no_url) = (Inr None, ex_state ex_world_no_url)"
    by (simp add: check_ownership_def mem_defs ex_defs ex_world_no_url_def)
  have 2: "run_state (gd_get_shoot (GardenClient ex_sc) ex_req) (sc_world (ex_state ex_world_no_url)) =
      (Inr (ex_shoot\<lparr>shoot_Status := (shoot_Status ex_shoot)\<lparr>AdvertisedAddresses := None\<rparr>\<rparr>), ex_world_no_url)"
    by (simp add: mem_defs ex_sc_def ex_state_def ex_world_no_url_def ex_req_def)
  from no_url_no_write [OF 1 2 _ _ run] show ?thesis unfolding run
    by (simp add: slice_elems_def ex_sc_def ex_state_def)
qed

lemma ex_reconcile_phases:
  "run_state (check_ownership ex_sc ex_req) (ex_state ex_world) = (Inr None, ex_state ex_world)"
  "run_state (gd_get_shoot (GardenClient ex_sc) ex_req) (sc_world (ex_state ex_world)) = (Inr ex_shoot, ex_world)"
  "run_state (fetch_ca ex_sc ex_shoot) (ex_state ex_world\<lparr>sc_world := ex_world\<rparr>) = (Inr ''CERT'', ex_state ex_world)"
  "apiServerURL ex_shoot \<noteq> []"
  by (simp_all add: check_ownership_def fetch_ca_def shootCACMSuffix_def mem_defs ex_defs ex_req_def map_get_def apiServerURL_def)

lemma ex_apply_secret:
  "\<exists>X evs. run_state (apply_secret ex_ext ex_sc ex_shoot ''CERT'') (ex_state ex_world) =
     (Inr (), \<lparr>sc_world = ex_world\<lparr>mem_secrets := X\<rparr>, sc_events = evs\<rparr>)"
  by (simp add: apply_secret_def Let_def mem_gh_def ex_sc_def ex_state_def ex_world_def empty_world_def)

lemma ex_apply_oidc:
  "\<exists>sh s'. run_state (apply_oidc ex_sc ex_shoot) \<lparr>sc_world = ex_world\<lparr>mem_secrets := X\<rparr>, sc_events = evs\<rparr> = (Inr sh, s')"
  by (simp add: apply_oidc_def oidc_defs mem_defs ex_defs AuthConfigMapLabel_def CareInstructionLabel_def Let_def map_get_def)

lemma ex_apply_rbac: "\<exists>s'. run_state (apply_rbac mem_kube ex_sc sh) s = ((no_requeue, None), s')"
  by (simp add: apply_rbac_def getShootClusterClient_def mem_kube_def ex_sc_def ex_ci_def ex_spec_def mem_garden_def split: prod.split)

lemma ex_reconcile_run:
  "\<exists>s'. run_state (Reconcile ex_ext mem_kube ex_sc ex_req) (ex_state ex_world) = ((no_requeue, None), s')"
proof -
  obtain X evs where 1: "run_state (apply_secret ex_ext ex_sc ex_shoot ''CERT'') (ex_state ex_world) =
     (Inr (), \<lparr>sc_world = ex_world\<lparr>mem_secrets := X\<rparr>, sc_events = evs\<rparr>)" using ex_apply_secret by blast
  obtain sh s2 where 2: "run_state (apply_oidc ex_sc ex_shoot)
     \<lparr>sc_world = ex_world\<lparr>mem_secrets := X\<rparr>, sc_events = evs\<rparr> = (Inr sh, s2)" using ex_apply_oidc by blast
  obtain s3 where 3: "run_state (apply_rbac mem_kube ex_sc sh) s2 = ((no_requeue, None), s3)" using ex_apply_rbac by blast
  have "ex_state ex_world\<lparr>sc_world := ex_world\<rparr> = ex_state ex_world" by (simp add: ex_state_def)
  with ex_reconcile_phases 1 2 3 show ?thesis by (simp add: Reconcile_def reconcile_existing_def ex_req_def)
qed

lemma ex_secret_created:
  assumes "run_state (Reconcile ex_ext mem_kube ex_sc ex_req) (ex_state ex_world) = ((no_requeue, None), s')"
  shows "fmlookup (mem_secrets (sc_world s')) (''org'', ''s1'') \<noteq> None"
proof -
  have "run_state (reconcile_existing ex_ext mem_kube ex_sc ex_shoot) (ex_state ex_world\<lparr>sc_world := ex_world\<rparr>) = ((no_requeue, None), s')"
    using assms ex_reconcile_phases by (simp add: Reconcile_def)
  from mem_secrets.reconcile_existing_writes [OF _ _ this _ ex_reconcile_phases(4,3)] show ?thesis
    by (simp add: ex_sc_def ex_ci_def ex_shoot_def no_requeue_def)
qed

theorem reconcile_writes_secret_witness:
  "\<exists>s'. run_state (Reconcile ex_ext mem_kube ex_sc ex_req) (ex_state ex_world) = ((no_requeue, None), s')
     \<and> fmlookup (mem_secrets (sc_world s')) (''org'', ''s1'') =
         Some (mutate_secret ex_ext ex_ci ex_shoot ''CERT'' (desired_secret ex_ext ex_ci ex_shoot ''CERT''))"
proof -
  obtain s' where run: "run_state (Reconcile ex_ext mem_kube ex_sc ex_req) (ex_state ex_world) = ((no_requeue, None), s')"
    using ex_reconcile_run by blast
  have srv: "secret_server (\<lambda>w. fmlookup (mem_secrets w)) (GreenhouseClient ex_sc) (GardenClient ex_sc) mem_kube"
    by (simp add: ex_sc_def mem_secret_server)
  from reconcile_writes_secret [OF srv ex_reconcile_phases(1,2,4,3) run] run show ?thesis
    by (simp add: no_requeue_def) (simp add: ex_sc_def ex_ci_def ex_shoot_def ex_state_def ex_world_def empty_world_def)
qed

theorem reconcile_touches_one_secret_witness:
  "\<exists>s'. run_state (Reconcile ex_ext mem_kube ex_sc ex_req) (ex_state ex_world) = ((no_requeue, None), s')
     \<and> (\<exists>k. fmlookup (mem_secrets (sc_world s')) k \<noteq> fmlookup (mem_secrets ex_world) k \<and> k = (''org'', ''s1''))"
proof -
  obtain s' where run: "run_state (Reconcile ex_ext mem_kube ex_sc ex_req) (ex_state ex_world) = ((no_requeue, None), s')"
    using ex_reconcile_run by blast
  have srv: "secret_server (\<lambda>w. fmlookup (mem_secrets w)) (GreenhouseClient ex_sc) (GardenClient ex_sc) mem_kube"
    by (simp add: ex_sc_def mem_secret_server)
  have "fmlookup (mem_secrets (sc_world (ex_state ex_world))) (''org'', ''s1'') = None"
    by (simp add: ex_state_def ex_world_def empty_world_def)
  with ex_secret_created [OF run] have "fmlookup (mem_secrets (sc_world s')) (''org'', ''s1'') \<noteq> fmlookup (mem_secrets (sc_world (ex_state ex_world))) (''org'', ''s1'')"
    by simp
  from reconcile_touches_one_secret [OF srv ex_reconcile_phases(1,2) run this] this run show ?thesis
    by (auto simp: ex_sc_def ex_ci_def ex_shoot_def ex_state_def)
qed

text \<open>A Greenhouse API server on which every write of a Secret meets a concurrent change.\<close>

definition conflict_gh :: "mem_world gh_client" where
  "conflict_gh = mem_gh\<lparr>gh_create_or_update_secret :=
     (\<lambda>_ _. ret (Inl (GoError StatusReasonConflict ''the object has been modified'')))\<rparr>"

definition conflict_sc :: "mem_world ShootController" where
  "conflict_sc = ex_sc\<lparr>GreenhouseClient := conflict_gh\<rparr>"

theorem secret_conflict_requeues_witness:
  "run_state (reconcile_existing ex_ext mem_kube conflict_sc ex_shoot) (ex_state ex_world)
     = ((\<lparr>RequeueAfter = 5\<rparr>, None), ex_state ex_world)"
proof -
  have ca: "run_state (fetch_ca conflict_sc ex_shoot) (ex_state ex_world) = (Inr ''CERT'', ex_state ex_world)"
    by (simp add: fetch_ca_def shootCACMSuffix_def mem_defs conflict_sc_def ex_defs map_get_def)
  have "ex_state ex_world\<lparr>sc_world := ex_world\<rparr> = ex_state ex_world" by (simp add: ex_state_def)
  then show ?thesis
    using secret_conflict_requeues [OF ex_reconcile_phases(4) ca, of ex_ext
       "GoError StatusReasonConflict ''the object has been modified''" ex_world mem_kube]
    by (simp add: conflict_sc_def conflict_gh_def IsConflict_def ex_state_def)
qed

text \<open>Without the Greenhouse ConfigMap, OIDC cannot be configured.\<close>

definition ex_world_no_auth :: mem_world where
  "ex_world_no_auth = ex_world\<lparr>mem_gh_configmaps := fmempty\<rparr>"

theorem oidc_failure_stops_witness:
  "\<exists>res err s'. run_state (reconcile_existing ex_ext mem_kube ex_sc ex_shoot) (ex_state ex_world_no_auth) = ((res, Some err), s')
     \<and> IsNotFound err \<and> mem_crbs (sc_world s') = fmempty \<and> last (map ev_Reason (sc_events s')) = ''OIDCConfigurationFailed''"
proof -
  obtain res e s' where run: "run_state (reconcile_existing ex_ext mem_kube ex_sc ex_shoot) (ex_state ex_world_no_auth) = ((res, e), s')"
    by (metis prod.collapse)
  have ca: "run_state (fetch_ca ex_sc ex_shoot) (ex_state ex_world_no_auth) = (Inr ''CERT'', ex_state ex_world_no_auth)"
    by (simp add: fetch_ca_def shootCACMSuffix_def mem_defs ex_defs map_get_def ex_world_no_auth_def)
  obtain X evs where sec: "run_state (apply_secret ex_ext ex_sc ex_shoot ''CERT'') (ex_state ex_world_no_auth) =
     (Inr (), \<lparr>sc_world = ex_world_no_auth\<lparr>mem_secrets := X\<rparr>, sc_events = evs\<rparr>)"
    by (simp add: apply_secret_def Let_def mem_gh_def ex_sc_def ex_state_def ex_world_no_auth_def ex_world_def empty_world_def)
  have "\<exists>err sh'. run_state (ConfigureOIDCAuthentication mem_gh mem_garden ex_ci ex_shoot) (ex_world_no_auth\<lparr>mem_secrets := X\<rparr>)
     = ((Inl err, sh'), ex_world_no_auth\<lparr>mem_secrets := X\<rparr>) \<and> IsNotFound err"
    by (simp add: oidc_defs mem_defs ex_world_no_auth_def)
  then obtain err sh' where oidc: "run_state (ConfigureOIDCAuthentication (GreenhouseClient ex_sc) (GardenClient ex_sc)
      (sc_CareInstruction ex_sc) ex_shoot) (sc_world \<lparr>sc_world = ex_world_no_auth\<lparr>mem_secrets := X\<rparr>, sc_events = evs\<rparr>)
     = ((Inl err, sh'), ex_world_no_auth\<lparr>mem_secrets := X\<rparr>)" "IsNotFound err" by (auto simp: ex_sc_def)
  have "AuthenticationConfigMapName (ci_Spec (sc_CareInstruction ex_sc)) \<noteq> []" "EventRecorder ex_sc"
    by (simp_all add: ex_sc_def ex_ci_def ex_spec_def)
  from oidc_failure_stops [OF ex_reconcile_phases(4) ca sec this(1) oidc(1) this(2) run] oidc(2) run show ?thesis
    by (simp add: ex_world_no_auth_def ex_world_def empty_world_def)
qed

theorem dropped_update_is_irrelevant_witness:
  "let b = ex_shoot\<lparr>shoot_Status := (shoot_Status ex_shoot)\<lparr>shootstatus_Rest := ''probed''\<rparr>\<rparr>
   in mutate_secret ex_ext ex_ci b ''CERT'' (desired_secret ex_ext ex_ci ex_shoot ''CERT'')
      = mutate_secret ex_ext ex_ci ex_shoot ''CERT'' (desired_secret ex_ext ex_ci ex_shoot ''CERT'')"
proof -
  let ?b = "ex_shoot\<lparr>shoot_Status := (shoot_Status ex_shoot)\<lparr>shootstatus_Rest := ''probed''\<rparr>\<rparr>"
  have "\<not> shoot_update_relevant funcs_lib ex_shoot ?b"
    by (rule funcs.status_only_update_irrelevant) (simp_all add: lastOperation_state_def)
  then have drop: "run_state (admit funcs_lib (PredicateShootStatusNoise funcs_lib)
      (UpdateEvent (ObjShoot ex_shoot) (ObjShoot ?b))) (ex_state ex_world) = (False, ex_state ex_world)"
    by (simp add: PredicateShootStatusNoise_def funcs.library_laws)
  show ?thesis unfolding Let_def
    using dropped_update_is_irrelevant [OF funcs.predicate_library_axioms ex_lawful(1) _ drop] by (simp add: obj_key_of_def)
qed

theorem cel_predicate_witness:
  "let r = ex_sc\<lparr>sc_CareInstruction := ex_ci\<lparr>ci_Spec := ex_spec\<lparr>spec_ShootSelector :=
              Some \<lparr>sel_LabelSelector = None, sel_Expression = ''bad(''\<rparr>\<rparr>\<rparr>\<rparr>;
       (b, s') = run_state (admit funcs_lib (newCELPredicate ex_ext funcs_lib r) (CreateEvent (ObjShoot ex_shoot))) (ex_state ex_world)
   in \<not> b \<and> map ev_Reason (sc_events s') = [''CELFilterError'']"
proof -
  let ?r = "ex_sc\<lparr>sc_CareInstruction := ex_ci\<lparr>ci_Spec := ex_spec\<lparr>spec_ShootSelector :=
              Some \<lparr>sel_LabelSelector = None, sel_Expression = ''bad(''\<rparr>\<rparr>\<rparr>\<rparr>"
  obtain b s' where run: "run_state (admit funcs_lib (newCELPredicate ex_ext funcs_lib ?r) (CreateEvent (ObjShoot ex_shoot)))
      (ex_state ex_world) = (b, s')" by fastforce
  from cel_predicate [OF funcs.predicate_library_axioms _ _ run] show ?thesis unfolding run Let_def
    by (simp add: ex_sc_def ex_state_def MatchesCELFilter_def ex_ext_def)
qed

end
