(* ===== verification/Ci_Status.thy ===== *)
theory Ci_Status
  imports Api_Types
begin

section \<open>Conditions and metrics of a CareInstruction: \<open>status.go\<close>, \<open>metrics.go\<close>\<close>

text \<open>
  \<open>reconcileStatus\<close> computes the Ready condition from the known sub-conditions, over the condition
  helpers of Greenhouse as the contract \<open>lawful_conditions\<close> states them.  The Prometheus gauges are a
  table from gauge and label values to the value last set; a gauge value is the integer that the code
  converts to a float.
\<close>

subsection \<open>Conditions\<close>

definition knownConditionTypes :: "string list" where
  "knownConditionTypes = [GardenClusterAccessReady, ShootControllerStartedCondition, ShootsReconciledCondition]"

definition initializeConditionsToUnknown :: "ext \<Rightarrow> CareInstruction \<Rightarrow> CareInstruction" where
  "initializeConditionsToUnknown E ci =
     (let ci = (if Conditions (ci_Status ci) = None
                then update_status (\<lambda>st. st\<lparr>Conditions := Some []\<rparr>) ci else ci)
      in fold (\<lambda>conditionType ci.
           if GetConditionByType E (Conditions (ci_Status ci)) conditionType = None
           then SetCondition E (UnknownCondition conditionType ''Unknown'' ''Condition is unknown'') ci
           else ci) knownConditionTypes ci)"

text \<open>The loop over the sub-conditions, up to its \<open>break\<close>.\<close>

fun check_subConditions :: "ext \<Rightarrow> string list \<Rightarrow> CareInstruction \<Rightarrow> CareInstruction" where
  "check_subConditions E [] ci = ci"
| "check_subConditions E (conditionType # rest) ci =
     (case GetConditionByType E (Conditions (ci_Status ci)) conditionType of
        None \<Rightarrow> check_subConditions E rest ci
      | Some subCondition \<Rightarrow>
          if cond_Status subCondition \<noteq> ConditionTrue
          then SetCondition E (FalseCondition ReadyCondition (cond_Reason subCondition) (cond_Message subCondition)) ci
          else check_subConditions E rest ci)"

definition reconcileStatus :: "ext \<Rightarrow> CareInstruction \<Rightarrow> CareInstruction" where
  "reconcileStatus E ci =
     check_subConditions E knownConditionTypes
       (SetCondition E (TrueCondition ReadyCondition ''Ready'' ''CareInstruction is ready'') ci)"

subsection \<open>Metrics\<close>

datatype gauge = TotalTargetShootsGauge | CreatedClustersGauge | FailedClustersGauge | ShootOnboardedGauge

text \<open>The label values in the order of the label names of the gauge: care instruction, namespace, garden
  namespace and, for the last gauge, shoot name.\<close>

type_synonym gauges = "gauge \<times> string list \<Rightarrow> int option"

definition gauge_Set :: "gauge \<Rightarrow> string list \<Rightarrow> int \<Rightarrow> gauges \<Rightarrow> gauges" where
  "gauge_Set g labels v m = m((g, labels) \<mapsto> v)"

definition metricLabels :: "CareInstruction \<Rightarrow> string list" where
  "metricLabels ci = [Name ci, Namespace ci, GardenNamespace (ci_Spec ci)]"

definition updateTotalTargetShootsMetric :: "CareInstruction \<Rightarrow> gauges \<Rightarrow> gauges" where
  "updateTotalTargetShootsMetric ci =
     gauge_Set TotalTargetShootsGauge (metricLabels ci) (TotalTargetShoots (ci_Status ci))"

definition updateCreatedClustersMetric :: "CareInstruction \<Rightarrow> gauges \<Rightarrow> gauges" where
  "updateCreatedClustersMetric ci =
     gauge_Set CreatedClustersGauge (metricLabels ci) (CreatedClusters (ci_Status ci))"

definition updateFailedClustersMetric :: "CareInstruction \<Rightarrow> gauges \<Rightarrow> gauges" where
  "updateFailedClustersMetric ci =
     gauge_Set FailedClustersGauge (metricLabels ci) (FailedClusters (ci_Status ci))"

definition updateOnboardedShootsMetrics :: "CareInstruction \<Rightarrow> gauges \<Rightarrow> gauges" where
  "updateOnboardedShootsMetrics ci =
     fold (\<lambda>ss. gauge_Set ShootOnboardedGauge (metricLabels ci @ [ss_Name ss])
                  (if ss_Status ss = ShootStatusOnboarded then 1 else 0))
       (slice_elems (Shoots (ci_Status ci)))"

definition UpdateCareInstructionMetrics :: "CareInstruction \<Rightarrow> gauges \<Rightarrow> gauges" where
  "UpdateCareInstructionMetrics ci m =
     updateOnboardedShootsMetrics ci
       (updateFailedClustersMetric ci
         (updateCreatedClustersMetric ci
           (updateTotalTargetShootsMetric ci m)))"

section \<open>Lemmas\<close>

lemma initializeConditionsToUnknown_frame [simp]:
  "ci_Spec (initializeConditionsToUnknown E ci) = ci_Spec ci" "Name (initializeConditionsToUnknown E ci) = Name ci"
  "Namespace (initializeConditionsToUnknown E ci) = Namespace ci"
  "Annotations (initializeConditionsToUnknown E ci) = Annotations ci"
  by (simp_all add: initializeConditionsToUnknown_def knownConditionTypes_def Let_def)

text \<open>The first of the given types whose condition is present and not true.\<close>

definition first_failing :: "ext \<Rightarrow> CareInstruction \<Rightarrow> string list \<Rightarrow> Condition option" where
  "first_failing E ci ts = find (\<lambda>c. cond_Status c \<noteq> ConditionTrue) (List.map_filter (get_condition E ci) ts)"

lemma first_failing_Cons:
  "first_failing E ci (t # ts) = (case get_condition E ci t of
      None \<Rightarrow> first_failing E ci ts
    | Some c \<Rightarrow> if cond_Status c \<noteq> ConditionTrue then Some c else first_failing E ci ts)"
  by (simp add: first_failing_def List.map_filter_simps split: option.split)

lemma first_failing_cong:
  "(\<And>t. t \<in> set ts \<Longrightarrow> get_condition E ci t = get_condition E ci' t) \<Longrightarrow> first_failing E ci ts = first_failing E ci' ts"
proof (induction ts)
  case Nil
  then show ?case by (simp add: first_failing_def List.map_filter_simps)
next
  case (Cons t ts)
  from Cons.IH [OF Cons.prems] Cons.prems [of t] show ?case by (simp add: first_failing_Cons split: option.split)
qed

lemma check_subConditions_eq:
  "check_subConditions E ts ci = (case first_failing E ci ts of
      None \<Rightarrow> ci
    | Some c \<Rightarrow> SetCondition E (FalseCondition ReadyCondition (cond_Reason c) (cond_Message c)) ci)"
  by (induction E ts ci rule: check_subConditions.induct)
     (auto simp: first_failing_Cons get_condition_def first_failing_def List.map_filter_simps split: option.splits)

lemma first_failing_None_iff:
  "first_failing E ci ts = None \<longleftrightarrow> (\<forall>t \<in> set ts. \<forall>c. get_condition E ci t = Some c \<longrightarrow> cond_Status c = ConditionTrue)"
  by (induction ts) (auto simp: first_failing_Cons first_failing_def List.map_filter_simps split: option.splits)

lemma get_reconcileStatus:
  assumes "lawful_conditions E"
  shows "get_condition E (reconcileStatus E ci) t =
     (if t = ReadyCondition
      then Some (case first_failing E ci knownConditionTypes of
                   None \<Rightarrow> TrueCondition ReadyCondition ''Ready'' ''CareInstruction is ready''
                 | Some c \<Rightarrow> FalseCondition ReadyCondition (cond_Reason c) (cond_Message c))
      else get_condition E ci t)"
proof -
  let ?ci = "SetCondition E (TrueCondition ReadyCondition ''Ready'' ''CareInstruction is ready'') ci"
  have "first_failing E ?ci knownConditionTypes = first_failing E ci knownConditionTypes"
    by (rule first_failing_cong) (auto simp: knownConditionTypes_def get_condition_SetCondition [OF assms])
  then show ?thesis
    by (simp add: reconcileStatus_def check_subConditions_eq get_condition_SetCondition [OF assms] split: option.split)
qed

lemma ready_iff:
  assumes "lawful_conditions E"
  shows "IsReadyTrue E (Conditions (ci_Status (reconcileStatus E ci)))
     \<longleftrightarrow> (\<forall>t \<in> set knownConditionTypes. \<forall>c. get_condition E ci t = Some c \<longrightarrow> cond_Status c = ConditionTrue)"
  unfolding lawful_IsReadyTrue_iff [OF assms] get_condition_def [symmetric] get_reconcileStatus [OF assms]
    first_failing_None_iff [symmetric] by (simp split: option.split)

lemma onboarded_fold:
  "distinct (map ss_Name xs) \<Longrightarrow>
   fold (\<lambda>ss. gauge_Set ShootOnboardedGauge (ls @ [ss_Name ss]) (f ss)) xs m k =
     (case find (\<lambda>ss. k = (ShootOnboardedGauge, ls @ [ss_Name ss])) xs of Some ss \<Rightarrow> Some (f ss) | None \<Rightarrow> m k)"
proof (induction xs arbitrary: m)
  case (Cons x xs)
  have "find (\<lambda>ss. k = (ShootOnboardedGauge, ls @ [ss_Name ss])) xs = None" if "k = (ShootOnboardedGauge, ls @ [ss_Name x])"
    using that Cons.prems by (auto simp: find_None_iff)
  with Cons show ?case by (auto simp: gauge_Set_def split: option.splits)
qed simp

lemma onboarded_fold_other:
  "k \<noteq> ShootOnboardedGauge \<Longrightarrow> fold (\<lambda>ss. gauge_Set ShootOnboardedGauge (ls ss) (f ss)) xs m (k, l) = m (k, l)"
  by (induction xs arbitrary: m) (simp_all add: gauge_Set_def)

lemma metrics_counters:
  "UpdateCareInstructionMetrics ci m (TotalTargetShootsGauge, metricLabels ci) = Some (TotalTargetShoots (ci_Status ci))"
  "UpdateCareInstructionMetrics ci m (CreatedClustersGauge, metricLabels ci) = Some (CreatedClusters (ci_Status ci))"
  "UpdateCareInstructionMetrics ci m (FailedClustersGauge, metricLabels ci) = Some (FailedClusters (ci_Status ci))"
  by (simp_all add: UpdateCareInstructionMetrics_def updateOnboardedShootsMetrics_def onboarded_fold_other
      updateTotalTargetShootsMetric_def updateCreatedClustersMetric_def updateFailedClustersMetric_def gauge_Set_def)

text \<open>Gauges with other label values keep their value; in particular the gauge of a Shoot that is no
  longer listed stays as it was.\<close>

lemma metrics_reflect_status:
  assumes "distinct (map ss_Name (slice_elems (Shoots (ci_Status ci))))"
  shows "(\<forall>ss \<in> set (slice_elems (Shoots (ci_Status ci))).
         UpdateCareInstructionMetrics ci m (ShootOnboardedGauge, metricLabels ci @ [ss_Name ss])
           = Some (if ss_Status ss = ShootStatusOnboarded then 1 else 0))
    \<and> (\<forall>n. n \<notin> ss_Name ` set (slice_elems (Shoots (ci_Status ci))) \<longrightarrow>
         UpdateCareInstructionMetrics ci m (ShootOnboardedGauge, metricLabels ci @ [n])
           = m (ShootOnboardedGauge, metricLabels ci @ [n]))"
proof -
  let ?xs = "slice_elems (Shoots (ci_Status ci))"
  have find: "find (\<lambda>x. ss_Name ss = ss_Name x) xs = Some ss" if "ss \<in> set xs" "distinct (map ss_Name xs)" for ss xs
    using that by (induction xs) (auto simp: image_iff Ball_def)
  have none: "find (\<lambda>x. n = ss_Name x) ?xs = None" if "n \<notin> ss_Name ` set ?xs" for n
    using that by (auto simp: find_None_iff)
  show ?thesis
    by (auto simp: find [OF _ assms] UpdateCareInstructionMetrics_def updateOnboardedShootsMetrics_def onboarded_fold [OF assms]
        none updateTotalTargetShootsMetric_def updateCreatedClustersMetric_def updateFailedClustersMetric_def
        gauge_Set_def simp del: find_None_iff)
qed

text \<open>Initialising the conditions makes every known condition present, as Unknown where it was
  missing, and keeps every condition that was already there.\<close>

lemma initializeConditions_complete:
  assumes "lawful_conditions E"
  shows "get_condition E (initializeConditionsToUnknown E ci) t =
     (case get_condition E ci t of
        Some c \<Rightarrow> Some c
      | None \<Rightarrow> if t \<in> set knownConditionTypes then Some (UnknownCondition t ''Unknown'' ''Condition is unknown'') else None)"
proof -
  have empty: "GetConditionByType E (Some []) t = None" "GetConditionByType E None t = None" for t
    using assms unfolding lawful_conditions_def by (simp_all add: status_conditions.get_empty)
  define c0 where "c0 = (if Conditions (ci_Status ci) = None then update_status (\<lambda>st. st\<lparr>Conditions := Some []\<rparr>) ci else ci)"
  have c0: "get_condition E c0 t = get_condition E ci t" for t
    by (auto simp: c0_def get_condition_def empty)
  show ?thesis
    unfolding initializeConditionsToUnknown_def Let_def c0_def [symmetric] get_condition_def [symmetric]
    by (auto simp: knownConditionTypes_def get_condition_SetCondition [OF assms] c0 split: option.splits)
qed

section \<open>Properties\<close>

text \<open>C26: the Ready condition summarises the known sub-conditions.  It is true exactly when every known
  sub-condition that is present is true; otherwise it is false with the reason and message of the first one,
  in the fixed order garden access, shoot controller, shoots, that is not true (Unknown counts as not
  true).  No other condition changes.\<close>

theorem reconcileStatus_ready:
  assumes "lawful_conditions E"
  shows "get_condition E (reconcileStatus E ci) t =
     (if t = ReadyCondition
      then Some (case first_failing E ci knownConditionTypes of
                   None \<Rightarrow> TrueCondition ReadyCondition ''Ready'' ''CareInstruction is ready''
                 | Some c \<Rightarrow> FalseCondition ReadyCondition (cond_Reason c) (cond_Message c))
      else get_condition E ci t)
    \<and> (IsReadyTrue E (Conditions (ci_Status (reconcileStatus E ci)))
        \<longleftrightarrow> (\<forall>t \<in> set knownConditionTypes. \<forall>c. get_condition E ci t = Some c \<longrightarrow> cond_Status c = ConditionTrue))"
  using get_reconcileStatus [OF assms] ready_iff [OF assms] by blast

end
