(* ===== verification/Ci_Manager.thy ===== *)
theory Ci_Manager
  imports Ci_Status Shoot_Controller
begin

section \<open>Managers of Garden clusters: \<open>careinstruction_controller.go\<close>, \<open>client.go\<close>\<close>

text \<open>
  The CareInstruction controller keeps a table \<open>gardens\<close> with one entry per CareInstruction and runs one
  Shoot controller manager per entry in a goroutine.  The state of the process is the record
  \<open>ci_state\<close>: the world and the recorded events, the table, the CareInstruction objects in memory,
  the contexts that were cancelled, the channels that were closed, the running goroutines and the gauges.

  Go pointers matter here: an entry keeps a pointer to the Spec of the CareInstruction object it was
  created from, not a copy.  Objects are therefore addressed by numbers, \<open>cs_heap\<close> holds their contents,
  and an entry holds the address.  Contexts and channels are numbers too, drawn from one counter.

  The controller runs one reconciliation at a time, so a handler is one atomic step; the goroutines only
  ever close their channel when the manager they run returns.  A nil dereference is the outcome
  \<open>Panic\<close>.
\<close>

type_synonym rest_config = string

record 'w manager =
  mgr_GetClient :: "'w garden_client"

record 'w garden =
  g_mgr :: "'w manager option"
  gardenConfig :: "rest_config option"
  gardenClient :: "'w garden_client option"
  careInstructionSpec :: nat
  cancelFunc :: "nat option"
  stopChan :: "nat option"
  authConfigMapHash :: string

text \<open>A goroutine that runs a manager: the entry it was started for, its context, the channel it closes
  at the end, and the Shoot controller registered with the manager.\<close>

record 'w goroutine =
  gr_key :: string
  gr_ctx :: nat
  gr_chan :: nat
  gr_controller :: "'w ShootController"

record 'w ci_state =
  cs_sc :: "'w sc_state"
  cs_heap :: "nat \<Rightarrow> CareInstruction"
  cs_gardens :: "'w garden gmap"
  cs_cancelled :: "nat set"
  cs_closed :: "nat set"
  cs_running :: "'w goroutine list"
  cs_next :: nat
  cs_metrics :: gauges

text \<open>The reconciler's client and the library functions it calls.\<close>

record 'w ci_env =
  env_ext :: ext
  env_preds :: "'w sc_state predicate_lib"
  r_Client :: "'w gh_client"
  RESTConfigFromKubeConfig :: "bytes \<Rightarrow> go_error + rest_config"
  NewRemoteKubeCfg :: "Cluster \<Rightarrow> ('w, rest_config) call"
  AddToScheme_core :: "go_error option"
  AddToScheme_gardener :: "go_error option"
  AddToScheme_authentication :: "go_error option"
  rest_DeepEqual :: "rest_config option \<Rightarrow> rest_config option \<Rightarrow> bool"
  garden_client_New :: "rest_config \<Rightarrow> ('w, 'w garden_client) call"
  NewManager :: "rest_config \<Rightarrow> string \<Rightarrow> ('w, 'w manager) call"
  IndexField :: "'w manager \<Rightarrow> string \<Rightarrow> (client_object \<Rightarrow> string slice) \<Rightarrow> ('w, unit) call"
  builder_Complete :: "'w manager \<Rightarrow> 'w sc_state registration \<Rightarrow> ('w sc_state, go_error option) state"
  GetEventRecorder :: "string \<Rightarrow> bool"

datatype 'a exec = Panic | Returned 'a

subsection \<open>Access to the state\<close>

type_synonym ('w, 'a) ci = "('w ci_state, 'a) state"

definition in_sc :: "('w sc_state, 'a) state \<Rightarrow> ('w, 'a) ci" where
  "in_sc m = State (\<lambda>s. case run_state m (cs_sc s) of (a, sc) \<Rightarrow> (a, s\<lparr>cs_sc := sc\<rparr>))"

definition call :: "('w, 'a) state \<Rightarrow> ('w, 'a) ci" where
  "call m = in_sc (api m)"

definition read_ci :: "nat \<Rightarrow> ('w, CareInstruction) ci" where
  "read_ci p = State (\<lambda>s. (cs_heap s p, s))"

definition modify_ci :: "nat \<Rightarrow> (CareInstruction \<Rightarrow> CareInstruction) \<Rightarrow> ('w, unit) ci" where
  "modify_ci p f = State (\<lambda>s. ((), s\<lparr>cs_heap := (cs_heap s)(p := f (cs_heap s p))\<rparr>))"

definition lookup_garden :: "string \<Rightarrow> ('w, 'w garden option) ci" where
  "lookup_garden key = State (\<lambda>s. (map_lookup (cs_gardens s) key, s))"

text \<open>An assignment to fields of \<open>r.gardens[key]\<close>: a missing entry is a nil pointer.\<close>

definition modify_garden :: "string \<Rightarrow> ('w garden \<Rightarrow> 'w garden) \<Rightarrow> ('w, unit exec) ci" where
  "modify_garden key f = State (\<lambda>s. case map_lookup (cs_gardens s) key of
      None \<Rightarrow> (Panic, s)
    | Some g \<Rightarrow> (Returned (), s\<lparr>cs_gardens := map_put (cs_gardens s) key (f g)\<rparr>))"

text \<open>An assignment through a pointer to the entry of \<open>key\<close> that the code holds.\<close>

definition set_garden :: "string \<Rightarrow> 'w garden \<Rightarrow> ('w, unit) ci" where
  "set_garden key g = State (\<lambda>s. ((), s\<lparr>cs_gardens := map_put (cs_gardens s) key g\<rparr>))"

definition cancel :: "nat \<Rightarrow> ('w, unit) ci" where
  "cancel ctx = State (\<lambda>s. ((), s\<lparr>cs_cancelled := insert ctx (cs_cancelled s)\<rparr>))"

definition fresh :: "('w, nat) ci" where
  "fresh = State (\<lambda>s. (cs_next s, s\<lparr>cs_next := cs_next s + 1\<rparr>))"

definition gardenKey :: "CareInstruction \<Rightarrow> string" where
  "gardenKey ci = Namespace ci @ ''/'' @ Name ci"

definition hashAuthConfigMap :: "ConfigMap \<Rightarrow> string" where
  "hashAuthConfigMap cm = hex_EncodeToString (sha256 (map_get (cm_Data cm) ''config.yaml''))"

subsection \<open>Access to the Garden cluster\<close>

text \<open>The scheme is the same in every call; the configuration is what the callers use.\<close>

definition GetGardenClusterAccess :: "'w ci_env \<Rightarrow> CareInstruction \<Rightarrow> ('w, rest_config) call" where
  "GetGardenClusterAccess env ci =
     (let with_scheme = (\<lambda>cfg.
            case AddToScheme_core env of Some err \<Rightarrow> Inl err | None \<Rightarrow>
           (case AddToScheme_gardener env of Some err \<Rightarrow> Inl err | None \<Rightarrow>
           (case AddToScheme_authentication env of Some err \<Rightarrow> Inl err | None \<Rightarrow> Inr cfg)));
          ref = GardenClusterKubeConfigSecretName (ci_Spec ci)
      in if skr_Name ref \<noteq> []
         then do {
           g \<leftarrow> gh_get_secret (r_Client env) (Namespace ci, skr_Name ref);
           ret (case g of
                  Inl err \<Rightarrow> Inl err
                | Inr gardenClusterSecret \<Rightarrow>
                    (case map_lookup (secret_Data gardenClusterSecret) (skr_Key ref) of
                       None \<Rightarrow> Inl (errors_New ''kubeconfig not found in gardenCluster secret'')
                     | Some gardenKubeConfig \<Rightarrow>
                         (case RESTConfigFromKubeConfig env gardenKubeConfig of
                            Inl err \<Rightarrow> Inl err
                          | Inr cfg \<Rightarrow> with_scheme cfg)))
         }
         else do {
           g \<leftarrow> gh_get_cluster (r_Client env) (Namespace ci, GardenClusterName (ci_Spec ci));
           (case g of
              Inl err \<Rightarrow> ret (Inl err)
            | Inr gardenCluster \<Rightarrow>
                if \<not> IsReadyTrue (env_ext env) (cluster_Conditions gardenCluster)
                then ret (Inl (errors_New ''GardenCluster is not ready''))
                else do {
                  c \<leftarrow> NewRemoteKubeCfg env gardenCluster;
                  ret (case c of Inl err \<Rightarrow> Inl err | Inr cfg \<Rightarrow> with_scheme cfg)
                })
         })"

subsection \<open>reconcileManager\<close>

text \<open>Lines 153 to 169: the initial hash of the auth ConfigMap, for a new entry only.\<close>

definition seed_hash :: "'w ci_env \<Rightarrow> nat \<Rightarrow> ('w, go_error + string) ci" where
  "seed_hash env p = do {
     ci \<leftarrow> read_ci p;
     entry \<leftarrow> lookup_garden (gardenKey ci);
     (if entry = None \<and> AuthenticationConfigMapName (ci_Spec ci) \<noteq> []
      then do {
        g \<leftarrow> call (gh_get_configmap (r_Client env) (Namespace ci, AuthenticationConfigMapName (ci_Spec ci)));
        ret (case g of
               Inr cm \<Rightarrow> Inr (hashAuthConfigMap cm)
             | Inl err \<Rightarrow> if \<not> IsNotFound err then Inl err else Inr [])
      }
      else ret (Inr []))
   }"

definition new_garden :: "nat \<Rightarrow> string \<Rightarrow> 'w garden" where
  "new_garden p h = \<lparr>g_mgr = None, gardenConfig = None, gardenClient = None, careInstructionSpec = p,
     cancelFunc = None, stopChan = None, authConfigMapHash = h\<rparr>"

text \<open>Lines 171 to 187.\<close>

definition register_garden :: "nat \<Rightarrow> string \<Rightarrow> string \<Rightarrow> ('w, unit) ci" where
  "register_garden p key initialAuthCMHash = State (\<lambda>s. ((), s\<lparr>cs_gardens :=
      (let gardens = Some (map_entries (cs_gardens s)) in
       if map_lookup gardens key = None then map_put gardens key (new_garden p initialAuthCMHash) else gardens)\<rparr>))"

text \<open>Lines 210 to 236: whether the running manager can stay.\<close>

definition channelOpen :: "'w ci_state \<Rightarrow> 'w garden \<Rightarrow> bool" where
  "channelOpen s garden = (case stopChan garden of None \<Rightarrow> True | Some ch \<Rightarrow> ch \<notin> cs_closed s)"

definition manager_unchanged :: "'w ci_env \<Rightarrow> 'w ci_state \<Rightarrow> 'w garden \<Rightarrow> CareInstruction \<Rightarrow> rest_config \<Rightarrow> bool exec" where
  "manager_unchanged env s garden ci gardenClientConfig =
     (case GetConditionByType (env_ext env) (Conditions (ci_Status ci)) ShootControllerStartedCondition of
        None \<Rightarrow> Panic
      | Some condition \<Rightarrow>
          (let mgrExists = (g_mgr garden \<noteq> None);
               shootControllerStarted = IsTrue (env_ext env) condition;
               gardenConfigChanged = (\<not> rest_DeepEqual env (gardenConfig garden) (Some gardenClientConfig));
               careInstructionSpecChanged = (ci_Spec (cs_heap s (careInstructionSpec garden)) \<noteq> ci_Spec ci);
               channelExists = (stopChan garden \<noteq> None)
           in Returned (mgrExists \<and> shootControllerStarted \<and> \<not> gardenConfigChanged \<and> \<not> careInstructionSpecChanged
                        \<and> channelExists \<and> channelOpen s garden)))"

text \<open>Lines 260 to 270.\<close>

definition stop_manager :: "string \<Rightarrow> 'w garden \<Rightarrow> ('w, unit exec) ci" where
  "stop_manager key garden =
     (if g_mgr garden \<noteq> None
      then do {
        entry \<leftarrow> lookup_garden key;
        (case entry of
           None \<Rightarrow> ret Panic
         | Some g \<Rightarrow>
             (case cancelFunc g of
                None \<Rightarrow> ret (Returned ())
              | Some ctx \<Rightarrow> do {
                  cancel ctx;
                  ret (Returned ())
                }))
      }
      else ret (Returned ()))"

definition index_careinstruction_label :: "client_object \<Rightarrow> string slice" where
  "index_careinstruction_label obj =
     (let v = map_get (GetLabels obj) CareInstructionLabel in if v \<noteq> [] then Some [v] else None)"

text \<open>Lines 316 to 325: the Shoot controller works on a deep copy of the CareInstruction.\<close>

definition new_ShootController :: "'w ci_env \<Rightarrow> 'w manager \<Rightarrow> CareInstruction \<Rightarrow> 'w ShootController" where
  "new_ShootController env mgr ci = \<lparr>
     GreenhouseClient = r_Client env,
     GardenClient = mgr_GetClient mgr,
     sc_Name = GenerateName (Name ci),
     sc_CareInstruction = ci,
     EventRecorder = GetEventRecorder env (GenerateName (Name ci))\<rparr>"

text \<open>Lines 331 to 362: context, channel, entry, goroutine and condition.\<close>

definition launch_manager ::
  "'w ci_env \<Rightarrow> nat \<Rightarrow> string \<Rightarrow> rest_config \<Rightarrow> 'w garden_client \<Rightarrow> 'w manager \<Rightarrow> 'w ShootController
     \<Rightarrow> ('w, go_error option exec) ci" where
  "launch_manager env p key cfg gclient mgr sc = do {
     ctx \<leftarrow> fresh;
     ch \<leftarrow> fresh;
     r \<leftarrow> modify_garden key (\<lambda>g. g\<lparr>gardenConfig := Some cfg, gardenClient := Some gclient, g_mgr := Some mgr,
        cancelFunc := Some ctx, stopChan := Some ch, careInstructionSpec := p\<rparr>);
     (case r of
        Panic \<Rightarrow> ret Panic
      | Returned _ \<Rightarrow> do {
          State (\<lambda>s. ((), s\<lparr>cs_running := \<lparr>gr_key = key, gr_ctx = ctx, gr_chan = ch, gr_controller = sc\<rparr> # cs_running s\<rparr>));
          modify_ci p (SetCondition (env_ext env) (TrueCondition ShootControllerStartedCondition ''Started'' []));
          ret (Returned None)
        })
   }"

text \<open>Lines 272 to 364.\<close>

definition start_manager :: "'w ci_env \<Rightarrow> nat \<Rightarrow> string \<Rightarrow> rest_config \<Rightarrow> ('w, go_error option exec) ci" where
  "start_manager env p key gardenClientConfig = do {
     ci \<leftarrow> read_ci p;
     c \<leftarrow> call (garden_client_New env gardenClientConfig);
     (case c of
        Inl err \<Rightarrow> ret (Returned (Some err))
      | Inr gclient \<Rightarrow> do {
          m \<leftarrow> call (NewManager env gardenClientConfig (GardenNamespace (ci_Spec ci)));
          (case m of
             Inl err \<Rightarrow> ret (Returned (Some err))
           | Inr mgr \<Rightarrow> do {
               i \<leftarrow> call (IndexField env mgr CareInstructionLabel index_careinstruction_label);
               (case i of
                  Inl err \<Rightarrow> ret (Returned (Some (Errorf_w ''failed to add field index for CareInstructionLabel'' err)))
                | Inr _ \<Rightarrow> do {
                    let sc = new_ShootController env mgr ci;
                    e \<leftarrow> in_sc (SetupWithManager (env_ext env) (env_preds env) (builder_Complete env mgr) sc);
                    (case e of
                       Some err \<Rightarrow> ret (Returned (Some err))
                     | None \<Rightarrow> launch_manager env p key gardenClientConfig gclient mgr sc)
                  })
             })
        })
   }"

text \<open>Lines 210 to 364: keep the manager or replace it.\<close>

definition ensure_manager :: "'w ci_env \<Rightarrow> nat \<Rightarrow> string \<Rightarrow> rest_config \<Rightarrow> ('w, go_error option exec) ci" where
  "ensure_manager env p key gardenClientConfig = do {
     entry \<leftarrow> lookup_garden key;
     ci \<leftarrow> read_ci p;
     (case entry of
        None \<Rightarrow> ret Panic
      | Some garden \<Rightarrow> do {
          s \<leftarrow> State_Monad.get;
          (case manager_unchanged env s garden ci gardenClientConfig of
             Panic \<Rightarrow> ret Panic
           | Returned unchanged \<Rightarrow>
               if unchanged then ret (Returned None)
               else do {
                 r \<leftarrow> stop_manager key garden;
                 (case r of
                    Panic \<Rightarrow> ret Panic
                  | Returned _ \<Rightarrow> start_manager env p key gardenClientConfig)
               })
        })
   }"

text \<open>Lines 189 to 208: the access condition, then the manager.\<close>

definition connect_manager :: "'w ci_env \<Rightarrow> nat \<Rightarrow> string \<Rightarrow> go_error + rest_config \<Rightarrow> ('w, go_error option exec) ci" where
  "connect_manager env p key acc =
     (case acc of
        Inl err \<Rightarrow> do {
          modify_ci p (SetCondition (env_ext env)
            (FalseCondition GardenClusterAccessReady ''GardenClusterAccessError'' (Error err)));
          ret (Returned (Some err))
        }
      | Inr gardenClientConfig \<Rightarrow> do {
          modify_ci p (SetCondition (env_ext env)
            (TrueCondition GardenClusterAccessReady ''GardenClusterAccessReady'' []));
          ensure_manager env p key gardenClientConfig
        })"

definition reconcileManager :: "'w ci_env \<Rightarrow> nat \<Rightarrow> ('w, go_error option exec) ci" where
  "reconcileManager env p = do {
     ci \<leftarrow> read_ci p;
     let key = gardenKey ci;
     h \<leftarrow> seed_hash env p;
     (case h of
        Inl err \<Rightarrow> ret (Returned (Some err))
      | Inr initialAuthCMHash \<Rightarrow> do {
          register_garden p key initialAuthCMHash;
          acc \<leftarrow> call (GetGardenClusterAccess env ci);
          connect_manager env p key acc
        })
   }"

subsection \<open>Restart and removal\<close>

definition restartShootController :: "nat \<Rightarrow> ('w, unit) ci" where
  "restartShootController p = do {
     ci \<leftarrow> read_ci p;
     entry \<leftarrow> lookup_garden (gardenKey ci);
     (case entry of
        None \<Rightarrow> ret ()
      | Some garden \<Rightarrow>
          (case cancelFunc garden of
             None \<Rightarrow> ret ()
           | Some ctx \<Rightarrow> do {
               cancel ctx;
               set_garden (gardenKey ci) (garden\<lparr>g_mgr := None\<rparr>);
               (if g_mgr garden \<noteq> None
                then modify_ci p (update_status (\<lambda>st. st\<lparr>ShootControllerRestartCount := ShootControllerRestartCount st + 1\<rparr>))
                else ret ())
             }))
   }"

definition cleanupCareInstruction :: "'w ci_env \<Rightarrow> nat \<Rightarrow> ('w, unit) ci" where
  "cleanupCareInstruction env p = do {
     modify_ci p (SetCondition (env_ext env)
       (FalseCondition DeleteCondition ''PendingDeletion'' ''CareInstruction is being deleted''));
     ci \<leftarrow> read_ci p;
     entry \<leftarrow> lookup_garden (gardenKey ci);
     (case entry of
        None \<Rightarrow> ret ()
      | Some garden \<Rightarrow>
          (case cancelFunc garden of
             None \<Rightarrow> ret ()
           | Some ctx \<Rightarrow> do {
               cancel ctx;
               State (\<lambda>s. ((), s\<lparr>cs_gardens := map_delete (cs_gardens s) (gardenKey ci)\<rparr>))
             }))
   }"

section \<open>Lemmas\<close>

lemma run_ci_primitives [simp]:
  "run_state (read_ci p) s = (cs_heap s p, s)"
  "run_state (modify_ci p f) s = ((), s\<lparr>cs_heap := (cs_heap s)(p := f (cs_heap s p))\<rparr>)"
  "run_state (lookup_garden k) s = (map_lookup (cs_gardens s) k, s)"
  "run_state (modify_garden k u) s = (case map_lookup (cs_gardens s) k of
      None \<Rightarrow> (Panic, s) | Some g \<Rightarrow> (Returned (), s\<lparr>cs_gardens := map_put (cs_gardens s) k (u g)\<rparr>))"
  "run_state (set_garden k g) s = ((), s\<lparr>cs_gardens := map_put (cs_gardens s) k g\<rparr>)"
  "run_state (cancel c) s = ((), s\<lparr>cs_cancelled := insert c (cs_cancelled s)\<rparr>)"
  "run_state fresh s = (cs_next s, s\<lparr>cs_next := cs_next s + 1\<rparr>)"
  "run_state (in_sc m) s = (case run_state m (cs_sc s) of (a, sc) \<Rightarrow> (a, s\<lparr>cs_sc := sc\<rparr>))"
  by (simp_all add: read_ci_def modify_ci_def lookup_garden_def modify_garden_def set_garden_def cancel_def fresh_def in_sc_def split: option.split)

lemma hoare_exec [hoare_intros]:
  "(x = Panic \<Longrightarrow> hoare P n Q) \<Longrightarrow> (\<And>z. x = Returned z \<Longrightarrow> hoare P (q z) Q) \<Longrightarrow>
     hoare P (case x of Panic \<Rightarrow> n | Returned z \<Rightarrow> q z) Q"
  by (cases x) auto

lemma keeps_exec [keeps_intros]:
  "keeps f n \<Longrightarrow> (\<And>z. keeps f (q z)) \<Longrightarrow> keeps f (case x of Panic \<Rightarrow> n | Returned z \<Rightarrow> q z)"
  by (cases x) auto

lemma manager_unchanged_True_iff:
  "manager_unchanged env s e c cfg = Returned True \<longleftrightarrow>
     (\<exists>k. get_condition (env_ext env) c ShootControllerStartedCondition = Some k \<and> IsTrue (env_ext env) k)
   \<and> g_mgr e \<noteq> None \<and> rest_DeepEqual env (gardenConfig e) (Some cfg)
   \<and> ci_Spec (cs_heap s (careInstructionSpec e)) = ci_Spec c \<and> (\<exists>ch. stopChan e = Some ch \<and> ch \<notin> cs_closed s)"
  by (auto simp: manager_unchanged_def get_condition_def Let_def channelOpen_def split: option.splits)

lemma manager_unchanged_Panic_iff:
  "manager_unchanged env s e c cfg = Panic \<longleftrightarrow> get_condition (env_ext env) c ShootControllerStartedCondition = None"
  by (simp add: manager_unchanged_def get_condition_def Let_def split: option.split)

lemma restart_run:
  "run_state (restartShootController p) s = ((),
     (case map_lookup (cs_gardens s) (gardenKey (cs_heap s p)) of
        None \<Rightarrow> s
      | Some e \<Rightarrow> (case cancelFunc e of
          None \<Rightarrow> s
        | Some ctx \<Rightarrow> s\<lparr>cs_cancelled := insert ctx (cs_cancelled s),
            cs_gardens := map_put (cs_gardens s) (gardenKey (cs_heap s p)) (e\<lparr>g_mgr := None\<rparr>),
            cs_heap := (if g_mgr e \<noteq> None
              then (cs_heap s)(p := update_status (\<lambda>st. st\<lparr>ShootControllerRestartCount := ShootControllerRestartCount st + 1\<rparr>) (cs_heap s p))
              else cs_heap s)\<rparr>)))"
  by (auto simp: restartShootController_def split: option.split)

text \<open>The hash of an auth ConfigMap is a text of 64 digits, so it is never the empty hash of an entry that was
  registered without a ConfigMap, and two hashes agree exactly when the digests of the contents do.\<close>

lemma length_hashAuthConfigMap: "length (hashAuthConfigMap cm) = 64"
  by (simp add: hashAuthConfigMap_def length_hex length_sha256)

lemma hashAuthConfigMap_eq_iff:
  "hashAuthConfigMap a = hashAuthConfigMap b
     \<longleftrightarrow> sha256 (map_get (cm_Data a) ''config.yaml'') = sha256 (map_get (cm_Data b) ''config.yaml'')"
  unfolding hashAuthConfigMap_def using hex_inject [OF sha256_bytes sha256_bytes] by auto

lemma gardenKey_update_status [simp]: "gardenKey (update_status f c) = gardenKey c"
  by (simp add: gardenKey_def)

text \<open>The first occurrence of the separator splits the key.\<close>

lemma append_sep_eq:
  assumes "c \<notin> set a" "c \<notin> set a'" "a @ c # b = a' @ c # b'"
  shows "a = a' \<and> b = b'"
  using assms
proof (induction a arbitrary: a')
  case Nil
  then show ?case by (cases a') auto
next
  case (Cons x xs)
  then show ?case by (cases a') auto
qed

text \<open>Table keys do not collide: two CareInstructions have the same key only if they have the same
  namespace and name, since a namespace contains no slash.\<close>

lemma gardenKey_injective:
  assumes "CHR ''/'' \<notin> set (Namespace a)" "CHR ''/'' \<notin> set (Namespace b)" "gardenKey a = gardenKey b"
  shows "Namespace a = Namespace b \<and> Name a = Name b"
  using append_sep_eq [OF assms(1,2)] assms(3) by (simp add: gardenKey_def)

section \<open>Properties\<close>

text \<open>C40: a reconciliation that finds several reasons to restart the Shoot controller restarts it once: a
  second call changes nothing beyond the first, and the restart counter goes up by one exactly if a manager
  was registered.\<close>

theorem restart_counts_once:
  assumes "run_state (restartShootController p) s = (u, s1)" "run_state (restartShootController p) s1 = (u', s2)"
  shows "s2 = s1
     \<and> ShootControllerRestartCount (ci_Status (cs_heap s1 p)) = ShootControllerRestartCount (ci_Status (cs_heap s p))
         + (case map_lookup (cs_gardens s) (gardenKey (cs_heap s p)) of
              Some e \<Rightarrow> if cancelFunc e \<noteq> None \<and> g_mgr e \<noteq> None then 1 else 0
            | None \<Rightarrow> 0)"
  using assms by (auto simp: restart_run map_put_def split: option.splits if_splits)

end
