(* ===== verification/Ci_Shoots.thy ===== *)
theory Ci_Shoots
  imports Ci_Manager Shoot_Statuses
begin

section \<open>Shoots and Clusters of a CareInstruction: \<open>reconcileShootsNClusters\<close>\<close>

text \<open>
  The second half of a CareInstruction reconciliation, split where the code may return early: the reconcile
  annotation of the CareInstruction, the list of Shoots and its CEL filter, the hash of the auth ConfigMap,
  the list of Clusters and their reconcile annotations, ownership conflicts, and the status.  A phase
  returns \<open>Inl\<close> with the outcome when the function ends there.

  The Go maps \<open>excludedShoots\<close> and \<open>conflicts\<close> are association lists with distinct keys, as
  \<open>buildShootStatuses\<close> takes them.
\<close>

type_synonym 'a phase = "go_error option exec + 'a"

abbreviation fail :: "go_error \<Rightarrow> 'a phase" where
  "fail err \<equiv> Inl (Returned (Some err))"

text \<open>Lines 383 to 391.  The answer of the API server replaces the object, status included.\<close>

definition handle_ci_annotation :: "'w ci_env \<Rightarrow> nat \<Rightarrow> ('w, unit phase) ci" where
  "handle_ci_annotation env p = do {
     base \<leftarrow> read_ci p;
     (if map_get (Annotations base) ReconcileAnnotation = ''true''
      then do {
        modify_ci p (\<lambda>c. c\<lparr>Annotations := map_delete (Annotations c) ReconcileAnnotation\<rparr>);
        ci \<leftarrow> read_ci p;
        r \<leftarrow> call (gh_patch_careinstruction (r_Client env) ci base);
        (case r of
           Inl err \<Rightarrow> ret (fail err)
         | Inr answered \<Rightarrow> do {
             modify_ci p (\<lambda>_. answered);
             restartShootController p;
             ret (Inr ())
           })
      }
      else ret (Inr ()))
   }"

text \<open>Lines 393 to 402: a missing kind counts as no Shoots.\<close>

definition list_target_shoots :: "'w ci_env \<Rightarrow> nat \<Rightarrow> 'w garden_client \<Rightarrow> ('w, Shoot list phase) ci" where
  "list_target_shoots env p gclient = do {
     ci \<leftarrow> read_ci p;
     r \<leftarrow> call (ListShoots (env_ext env) ci gclient);
     (case r of
        Inl err \<Rightarrow>
          if IgnoreNotFound (Some err) \<noteq> None then ret (fail err)
          else do {
            modify_ci p (update_status (\<lambda>st. st\<lparr>TotalTargetShoots := 0\<rparr>));
            ret (Inr [])
          }
      | Inr items \<Rightarrow> do {
          modify_ci p (update_status (\<lambda>st. st\<lparr>TotalTargetShoots := int (length items)\<rparr>));
          ret (Inr items)
        })
   }"

text \<open>Lines 404 to 418.\<close>

definition classify_shoot ::
  "ext \<Rightarrow> CareInstruction \<Rightarrow> Shoot \<Rightarrow> Shoot list \<times> (string \<times> string) list \<Rightarrow> Shoot list \<times> (string \<times> string) list" where
  "classify_shoot E ci shoot = (\<lambda>(included, excluded).
     case MatchesCELFilter E ci shoot of
       Inl err \<Rightarrow> (included, AList.update (Name shoot) (''CEL evaluation failed: '' @ Error err) excluded)
     | Inr matches \<Rightarrow>
         if \<not> matches then (included, AList.update (Name shoot) ''filtered out by CEL expression'' excluded)
         else (included @ [shoot], excluded))"

definition classify_shoots :: "ext \<Rightarrow> CareInstruction \<Rightarrow> Shoot list \<Rightarrow> Shoot list \<times> (string \<times> string) list" where
  "classify_shoots E ci shoots = fold (classify_shoot E ci) shoots ([], [])"

text \<open>Lines 420 to 439.\<close>

definition handle_auth_change :: "'w ci_env \<Rightarrow> nat \<Rightarrow> string \<Rightarrow> ('w, unit phase) ci" where
  "handle_auth_change env p key = do {
     ci \<leftarrow> read_ci p;
     (if AuthenticationConfigMapName (ci_Spec ci) \<noteq> []
      then do {
        r \<leftarrow> call (gh_get_configmap (r_Client env) (Namespace ci, AuthenticationConfigMapName (ci_Spec ci)));
        (case r of
           Inl err \<Rightarrow> ret (if \<not> IsNotFound err then fail err else Inr ())
         | Inr cm \<Rightarrow> do {
             entry \<leftarrow> lookup_garden key;
             (case entry of
                None \<Rightarrow> ret (Inl Panic)
              | Some garden \<Rightarrow>
                  (let h = hashAuthConfigMap cm in
                   if h \<noteq> authConfigMapHash garden
                   then do {
                     w \<leftarrow> modify_garden key (\<lambda>g. g\<lparr>authConfigMapHash := h\<rparr>);
                     (case w of
                        Panic \<Rightarrow> ret (Inl Panic)
                      | Returned _ \<Rightarrow> do {
                          restartShootController p;
                          ret (Inr ())
                        })
                   }
                   else ret (Inr ())))
           })
      }
      else ret (Inr ()))
   }"

text \<open>Lines 441 to 450.\<close>

definition list_owned_clusters :: "'w ci_env \<Rightarrow> nat \<Rightarrow> ('w, Cluster list phase) ci" where
  "list_owned_clusters env p = do {
     ci \<leftarrow> read_ci p;
     r \<leftarrow> call (ListClusters ci (r_Client env));
     (case r of
        Inl err \<Rightarrow>
          if IgnoreNotFound (Some err) \<noteq> None then ret (fail err)
          else do {
            modify_ci p (update_status (\<lambda>st. st\<lparr>CreatedClusters := 0\<rparr>));
            ret (Inr [])
          }
      | Inr items \<Rightarrow> do {
          modify_ci p (update_status (\<lambda>st. st\<lparr>CreatedClusters := int (length items)\<rparr>));
          ret (Inr items)
        })
   }"

text \<open>Lines 452 to 463.\<close>

definition matched_owned_count :: "Shoot list \<Rightarrow> Cluster list \<Rightarrow> nat" where
  "matched_owned_count includedShoots clusters =
     fold (\<lambda>shoot n. if Name shoot \<in> Name ` set clusters then n + 1 else n) includedShoots 0"

text \<open>Lines 465 to 485: the loop rewrites the Clusters in place and remembers the last error.\<close>

definition annotate_via_cluster ::
  "'w ci_env \<Rightarrow> CareInstruction \<Rightarrow> 'w garden_client \<Rightarrow> Cluster \<Rightarrow> Cluster list \<times> go_error option
     \<Rightarrow> ('w, Cluster list \<times> go_error option) ci" where
  "annotate_via_cluster env ci gclient cluster = (\<lambda>(seen, retErr).
     if map_get (Annotations cluster) ReconcileAnnotation \<noteq> ''true'' then ret (seen @ [cluster], retErr)
     else do {
       a \<leftarrow> call (AnnotateShootForReconcile gclient (GardenNamespace (ci_Spec ci)) (Name cluster));
       (case a of
          Some err \<Rightarrow> ret (seen @ [cluster], Some err)
        | None \<Rightarrow> do {
            let cleared = cluster\<lparr>Annotations := map_delete (Annotations cluster) ReconcileAnnotation\<rparr>;
            r \<leftarrow> call (gh_patch_cluster (r_Client env) cleared cluster);
            ret (case r of
                   Inl err \<Rightarrow> (seen @ [cleared], Some err)
                 | Inr answered \<Rightarrow> (seen @ [answered], retErr))
          })
     })"

definition handle_cluster_annotations ::
  "'w ci_env \<Rightarrow> CareInstruction \<Rightarrow> 'w garden_client \<Rightarrow> Cluster list \<Rightarrow> ('w, Cluster list \<times> go_error option) ci" where
  "handle_cluster_annotations env ci gclient clusters =
     for_range clusters ([], None) (annotate_via_cluster env ci gclient)"

text \<open>Lines 497 to 522.\<close>

definition check_conflict ::
  "'w ci_env \<Rightarrow> CareInstruction \<Rightarrow> string set \<Rightarrow> Shoot \<Rightarrow> (string \<times> conflictInfo) list phase
     \<Rightarrow> ('w, (string \<times> conflictInfo) list phase) ci" where
  "check_conflict env ci existingClusterNames shoot acc =
     (case acc of
        Inl out \<Rightarrow> ret (Inl out)
      | Inr conflicts \<Rightarrow>
          if Name shoot \<in> existingClusterNames then ret (Inr conflicts)
          else do {
            g \<leftarrow> call (gh_get_cluster (r_Client env) (Namespace ci, Name shoot));
            ret (case g of
                   Inr existingCluster \<Rightarrow>
                     (case map_lookup (Labels existingCluster) CareInstructionLabel of
                        Some ownerLabel \<Rightarrow>
                          if ownerLabel \<noteq> Name ci
                          then Inr (AList.update (Name shoot)
                                 \<lparr>conf_owner = ownerLabel,
                                  conf_ready = IsReadyTrue (env_ext env) (cluster_Conditions existingCluster)\<rparr> conflicts)
                          else Inr conflicts
                      | None \<Rightarrow> Inr conflicts)
                 | Inl err \<Rightarrow> if \<not> IsNotFound err then fail err else Inr conflicts)
          })"

definition find_conflicts ::
  "'w ci_env \<Rightarrow> CareInstruction \<Rightarrow> string set \<Rightarrow> Shoot list \<Rightarrow> ('w, (string \<times> conflictInfo) list phase) ci" where
  "find_conflicts env ci names includedShoots = for_range includedShoots (Inr []) (check_conflict env ci names)"

text \<open>Lines 525 to 551.\<close>

definition report_statuses ::
  "'w ci_env \<Rightarrow> nat \<Rightarrow> (string \<times> string) list \<Rightarrow> Cluster list \<Rightarrow> (string \<times> conflictInfo) list \<Rightarrow> go_error option \<Rightarrow> bool
     \<Rightarrow> ('w, go_error option exec) ci" where
  "report_statuses env p excluded clusters conflicts retErr countsMatch = (let E = env_ext env in do {
     let (statuses, failed) = buildShootStatuses E excluded clusters conflicts;
     modify_ci p (update_status (\<lambda>st. st\<lparr>Shoots := Some statuses, FailedClusters := failed\<rparr>));
     (case retErr of
        Some err \<Rightarrow> ret (Returned (Some err))
      | None \<Rightarrow>
          if \<not> countsMatch
          then ret (Returned (Some (errors_New ''shoot count and cluster count do not match'')))
          else if failed > 0
          then ret (Returned (Some (errors_New ''cluster is not ready'')))
          else do {
            modify_ci p (SetCondition E
              (TrueCondition ShootsReconciledCondition ''Reconciled'' ''All shoots and clusters are reconciled''));
            ret (Returned None)
          })
   })"

text \<open>Lines 441 to 551, once the Shoots are classified.\<close>

definition reconcile_clusters ::
  "'w ci_env \<Rightarrow> nat \<Rightarrow> 'w garden_client \<Rightarrow> Shoot list \<Rightarrow> (string \<times> string) list \<Rightarrow> ('w, go_error option exec) ci" where
  "reconcile_clusters env p gclient included excluded = do {
     l \<leftarrow> list_owned_clusters env p;
     (case l of
        Inl out \<Rightarrow> ret out
      | Inr items \<Rightarrow> do {
          ci \<leftarrow> read_ci p;
          let countsMatch = (length included = matched_owned_count included items);
          (clusters, retErr) \<leftarrow> handle_cluster_annotations env ci gclient items;
          c \<leftarrow> (if countsMatch then ret (Inr []) else find_conflicts env ci (Name ` set items) included);
          (case c of
             Inl out \<Rightarrow> ret out
           | Inr conflicts \<Rightarrow> report_statuses env p excluded clusters conflicts retErr countsMatch)
        })
   }"

text \<open>Lines 376 to 551.\<close>

definition shoots_body :: "'w ci_env \<Rightarrow> nat \<Rightarrow> ('w, go_error option exec) ci" where
  "shoots_body env p = do {
     ci0 \<leftarrow> read_ci p;
     let key = gardenKey ci0;
     entry \<leftarrow> lookup_garden key;
     (case entry of
        None \<Rightarrow> ret Panic
      | Some garden \<Rightarrow> do {
          a \<leftarrow> handle_ci_annotation env p;
          (case a of
             Inl out \<Rightarrow> ret out
           | Inr _ \<Rightarrow>
               (case gardenClient garden of
                  None \<Rightarrow> ret Panic
                | Some gclient \<Rightarrow> do {
                    l \<leftarrow> list_target_shoots env p gclient;
                    (case l of
                       Inl out \<Rightarrow> ret out
                     | Inr shoots \<Rightarrow> do {
                         ci \<leftarrow> read_ci p;
                         let (included, excluded) = classify_shoots (env_ext env) ci shoots;
                         h \<leftarrow> handle_auth_change env p key;
                         (case h of
                            Inl out \<Rightarrow> ret out
                          | Inr _ \<Rightarrow> reconcile_clusters env p gclient included excluded)
                       })
                  }))
        })
   }"

definition reconcileShootsNClusters :: "'w ci_env \<Rightarrow> nat \<Rightarrow> ('w, go_error option exec) ci" where
  "reconcileShootsNClusters env p = do {
     modify_ci p (update_status (\<lambda>st. st\<lparr>TotalTargetShoots := 0, CreatedClusters := 0, FailedClusters := 0, Shoots := Some []\<rparr>));
     out \<leftarrow> shoots_body env p;
     ci \<leftarrow> read_ci p;
     State (\<lambda>s. ((), s\<lparr>cs_metrics := UpdateCareInstructionMetrics ci (cs_metrics s)\<rparr>));
     ret out
   }"

end
