(* ===== verification/Ci_Controller.thy ===== *)
theory Ci_Controller
  imports Ci_Shoots
begin

section \<open>The CareInstruction controller: \<open>careinstruction_controller.go\<close>\<close>

text \<open>
  The handlers that Greenhouse's lifecycle package calls, the functions that map watch events to
  reconcile requests, and the registration of the controller.  The lifecycle package and the controller
  builder are not part of the repository: they are parameters of \<open>CareInstruction_Reconcile\<close> and
  \<open>ci_SetupWithManager\<close>.
\<close>

datatype ReconcileResult = Success | Failed

type_synonym ensure_outcome = "(Result \<times> ReconcileResult \<times> go_error option) exec"

definition GetFinalizerName :: string where
  "GetFinalizerName = CommonCleanupFinalizer"

definition ensureAuthConfigMapLabeled :: "'w ci_env \<Rightarrow> CareInstruction \<Rightarrow> ('w, go_error option) state" where
  "ensureAuthConfigMapLabeled env ci =
     (if AuthenticationConfigMapName (ci_Spec ci) = [] then ret None
      else do {
        g \<leftarrow> gh_get_configmap (r_Client env) (Namespace ci, AuthenticationConfigMapName (ci_Spec ci));
        (case g of
           Inl err \<Rightarrow> ret (IgnoreNotFound (Some err))
         | Inr cm \<Rightarrow>
             if map_lookup (Labels cm) AuthConfigMapLabel \<noteq> None then ret None
             else do {
               r \<leftarrow> gh_patch_configmap (r_Client env) (cm\<lparr>Labels := map_put (Labels cm) AuthConfigMapLabel ''true''\<rparr>) cm;
               ret (case r of Inl err \<Rightarrow> Some err | Inr _ \<Rightarrow> None)
             })
      })"

definition EnsureCreated :: "'w ci_env \<Rightarrow> nat \<Rightarrow> ('w, ensure_outcome) ci" where
  "EnsureCreated env p = (let E = env_ext env in do {
     modify_ci p (initializeConditionsToUnknown E);
     ci \<leftarrow> read_ci p;
     labelErr \<leftarrow> call (ensureAuthConfigMapLabeled env ci);
     m \<leftarrow> reconcileManager env p;
     (case m of
        Panic \<Rightarrow> ret Panic
      | Returned (Some err) \<Rightarrow> do {
          modify_ci p (SetCondition E (FalseCondition ShootControllerStartedCondition ''ShootControllerError'' (Error err)));
          ret (Returned (no_requeue, Failed, Some err))
        }
      | Returned None \<Rightarrow> do {
          r \<leftarrow> reconcileShootsNClusters env p;
          (case r of
             Panic \<Rightarrow> ret Panic
           | Returned (Some err) \<Rightarrow> do {
               modify_ci p (SetCondition E (FalseCondition ShootsReconciledCondition ''ShootsReconciledError'' (Error err)));
               ret (Returned (no_requeue, Success, None))
             }
           | Returned None \<Rightarrow> ret (Returned (no_requeue, Success, None)))
        })
   })"

definition EnsureDeleted :: "'w ci_env \<Rightarrow> nat \<Rightarrow> ('w, ensure_outcome) ci" where
  "EnsureDeleted env p = do {
     modify_ci p (initializeConditionsToUnknown (env_ext env));
     cleanupCareInstruction env p;
     ret (Returned (no_requeue, Success, None))
   }"

definition EnsureSuspended :: "('w, Result \<times> go_error option) ci" where
  "EnsureSuspended = ret (no_requeue, None)"

text \<open>\<open>lifecycle.Reconcile\<close> is given the key, the handlers and the status function.\<close>

definition CareInstruction_Reconcile ::
  "(obj_key \<Rightarrow> (nat \<Rightarrow> ('w, ensure_outcome) ci) \<Rightarrow> (nat \<Rightarrow> ('w, ensure_outcome) ci) \<Rightarrow> (nat \<Rightarrow> ('w, unit) ci)
     \<Rightarrow> ('w, outcome) ci) \<Rightarrow> 'w ci_env \<Rightarrow> obj_key \<Rightarrow> ('w, outcome) ci" where
  "CareInstruction_Reconcile lifecycle_Reconcile env req =
     lifecycle_Reconcile req (EnsureCreated env) (EnsureDeleted env) (\<lambda>p. modify_ci p (reconcileStatus (env_ext env)))"

subsection \<open>Watches\<close>

text \<open>A slice that starts as nil and is appended to: nil when nothing was appended.\<close>

definition requests_of :: "CareInstruction list \<Rightarrow> obj_key slice" where
  "requests_of cis = (if cis = [] then None else Some (map (\<lambda>ci. (Namespace ci, Name ci)) cis))"

definition enqueueCareInstructionForGardenCluster :: "'w ci_env \<Rightarrow> client_object \<Rightarrow> ('w, obj_key slice) state" where
  "enqueueCareInstructionForGardenCluster env obj =
     (case obj of
        ObjSecret secret \<Rightarrow> do {
          l \<leftarrow> gh_list_careinstructions (r_Client env) None;
          ret (case l of
                 Inl err \<Rightarrow> None
               | Inr items \<Rightarrow> requests_of (filter (\<lambda>ci. GardenClusterName (ci_Spec ci) = Name secret) items))
        }
      | _ \<Rightarrow> ret None)"

definition enqueueCareInstructionForCreatedClusters :: "client_object \<Rightarrow> obj_key slice" where
  "enqueueCareInstructionForCreatedClusters obj =
     (case obj of
        ObjCluster cluster \<Rightarrow>
          (case map_lookup (Labels cluster) CareInstructionLabel of
             None \<Rightarrow> None
           | Some careInstructionName \<Rightarrow> Some [(Namespace cluster, careInstructionName)])
      | _ \<Rightarrow> None)"

definition enqueueCareInstructionForAuthConfigMap :: "'w ci_env \<Rightarrow> client_object \<Rightarrow> ('w, obj_key slice) state" where
  "enqueueCareInstructionForAuthConfigMap env obj =
     (case obj of
        ObjConfigMap cm \<Rightarrow> do {
          l \<leftarrow> gh_list_careinstructions (r_Client env) (Some (Namespace cm));
          ret (case l of
                 Inl err \<Rightarrow> None
               | Inr items \<Rightarrow> requests_of (filter (\<lambda>ci. AuthenticationConfigMapName (ci_Spec ci) = Name cm) items))
        }
      | _ \<Rightarrow> ret None)"

text \<open>What the builder is given for each watched kind: the predicates and the map function.\<close>

record 'w ci_registration =
  watch_Secret :: "'w sc_state predicate_Funcs list \<times> (client_object \<Rightarrow> ('w, obj_key slice) state)"
  watch_Cluster :: "'w sc_state predicate_Funcs list \<times> (client_object \<Rightarrow> ('w, obj_key slice) state)"
  watch_ConfigMap :: "'w sc_state predicate_Funcs list \<times> (client_object \<Rightarrow> ('w, obj_key slice) state)"

definition ci_watches :: "'w ci_env \<Rightarrow> 'w ci_registration" where
  "ci_watches env = (let L = env_preds env; E = env_ext env in \<lparr>
     watch_Secret = ([PredicateFilterBySecretTypes L [SecretTypeKubeConfig E, SecretTypeOIDCConfig E]],
                     enqueueCareInstructionForGardenCluster env),
     watch_Cluster = ([PredicateHasLabel L CareInstructionLabel],
                      \<lambda>obj. ret (enqueueCareInstructionForCreatedClusters obj)),
     watch_ConfigMap = ([PredicateHasLabel L AuthConfigMapLabel, PredicateConfigMapDataChanged],
                        enqueueCareInstructionForAuthConfigMap env)\<rparr>)"

definition ci_SetupWithManager ::
  "('w ci_registration \<Rightarrow> ('w, go_error option) state) \<Rightarrow> 'w ci_env \<Rightarrow> ('w, go_error option) state" where
  "ci_SetupWithManager Complete env = Complete (ci_watches env)"

subsection \<open>The process as a step relation\<close>

text \<open>The lifecycle package reads the CareInstruction into an object of its own for every reconciliation,
  computes the status on this object after the handler and writes it back.  As with every write of the client,
  the answer of the API server replaces the object in memory as a whole: name and namespace are those of the
  object, everything else is what the server has by then, a Spec that was changed in the meantime included.
  The entries of the table may point to this object.  Between the handlers, managers may return at any time, on
  error or after cancellation, and the world may change.\<close>

definition load :: "CareInstruction \<Rightarrow> 'w ci_state \<Rightarrow> 'w ci_state" where
  "load c s = s\<lparr>cs_heap := (cs_heap s)(cs_next s := c), cs_next := cs_next s + 1\<rparr>"

definition manager_exits :: "'w goroutine \<Rightarrow> 'w ci_state \<Rightarrow> 'w ci_state" where
  "manager_exits g s = s\<lparr>cs_running := remove1 g (cs_running s), cs_closed := insert (gr_chan g) (cs_closed s)\<rparr>"

definition write_back :: "nat \<Rightarrow> CareInstruction \<Rightarrow> 'w ci_state \<Rightarrow> 'w ci_state" where
  "write_back p answered s = s\<lparr>cs_heap := (cs_heap s)(p := answered)\<rparr>"

inductive ci_step :: "'w ci_env \<Rightarrow> 'w ci_state \<Rightarrow> 'w ci_state \<Rightarrow> bool" for env where
  reconcile: "run_state (EnsureCreated env (cs_next s)) (load c s) = (out, s') \<Longrightarrow> ci_step env s s'"
| delete: "run_state (EnsureDeleted env (cs_next s)) (load c s) = (out, s') \<Longrightarrow> ci_step env s s'"
| status: "run_state (modify_ci p (reconcileStatus (env_ext env))) s = (u, s') \<Longrightarrow> ci_step env s s'"
| written: "p < cs_next s \<Longrightarrow> Name answered = Name (cs_heap s p) \<Longrightarrow> Namespace answered = Namespace (cs_heap s p) \<Longrightarrow>
    ci_step env s (write_back p answered s)"
| exits: "g \<in> set (cs_running s) \<Longrightarrow> ci_step env s (manager_exits g s)"
| outside: "ci_step env s (s\<lparr>cs_sc := sc\<rparr>)"

definition initial_state :: "'w sc_state \<Rightarrow> 'w ci_state" where
  "initial_state sc = \<lparr>cs_sc = sc, cs_heap = (\<lambda>_. \<lparr>Name = [], Namespace = [], Labels = None, Annotations = None, Generation = 0, Finalizers = None, OwnerReferences = None, DeletionTimestamp = None,
       ci_Spec = \<lparr>GardenClusterKubeConfigSecretName = \<lparr>skr_Name = [], skr_Key = []\<rparr>, GardenClusterName = [], GardenNamespace = [],
          spec_ShootSelector = None, PropagateLabels = None, AdditionalLabels = None, AdditionalAnnotations = None,
          EnableRBAC = False, AuthenticationConfigMapName = []\<rparr>,
       ci_Status = \<lparr>Conditions = None, Shoots = None, TotalTargetShoots = 0, CreatedClusters = 0, FailedClusters = 0,
          ShootControllerRestartCount = 0\<rparr>\<rparr>),
     cs_gardens = None, cs_cancelled = {}, cs_closed = {}, cs_running = [], cs_next = 0, cs_metrics = (\<lambda>_. None)\<rparr>"

inductive reachable :: "'w ci_env \<Rightarrow> 'w ci_state \<Rightarrow> bool" for env where
  start: "reachable env (initial_state sc)"
| step: "reachable env s \<Longrightarrow> ci_step env s s' \<Longrightarrow> reachable env s'"

text \<open>The states reached without a race on the Spec: no answer to a status write has brought another Spec
  into an object that an entry of the table points to.  Only such an answer can do that, since a handler
  works on an object of its own.\<close>

definition entry_specs_kept :: "'w ci_state \<Rightarrow> 'w ci_state \<Rightarrow> bool" where
  "entry_specs_kept s s' \<longleftrightarrow> (\<forall>k e. map_lookup (cs_gardens s) k = Some e \<longrightarrow>
     ci_Spec (cs_heap s' (careInstructionSpec e)) = ci_Spec (cs_heap s (careInstructionSpec e)))"

inductive reachable_unraced :: "'w ci_env \<Rightarrow> 'w ci_state \<Rightarrow> bool" for env where
  unraced_start: "reachable_unraced env (initial_state sc)"
| unraced_step: "reachable_unraced env s \<Longrightarrow> ci_step env s s' \<Longrightarrow> entry_specs_kept s s' \<Longrightarrow> reachable_unraced env s'"

section \<open>Lemmas\<close>

lemma unraced_reachable: "reachable_unraced env s \<Longrightarrow> reachable env s"
  by (induction rule: reachable_unraced.induct) (auto intro: reachable.intros)

text \<open>The creation handler step by step: \<open>r\<close> and \<open>s3\<close> are what the second half would give after
  the first, and matter only if the first succeeded.\<close>

definition created_outcome ::
  "ext \<Rightarrow> nat \<Rightarrow> go_error option exec \<Rightarrow> 'w ci_state \<Rightarrow> go_error option exec \<Rightarrow> 'w ci_state \<Rightarrow> ensure_outcome \<times> 'w ci_state" where
  "created_outcome E p m s2 r s3 = (case m of Panic \<Rightarrow> (Panic, s2)
     | Returned (Some err) \<Rightarrow> (Returned (no_requeue, Failed, Some err), s2\<lparr>cs_heap := (cs_heap s2)(p :=
          SetCondition E (FalseCondition ShootControllerStartedCondition ''ShootControllerError'' (Error err)) (cs_heap s2 p))\<rparr>)
     | Returned None \<Rightarrow> (case r of Panic \<Rightarrow> (Panic, s3)
        | Returned (Some err) \<Rightarrow> (Returned (no_requeue, Success, None), s3\<lparr>cs_heap := (cs_heap s3)(p :=
            SetCondition E (FalseCondition ShootsReconciledCondition ''ShootsReconciledError'' (Error err)) (cs_heap s3 p))\<rparr>)
        | Returned None \<Rightarrow> (Returned (no_requeue, Success, None), s3)))"

lemma EnsureCreated_run:
  assumes "run_state (EnsureCreated env p) s = (out, s')"
  obtains s0 le s1 m s2 r s3 where
    "s0 = s\<lparr>cs_heap := (cs_heap s)(p := initializeConditionsToUnknown (env_ext env) (cs_heap s p))\<rparr>"
    "run_state (call (ensureAuthConfigMapLabeled env (cs_heap s0 p))) s0 = (le, s1)"
    "run_state (reconcileManager env p) s1 = (m, s2)"
    "run_state (reconcileShootsNClusters env p) s2 = (r, s3)"
    "(out, s') = created_outcome (env_ext env) p m s2 r s3"
proof -
  define s0 where "s0 = s\<lparr>cs_heap := (cs_heap s)(p := initializeConditionsToUnknown (env_ext env) (cs_heap s p))\<rparr>"
  obtain le s1 where c: "run_state (call (ensureAuthConfigMapLabeled env (cs_heap s0 p))) s0 = (le, s1)" by fastforce
  obtain m s2 where m: "run_state (reconcileManager env p) s1 = (m, s2)" by fastforce
  obtain r s3 where r: "run_state (reconcileShootsNClusters env p) s2 = (r, s3)" by fastforce
  show ?thesis
    by (rule that [OF s0_def c m r], use assms c m r in \<open>auto simp: EnsureCreated_def created_outcome_def Let_def s0_def split: exec.splits option.splits\<close>)
qed

end
