(* ===== verification/Ci_Invariants.thy ===== *)
theory Ci_Invariants
  imports Ci_Controller
begin

section \<open>Invariants of the CareInstruction controller\<close>

text \<open>
  What holds in every state that the process can reach, whatever the API servers answer: the goroutines
  that have not been cancelled are the ones the table knows how to cancel, so there is at most one per
  CareInstruction; a nil dereference is impossible.  The proofs run the handlers through Hoare
  triples over the primitive operations.
\<close>

subsection \<open>The primitive operations\<close>

lemma run_call: "\<exists>sc. snd (run_state (call m) s) = s\<lparr>cs_sc := sc\<rparr>"
  by (auto simp: call_def split: prod.split)

lemma run_call_answer: "fst (run_state (call m) s) = fst (run_state m (sc_world (cs_sc s)))"
  by (simp add: call_def api_def split: prod.split)

text \<open>An assertion that does not look at the world or the events survives every API call.\<close>

definition worldless :: "('w ci_state \<Rightarrow> bool) \<Rightarrow> bool" where
  "worldless P \<longleftrightarrow> (\<forall>s sc. P (s\<lparr>cs_sc := sc\<rparr>) = P s)"

lemma hoare_in_sc: "worldless P \<Longrightarrow> hoare P (in_sc m) (\<lambda>_. P)"
  by (rule hoareI) (auto simp: worldless_def split: prod.splits)

lemma hoare_call: "worldless P \<Longrightarrow> hoare P (call m) (\<lambda>_. P)"
  unfolding call_def by (rule hoare_in_sc)

lemma hoare_read: "hoare P (read_ci p) (\<lambda>c s. P s \<and> cs_heap s p = c)"
  by (rule hoareI) auto

lemma hoare_lookup: "hoare P (lookup_garden k) (\<lambda>e s. P s \<and> map_lookup (cs_gardens s) k = e)"
  by (rule hoareI) auto

subsection \<open>The invariant\<close>

definition entry_ok :: "'w ci_state \<Rightarrow> 'w garden \<Rightarrow> bool" where
  "entry_ok s e \<longleftrightarrow> (g_mgr e \<noteq> None \<longrightarrow> gardenClient e \<noteq> None \<and> cancelFunc e \<noteq> None)
     \<and> (g_mgr e = None \<longrightarrow> (\<forall>ctx. cancelFunc e = Some ctx \<longrightarrow> ctx \<in> cs_cancelled s))
     \<and> (\<forall>ctx. cancelFunc e = Some ctx \<longrightarrow> ctx < cs_next s)
     \<and> (\<forall>ch. stopChan e = Some ch \<longrightarrow> ch < cs_next s)"

definition live :: "'w ci_state \<Rightarrow> 'w goroutine \<Rightarrow> bool" where
  "live s g \<longleftrightarrow> g \<in> set (cs_running s) \<and> gr_ctx g \<notin> cs_cancelled s"

definition table_inv :: "'w ci_state \<Rightarrow> bool" where
  "table_inv s \<longleftrightarrow>
     (\<forall>g \<in> set (cs_running s). gr_ctx g < cs_next s \<and> gr_chan g < cs_next s)
   \<and> distinct (map gr_ctx (cs_running s))
   \<and> cs_cancelled s \<subseteq> {..<cs_next s} \<and> cs_closed s \<subseteq> {..<cs_next s}
   \<and> (\<forall>k e. map_lookup (cs_gardens s) k = Some e \<longrightarrow> entry_ok s e)
   \<and> (\<forall>g. live s g \<longrightarrow> (\<exists>e. map_lookup (cs_gardens s) (gr_key g) = Some e \<and> cancelFunc e = Some (gr_ctx g)))"

text \<open>The client of an entry is there once its manager was started.\<close>

definition client_ready :: "string \<Rightarrow> 'w ci_state \<Rightarrow> bool" where
  "client_ready k s \<longleftrightarrow> (\<exists>e. map_lookup (cs_gardens s) k = Some e \<and> gardenClient e \<noteq> None)"

lemma entry_ok_frame [simp]:
  "entry_ok (s\<lparr>cs_sc := sc\<rparr>) e = entry_ok s e" "entry_ok (s\<lparr>cs_heap := h\<rparr>) e = entry_ok s e"
  "entry_ok (s\<lparr>cs_metrics := m\<rparr>) e = entry_ok s e" "entry_ok (s\<lparr>cs_gardens := gs\<rparr>) e = entry_ok s e"
  "entry_ok (s\<lparr>cs_running := rs\<rparr>) e = entry_ok s e" "entry_ok (s\<lparr>cs_closed := cl\<rparr>) e = entry_ok s e"
  by (simp_all add: entry_ok_def)

lemma live_frame [simp]:
  "live (s\<lparr>cs_sc := sc\<rparr>) = live s" "live (s\<lparr>cs_heap := h\<rparr>) = live s" "live (s\<lparr>cs_metrics := m\<rparr>) = live s"
  "live (s\<lparr>cs_gardens := gs\<rparr>) = live s" "live (s\<lparr>cs_next := n\<rparr>) = live s" "live (s\<lparr>cs_closed := cl\<rparr>) = live s"
  by (simp_all add: live_def fun_eq_iff)

lemma table_inv_frame [simp]:
  "table_inv (s\<lparr>cs_sc := sc\<rparr>) = table_inv s" "table_inv (s\<lparr>cs_heap := h\<rparr>) = table_inv s"
  "table_inv (s\<lparr>cs_metrics := m\<rparr>) = table_inv s"
  by (simp_all add: table_inv_def)

lemma client_ready_frame [simp]:
  "client_ready k (s\<lparr>cs_sc := sc\<rparr>) = client_ready k s" "client_ready k (s\<lparr>cs_heap := h\<rparr>) = client_ready k s"
  "client_ready k (s\<lparr>cs_metrics := m\<rparr>) = client_ready k s" "client_ready k (s\<lparr>cs_cancelled := cc\<rparr>) = client_ready k s"
  by (simp_all add: client_ready_def)

lemma table_inv_entryD: "table_inv s \<Longrightarrow> map_lookup (cs_gardens s) k = Some e \<Longrightarrow> entry_ok s e"
  by (auto simp: table_inv_def)

lemma table_inv_liveD:
  "table_inv s \<Longrightarrow> live s g \<Longrightarrow> \<exists>e. map_lookup (cs_gardens s) (gr_key g) = Some e \<and> cancelFunc e = Some (gr_ctx g)"
  by (auto simp: table_inv_def)

lemma live_unique:
  assumes "table_inv s" "live s g" "live s g'" "gr_key g = gr_key g'"
  shows "g = g'"
proof -
  have "gr_ctx g = gr_ctx g'"
    using table_inv_liveD [OF assms(1,2)] table_inv_liveD [OF assms(1,3)] assms(4) by auto
  moreover have "inj_on gr_ctx (set (cs_running s))" using assms(1) by (auto simp: table_inv_def distinct_map)
  ultimately show ?thesis using assms(2,3) by (auto simp: live_def dest: inj_onD)
qed

lemma table_inv_initial: "table_inv (initial_state sc)"
  by (simp add: table_inv_def initial_state_def live_def)

lemma table_inv_load: "table_inv s \<Longrightarrow> table_inv (load c s)"
  by (fastforce simp: table_inv_def load_def entry_ok_def live_def)

lemma table_inv_exits: "table_inv s \<Longrightarrow> g \<in> set (cs_running s) \<Longrightarrow> table_inv (manager_exits g s)"
  by (fastforce simp: table_inv_def manager_exits_def live_def entry_ok_def distinct_map
      dest: notin_set_remove1 inj_on_subset [OF _ set_remove1_subset])

text \<open>An update of an entry that keeps its context and channel.\<close>

lemma table_inv_update_entry:
  assumes "table_inv s" "map_lookup (cs_gardens s) k = Some e"
    and "cancelFunc e' = cancelFunc e" "entry_ok s e'"
  shows "table_inv (s\<lparr>cs_gardens := map_put (cs_gardens s) k e'\<rparr>)"
  using assms unfolding table_inv_def by auto

lemma table_inv_cancel:
  assumes "table_inv s" "ctx < cs_next s"
  shows "table_inv (s\<lparr>cs_cancelled := insert ctx (cs_cancelled s)\<rparr>)"
  using assms by (fastforce simp: table_inv_def entry_ok_def live_def)

lemma table_inv_delete_entry:
  assumes "table_inv s" "\<forall>g. live s g \<longrightarrow> gr_key g \<noteq> k"
  shows "table_inv (s\<lparr>cs_gardens := map_delete (cs_gardens s) k\<rparr>)"
  using assms unfolding table_inv_def by auto

subsection \<open>Restart and removal\<close>

lemma restart_inv: "hoare table_inv (restartShootController p) (\<lambda>_. table_inv)"
proof (rule hoareI)
  fix s :: "'w ci_state" and a s'
  assume inv: "table_inv s" and run: "run_state (restartShootController p) s = (a, s')"
  let ?k = "gardenKey (cs_heap s p)"
  show "table_inv s'"
  proof (cases "\<exists>e ctx. map_lookup (cs_gardens s) ?k = Some e \<and> cancelFunc e = Some ctx")
    case False
    with inv run show ?thesis by (auto simp: restartShootController_def split: option.splits)
  next
    case True
    then obtain e ctx where e: "map_lookup (cs_gardens s) ?k = Some e" "cancelFunc e = Some ctx" by blast
    let ?s = "s\<lparr>cs_cancelled := insert ctx (cs_cancelled s)\<rparr>"
    have ok: "entry_ok s e" using inv e(1) by (rule table_inv_entryD)
    then have inv1: "table_inv ?s" using inv e by (intro table_inv_cancel) (auto simp: entry_ok_def)
    have "table_inv (?s\<lparr>cs_gardens := map_put (cs_gardens ?s) ?k (e\<lparr>g_mgr := None\<rparr>)\<rparr>)"
      by (rule table_inv_update_entry [OF inv1]) (use e ok in \<open>auto simp: entry_ok_def\<close>)
    with run e show ?thesis by (auto simp: restartShootController_def split: if_splits)
  qed
qed

lemma restart_client_ready: "hoare (client_ready k) (restartShootController p) (\<lambda>_. client_ready k)"
  by (rule hoareI) (auto simp: restartShootController_def client_ready_def split: option.splits if_splits)

lemma cleanup_spec:
  assumes inv: "table_inv s" and run: "run_state (cleanupCareInstruction env p) s = (u, s')"
  shows "table_inv s'" "\<forall>g. live s' g \<longrightarrow> gr_key g \<noteq> gardenKey (cs_heap s p)"
proof -
  let ?k = "gardenKey (cs_heap s p)"
  let ?h = "(cs_heap s)(p := SetCondition (env_ext env)
       (FalseCondition DeleteCondition ''PendingDeletion'' ''CareInstruction is being deleted'') (cs_heap s p))"
  have k: "gardenKey (?h p) = ?k" by (simp add: gardenKey_def)
  have "table_inv s' \<and> (\<forall>g. live s' g \<longrightarrow> gr_key g \<noteq> ?k)"
  proof (cases "\<exists>e ctx. map_lookup (cs_gardens s) ?k = Some e \<and> cancelFunc e = Some ctx")
    case False
    with run k have "s' = s\<lparr>cs_heap := ?h\<rparr>" by (auto simp: cleanupCareInstruction_def split: option.splits)
    with inv False show ?thesis by (auto dest: table_inv_liveD)
  next
    case True
    then obtain e ctx where e: "map_lookup (cs_gardens s) ?k = Some e" "cancelFunc e = Some ctx" by blast
    with run k have s': "s' = s\<lparr>cs_heap := ?h, cs_cancelled := insert ctx (cs_cancelled s),
        cs_gardens := map_delete (cs_gardens s) ?k\<rparr>" by (auto simp: cleanupCareInstruction_def)
    have "ctx < cs_next s" using table_inv_entryD [OF inv e(1)] e(2) by (auto simp: entry_ok_def)
    from table_inv_cancel [OF inv this] have inv1: "table_inv (s\<lparr>cs_cancelled := insert ctx (cs_cancelled s)\<rparr>)" .
    let ?s = "s\<lparr>cs_cancelled := insert ctx (cs_cancelled s)\<rparr>"
    have gone: "\<forall>g. live ?s g \<longrightarrow> gr_key g \<noteq> ?k"
    proof (intro allI impI notI)
      fix g assume "live ?s g" "gr_key g = ?k"
      moreover from this have "live s g" "gr_ctx g \<noteq> ctx" by (auto simp: live_def)
      ultimately show False using table_inv_liveD [OF inv, of g] e by auto
    qed
    have eq: "s' = (?s\<lparr>cs_gardens := map_delete (cs_gardens ?s) ?k\<rparr>)\<lparr>cs_heap := ?h\<rparr>" by (simp add: s')
    have "table_inv s'" unfolding eq using table_inv_delete_entry [OF inv1 gone] by simp
    moreover have "live s' = live ?s" by (simp add: s' live_def fun_eq_iff)
    ultimately show ?thesis using gone by simp
  qed
  then show "table_inv s'" "\<forall>g. live s' g \<longrightarrow> gr_key g \<noteq> ?k" by auto
qed

subsection \<open>The manager\<close>

lemma seed_hash_hoare:
  assumes "worldless P"
  shows "hoare P (seed_hash env p) (\<lambda>_. P)"
  unfolding seed_hash_def
  by (intro hoare_bind [OF hoare_read] hoare_bind [OF hoare_lookup] hoare_if hoare_ret
        hoare_conseq [OF hoare_bind [OF hoare_call [OF assms] hoare_ret]]) auto

text \<open>\<open>reconcileManager\<close> by its phases.\<close>

lemma reconcileManager_phases:
  assumes "run_state (reconcileManager env p) s = (r, s')" "P s" "cs_heap s p = ci"
    and seed: "hoare P (seed_hash env p) (\<lambda>_. P)"
    and failed: "\<And>err t. P t \<Longrightarrow> Q (Returned (Some err)) t"
    and register: "\<And>h. hoare P (register_garden p (gardenKey ci) h) (\<lambda>_. R)"
    and access: "hoare R (call (GetGardenClusterAccess env ci)) A"
    and connect: "\<And>acc. hoare (A acc) (connect_manager env p (gardenKey ci) acc) Q"
  shows "Q r s'"
proof -
  have "hoare P (do { h \<leftarrow> seed_hash env p;
     (case h of Inl err \<Rightarrow> ret (Returned (Some err))
      | Inr h' \<Rightarrow> do { register_garden p (gardenKey ci) h'; acc \<leftarrow> call (GetGardenClusterAccess env ci);
          connect_manager env p (gardenKey ci) acc }) }) Q"
    by (intro hoare_bind [OF seed] hoare_sum hoare_bind [OF register] hoare_bind [OF access] connect hoare_ret failed)
  from hoareD [OF this assms(2)] assms(1,3) show ?thesis unfolding reconcileManager_def Let_def by simp
qed

text \<open>What is known of the entry of a key while its manager is being replaced.\<close>

definition stopped :: "string \<Rightarrow> 'w ci_state \<Rightarrow> bool" where
  "stopped key s \<longleftrightarrow> table_inv s \<and> (\<exists>g. map_lookup (cs_gardens s) key = Some g
     \<and> (\<forall>ctx. cancelFunc g = Some ctx \<longrightarrow> ctx \<in> cs_cancelled s))"

lemma worldless_table [simp]: "worldless table_inv" "worldless (stopped key)" "worldless (client_ready key)"
  by (simp_all add: worldless_def stopped_def)

lemma register_inv:
  assumes "table_inv s" "run_state (register_garden p key h) s = (u, s')"
  shows "table_inv s'" "map_lookup (cs_gardens s') key \<noteq> None" "cs_heap s' = cs_heap s"
proof -
  let ?gs = "Some (map_entries (cs_gardens s))"
  have look: "map_lookup ?gs k = map_lookup (cs_gardens s) k" for k by (simp add: map_lookup_def)
  have "s' = s\<lparr>cs_gardens := if map_lookup ?gs key = None then map_put ?gs key (new_garden p h) else ?gs\<rparr>"
    using assms(2) by (simp add: register_garden_def Let_def)
  moreover have "entry_ok s (new_garden p h)" by (simp add: entry_ok_def new_garden_def)
  ultimately show "table_inv s'" "map_lookup (cs_gardens s') key \<noteq> None" "cs_heap s' = cs_heap s"
    using assms(1) look unfolding table_inv_def by (auto simp del: not_None_eq map_lookup_Some)
qed

lemma stop_manager_inv:
  assumes "table_inv s" "map_lookup (cs_gardens s) key = Some g" "run_state (stop_manager key g) s = (u, s')"
  shows "stopped key s'" "cs_heap s' = cs_heap s" "u = Returned ()"
proof -
  note ok = table_inv_entryD [OF assms(1,2)]
  show "u = Returned ()" using assms(2,3) by (auto simp: stop_manager_def split: if_splits option.splits)
  show "cs_heap s' = cs_heap s" using assms(2,3) by (auto simp: stop_manager_def split: if_splits option.splits)
  show "stopped key s'"
  proof (cases "g_mgr g = None")
    case True
    with assms ok show ?thesis by (auto simp: stop_manager_def stopped_def entry_ok_def)
  next
    case False
    with ok obtain ctx where ctx: "cancelFunc g = Some ctx" "ctx < cs_next s" by (auto simp: entry_ok_def)
    with False assms have "s' = s\<lparr>cs_cancelled := insert ctx (cs_cancelled s)\<rparr>"
      by (auto simp: stop_manager_def)
    with table_inv_cancel [OF assms(1) ctx(2)] assms(2) ctx(1) show ?thesis by (auto simp: stopped_def)
  qed
qed

lemma launch_run:
  assumes "map_lookup (cs_gardens s) key = Some g"
  shows "run_state (launch_manager env p key cfg c m sc) s =
    (Returned None, s\<lparr>cs_heap := (cs_heap s)(p := SetCondition (env_ext env) (TrueCondition ShootControllerStartedCondition ''Started'' []) (cs_heap s p)),
          cs_gardens := map_put (cs_gardens s) key (g\<lparr>gardenConfig := Some cfg, gardenClient := Some c, g_mgr := Some m,
             cancelFunc := Some (cs_next s), stopChan := Some (cs_next s + 1), careInstructionSpec := p\<rparr>),
          cs_running := \<lparr>gr_key = key, gr_ctx = cs_next s, gr_chan = cs_next s + 1, gr_controller = sc\<rparr> # cs_running s,
          cs_next := cs_next s + 2\<rparr>)"
  using assms by (simp add: launch_manager_def)

lemma launch_inv:
  assumes "stopped key s" "run_state (launch_manager env p key cfg c m sc) s = (u, s')"
  shows "table_inv s'" "client_ready key s'" "u = Returned None"
proof -
  from assms(1) obtain g where inv: "table_inv s" and g: "map_lookup (cs_gardens s) key = Some g"
    and canc: "\<forall>ctx. cancelFunc g = Some ctx \<longrightarrow> ctx \<in> cs_cancelled s" by (auto simp: stopped_def)
  note s' = assms(2) [unfolded launch_run [OF g], THEN arg_cong [where f = snd], unfolded snd_conv, symmetric]
  show "u = Returned None" using assms(2) unfolding launch_run [OF g] by simp
  have "gr_ctx x < cs_next s" if "x \<in> set (cs_running s)" for x using inv that by (auto simp: table_inv_def)
  then have fresh: "cs_next s \<notin> gr_ctx ` set (cs_running s)" by force
  have other: "gr_key x \<noteq> key" if "live s x" for x
    using table_inv_liveD [OF inv that] that g canc by (auto simp: live_def)
  show "client_ready key s'" by (simp add: s' client_ready_def)
  show "table_inv s'"
    unfolding table_inv_def
  proof (intro conjI allI impI)
    show "\<forall>x\<in>set (cs_running s'). gr_ctx x < cs_next s' \<and> gr_chan x < cs_next s'"
      using inv by (auto simp: s' table_inv_def)
    show "distinct (map gr_ctx (cs_running s'))" using inv fresh by (auto simp: s' table_inv_def)
    show "cs_cancelled s' \<subseteq> {..<cs_next s'}" "cs_closed s' \<subseteq> {..<cs_next s'}"
      using inv by (fastforce simp: s' table_inv_def)+
  next
    fix k e assume "map_lookup (cs_gardens s') k = Some e"
    then show "entry_ok s' e"
      using table_inv_entryD [OF inv, of k e] by (auto simp: s' entry_ok_def split: if_splits)
  next
    fix x assume "live s' x"
    then consider "x = \<lparr>gr_key = key, gr_ctx = cs_next s, gr_chan = cs_next s + 1, gr_controller = sc\<rparr>" | "live s x"
      by (auto simp: live_def s')
    then show "\<exists>e. map_lookup (cs_gardens s') (gr_key x) = Some e \<and> cancelFunc e = Some (gr_ctx x)"
    proof cases
      case 2
      with other table_inv_liveD [OF inv 2] show ?thesis by (auto simp: s')
    qed (simp add: s')
  qed
qed

lemma start_manager_inv:
  "hoare (stopped key) (start_manager env p key cfg)
     (\<lambda>r s. table_inv s \<and> r \<noteq> Panic \<and> (r = Returned None \<longrightarrow> client_ready key s))"
proof -
  have stop: "table_inv s" if "stopped key s" for s :: "'w ci_state" using that by (simp add: stopped_def)
  have launch: "hoare (stopped key) (launch_manager env p key cfg c m sc)
      (\<lambda>r s. table_inv s \<and> r \<noteq> Panic \<and> (r = Returned None \<longrightarrow> client_ready key s))"
    for c m sc by (rule hoareI) (auto dest: launch_inv)
  show ?thesis
    unfolding start_manager_def Let_def
    by (rule hoare_bind [OF hoare_conseq [OF hoare_read]], assumption, erule conjunct1)
       (intro hoare_bind [OF hoare_call] hoare_bind [OF hoare_in_sc] launch hoare_sum hoare_option
          hoare_ret worldless_table; auto intro: stop)
qed

lemma hoare_modify_ci:
  "(\<And>s. P s \<Longrightarrow> Q () (s\<lparr>cs_heap := (cs_heap s)(p := f (cs_heap s p))\<rparr>)) \<Longrightarrow> hoare P (modify_ci p f) Q"
  by (rule hoareI) auto

lemma hoare_get: "hoare P State_Monad.get (\<lambda>t s. P s \<and> t = s)"
  by (rule hoareI) (auto simp: State_Monad.get_def)

lemma gardenKey_SetCondition [simp]: "gardenKey (SetCondition E c ci) = gardenKey ci"
  by (simp add: gardenKey_def)

abbreviation registered :: "string \<Rightarrow> 'w ci_state \<Rightarrow> bool" where
  "registered key s \<equiv> table_inv s \<and> map_lookup (cs_gardens s) key \<noteq> None"

text \<open>The condition that \<open>reconcileManager\<close> dereferences.\<close>

definition started_present :: "'w ci_env \<Rightarrow> CareInstruction \<Rightarrow> bool" where
  "started_present env c \<longleftrightarrow> get_condition (env_ext env) c ShootControllerStartedCondition \<noteq> None"

text \<open>The flag \<open>b\<close> says whether the condition is known to be there; without it the invariant is kept all
  the same.\<close>

lemma ensure_manager_inv:
  "hoare (\<lambda>s. registered key s \<and> (b \<longrightarrow> started_present env (cs_heap s p))) (ensure_manager env p key cfg)
     (\<lambda>r s. table_inv s \<and> (b \<longrightarrow> r \<noteq> Panic) \<and> (r = Returned None \<longrightarrow> client_ready key s))"
proof -
  have stop: "hoare (\<lambda>s. table_inv s \<and> map_lookup (cs_gardens s) key = Some g) (stop_manager key g)
      (\<lambda>r s. stopped key s \<and> r = Returned ())" for g
    by (rule hoareI) (auto dest: stop_manager_inv)
  have start: "hoare (\<lambda>s. stopped key s \<and> r = Returned ()) (start_manager env p key cfg)
      (\<lambda>r s. table_inv s \<and> (b \<longrightarrow> r \<noteq> Panic) \<and> (r = Returned None \<longrightarrow> client_ready key s))" for r
    by (rule hoare_conseq [OF start_manager_inv]) auto
  have unchanged: "client_ready key s" if "manager_unchanged env s g ci cfg = Returned True" "table_inv s" "map_lookup (cs_gardens s) key = Some g"
    for s g ci using that table_inv_entryD [of s key g]
    by (auto simp: manager_unchanged_True_iff client_ready_def entry_ok_def)
  show ?thesis
    unfolding ensure_manager_def
    by (intro hoare_bind [OF hoare_lookup] hoare_bind [OF hoare_read] hoare_bind [OF hoare_get] hoare_option hoare_exec hoare_if
          hoare_bind [OF hoare_pre [OF stop]] start hoare_ret)
       (auto intro: unchanged simp: manager_unchanged_Panic_iff started_present_def)
qed

text \<open>\<open>reconcileManager\<close> keeps the invariant and, when it reports success, the client of the Garden cluster is
  there; it does not dereference nil if the condition it reads is there.\<close>

lemma started_present_SetCondition:
  "lawful_conditions (env_ext env) \<Longrightarrow> started_present env c \<Longrightarrow> started_present env (SetCondition (env_ext env) k c)"
  by (simp add: started_present_def get_condition_SetCondition)

lemma reconcileManager_inv:
  assumes "table_inv s" "run_state (reconcileManager env p) s = (r, s')"
  shows "table_inv s'" "r = Returned None \<Longrightarrow> client_ready (gardenKey (cs_heap s p)) s'"
    "lawful_conditions (env_ext env) \<Longrightarrow> started_present env (cs_heap s p) \<Longrightarrow> r \<noteq> Panic"
proof -
  define ci where "ci = cs_heap s p"
  define b where "b \<longleftrightarrow> lawful_conditions (env_ext env) \<and> started_present env ci"
  let ?k = "gardenKey ci"
  let ?I = "\<lambda>s. table_inv s \<and> (b \<longrightarrow> started_present env (cs_heap s p))"
  let ?R = "\<lambda>s. registered ?k s \<and> (b \<longrightarrow> started_present env (cs_heap s p))"
  let ?Q = "\<lambda>r s. table_inv s \<and> (b \<longrightarrow> r \<noteq> Panic) \<and> (r = Returned None \<longrightarrow> client_ready ?k s)"
  have register: "hoare ?I (register_garden p ?k h) (\<lambda>_. ?R)" for h
    by (rule hoareI) (auto dest: register_inv simp del: not_None_eq)
  have wl: "worldless ?R" "worldless ?I" by (simp_all add: worldless_def)
  have modify: "hoare ?R (modify_ci p (SetCondition (env_ext env) c)) (\<lambda>_. ?R)" for c
    by (rule hoare_modify_ci) (auto simp: b_def intro: started_present_SetCondition)
  have connect: "hoare ?R (connect_manager env p ?k acc) ?Q" for acc
    unfolding connect_manager_def
    by (intro hoare_sum hoare_bind [OF modify] ensure_manager_inv hoare_ret) auto
  have "?I s" using assms(1) by (simp add: b_def ci_def)
  then have "?Q r s'"
    by (rule reconcileManager_phases [where P = ?I and Q = ?Q, OF assms(2) _ ci_def [symmetric] seed_hash_hoare [OF wl(2)] _ register
          hoare_call [OF wl(1)] connect]) auto
  then show "table_inv s'" "r = Returned None \<Longrightarrow> client_ready (gardenKey (cs_heap s p)) s'"
    "lawful_conditions (env_ext env) \<Longrightarrow> started_present env (cs_heap s p) \<Longrightarrow> r \<noteq> Panic"
    by (auto simp: ci_def b_def)
qed

subsection \<open>Shoots and Clusters\<close>

abbreviation serving :: "string \<Rightarrow> 'w ci_state \<Rightarrow> bool" where
  "serving key s \<equiv> table_inv s \<and> client_ready key s"

lemma serving_worldless: "worldless (serving key)"
  by (simp add: worldless_def)

lemma serving_modify: "hoare (serving key) (modify_ci p f) (\<lambda>_. serving key)"
  by (rule hoare_modify_ci) simp

lemma serving_restart: "hoare (serving key) (restartShootController p) (\<lambda>_. serving key)"
  using restart_inv restart_client_ready unfolding hoare_def by blast

lemmas serving_steps = hoare_bind [OF hoare_call [OF serving_worldless]] hoare_bind [OF serving_modify]
  hoare_bind [OF serving_restart] hoare_bind [OF hoare_pre [OF hoare_call [OF serving_worldless]]]
  hoare_bind [OF hoare_pre [OF serving_modify]]

lemma phases_serving:
  "hoare (serving key) (handle_ci_annotation env p) (\<lambda>r s. serving key s \<and> r \<noteq> Inl Panic)"
  "hoare (serving key) (list_target_shoots env p c) (\<lambda>r s. serving key s \<and> r \<noteq> Inl Panic)"
  "hoare (serving key) (list_owned_clusters env p) (\<lambda>r s. serving key s \<and> r \<noteq> Inl Panic)"
  "hoare (serving key) (report_statuses env p ex cl co e b) (\<lambda>r s. serving key s \<and> r \<noteq> Panic)"
proof -
  have read: "hoare (serving key) (read_ci p) (\<lambda>_. serving key)" by (rule hoareI) auto
  show "hoare (serving key) (handle_ci_annotation env p) (\<lambda>r s. serving key s \<and> r \<noteq> Inl Panic)"
    unfolding handle_ci_annotation_def
    by (intro hoare_bind [OF read] serving_steps hoare_if hoare_sum hoare_ret) auto
  show "hoare (serving key) (list_target_shoots env p c) (\<lambda>r s. serving key s \<and> r \<noteq> Inl Panic)"
    unfolding list_target_shoots_def
    by (intro hoare_bind [OF read] serving_steps hoare_if hoare_sum hoare_ret) auto
  show "hoare (serving key) (list_owned_clusters env p) (\<lambda>r s. serving key s \<and> r \<noteq> Inl Panic)"
    unfolding list_owned_clusters_def
    by (intro hoare_bind [OF read] serving_steps hoare_if hoare_sum hoare_ret) auto
  show "hoare (serving key) (report_statuses env p ex cl co e b) (\<lambda>r s. serving key s \<and> r \<noteq> Panic)"
    unfolding report_statuses_def Let_def
    by (intro serving_steps hoare_if hoare_option hoare_prod hoare_ret) auto
qed

lemma auth_change_serving:
  "hoare (serving key) (handle_auth_change env p key) (\<lambda>r s. serving key s \<and> r \<noteq> Inl Panic)"
proof -
  have read: "hoare (serving key) (read_ci p) (\<lambda>_. serving key)" by (rule hoareI) auto
  have modify: "hoare (serving key) (modify_garden key (\<lambda>g. g\<lparr>authConfigMapHash := h\<rparr>)) (\<lambda>r s. serving key s \<and> r \<noteq> Panic)" for h
  proof (rule hoareI)
    fix s :: "'w ci_state" and u s'
    assume inv: "serving key s" and run: "run_state (modify_garden key (\<lambda>g. g\<lparr>authConfigMapHash := h\<rparr>)) s = (u, s')"
    from inv obtain e where e: "map_lookup (cs_gardens s) key = Some e" "gardenClient e \<noteq> None"
      by (auto simp: client_ready_def)
    from inv have "table_inv (s\<lparr>cs_gardens := map_put (cs_gardens s) key (e\<lparr>authConfigMapHash := h\<rparr>)\<rparr>)"
      by (intro table_inv_update_entry [OF _ e(1)]) (use table_inv_entryD [of s key e] e(1) in \<open>auto simp: entry_ok_def\<close>)
    with run e show "serving key s' \<and> u \<noteq> Panic" by (auto simp: client_ready_def)
  qed
  show ?thesis
    unfolding handle_auth_change_def Let_def
    by (intro hoare_bind [OF read] serving_steps hoare_bind [OF hoare_lookup] hoare_bind [OF hoare_pre [OF modify]]
          hoare_bind [OF hoare_pre [OF serving_restart]] hoare_if hoare_sum hoare_option hoare_exec hoare_ret) (auto simp: client_ready_def)
qed

lemma reconcile_clusters_serving:
  "hoare (serving key) (reconcile_clusters env p c inc exc) (\<lambda>r s. serving key s \<and> r \<noteq> Panic)"
proof -
  have read: "hoare (serving key) (read_ci p) (\<lambda>_. serving key)" by (rule hoareI) auto
  have annot: "hoare (serving key) (handle_cluster_annotations env ci c xs) (\<lambda>_. serving key)" for ci xs
    unfolding handle_cluster_annotations_def annotate_via_cluster_def Let_def
    by (rule hoare_for_range) (intro serving_steps hoare_if hoare_option hoare_prod hoare_ret; simp)
  have conf: "hoare (serving key) (find_conflicts env ci ns xs) (\<lambda>r s. serving key s \<and> r \<noteq> Inl Panic)" for ci ns xs
    unfolding find_conflicts_def
  proof (rule hoare_pre [OF hoare_for_range [where I = "\<lambda>r s. serving key s \<and> r \<noteq> Inl Panic"]])
    fix x and a :: "(string \<times> conflictInfo) list phase"
    have get: "hoare (\<lambda>s. serving key s \<and> a \<noteq> Inl Panic) (call (gh_get_cluster (r_Client env) k)) (\<lambda>_. serving key)" for k
      by (rule hoare_pre [OF hoare_call [OF serving_worldless]]) simp
    show "hoare (\<lambda>s. serving key s \<and> a \<noteq> Inl Panic) (check_conflict env ci ns x a) (\<lambda>r s. serving key s \<and> r \<noteq> Inl Panic)"
      unfolding check_conflict_def
      by (intro hoare_sum hoare_if hoare_bind [OF get] hoare_ret) (auto split: sum.splits option.splits)
  qed simp
  have cond: "hoare (serving key) (if b then ret (Inr []) else find_conflicts env ci ns xs)
     (\<lambda>r s. serving key s \<and> r \<noteq> Inl Panic)" for b ci ns xs
    by (intro hoare_if conf hoare_ret) auto
  show ?thesis
    unfolding reconcile_clusters_def Let_def
    by (intro hoare_bind [OF phases_serving(3)] hoare_sum hoare_ret hoare_bind [OF hoare_pre [OF read]] hoare_bind [OF annot]
          hoare_prod hoare_bind [OF cond] hoare_pre [OF phases_serving(4)]) auto
qed

text \<open>A reconciliation of Shoots and Clusters that follows a successful \<open>reconcileManager\<close> never
  dereferences nil.\<close>

lemma reconcileShoots_inv:
  assumes "serving (gardenKey (cs_heap s p)) s" "run_state (reconcileShootsNClusters env p) s = (r, s')"
  shows "table_inv s'" "r \<noteq> Panic"
proof -
  define k where "k = gardenKey (cs_heap s p)"
  let ?P = "\<lambda>s. serving k s \<and> gardenKey (cs_heap s p) = k"
  let ?Q = "\<lambda>r s. serving k s \<and> r \<noteq> Panic"
  have body: "hoare ?P (shoots_body env p) ?Q"
  proof (rule hoareI)
    fix t a t' assume pre: "?P t" and run: "run_state (shoots_body env p) t = (a, t')"
    from pre obtain g cl where g: "map_lookup (cs_gardens t) k = Some g" "gardenClient g = Some cl"
      by (auto simp: client_ready_def)
    let ?m = "do { a \<leftarrow> handle_ci_annotation env p;
       (case a of Inl out \<Rightarrow> ret out
        | Inr _ \<Rightarrow> do { l \<leftarrow> list_target_shoots env p cl;
            (case l of Inl out \<Rightarrow> ret out
             | Inr shoots \<Rightarrow> do { ci \<leftarrow> read_ci p;
                 let (included, excluded) = classify_shoots (env_ext env) ci shoots;
                 h \<leftarrow> handle_auth_change env p k;
                 (case h of Inl out \<Rightarrow> ret out | Inr _ \<Rightarrow> reconcile_clusters env p cl included excluded) }) }) }"
    have read: "hoare (serving k) (read_ci p) (\<lambda>_. serving k)" by (rule hoareI) auto
    have hm: "hoare (serving k) ?m ?Q"
      unfolding Let_def
      by (intro hoare_bind [OF phases_serving(1)] hoare_bind [OF hoare_pre [OF phases_serving(2)]] hoare_sum hoare_ret
            hoare_bind [OF hoare_pre [OF read]] hoare_prod hoare_bind [OF auth_change_serving]
            hoare_pre [OF reconcile_clusters_serving]) auto
    have rm: "run_state ?m t = (a, t')"
      using run pre g unfolding shoots_body_def Let_def by simp
    from pre have "serving k t" by simp
    from hoareD [OF hm this rm] show "?Q a t'" .
  qed
  have "hoare ?P (reconcileShootsNClusters env p) ?Q"
    unfolding reconcileShootsNClusters_def
  proof (rule hoare_bind [OF hoare_modify_ci [where Q = "\<lambda>_. ?P"]], simp add: gardenKey_def, rule hoare_bind [OF body])
    show "hoare (?Q a) (do { ci \<leftarrow> read_ci p;
        State (\<lambda>s. ((), s\<lparr>cs_metrics := UpdateCareInstructionMetrics ci (cs_metrics s)\<rparr>)); ret a }) ?Q" for a
      by (rule hoareI) auto
  qed
  from hoareD [OF this _ assms(2)] assms(1) show "table_inv s'" "r \<noteq> Panic" by (auto simp: k_def)
qed

subsection \<open>What no handler changes: names and specs of the objects in memory\<close>

definition idents :: "'w ci_state \<Rightarrow> nat \<Rightarrow> string \<times> string \<times> CareInstructionSpec" where
  "idents s q = (Name (cs_heap s q), Namespace (cs_heap s q), ci_Spec (cs_heap s q))"

definition same_ident :: "(CareInstruction \<Rightarrow> CareInstruction) \<Rightarrow> bool" where
  "same_ident f \<longleftrightarrow> (\<forall>c. Name (f c) = Name c \<and> Namespace (f c) = Namespace c \<and> ci_Spec (f c) = ci_Spec c)"

lemma idents_modify [keeps_intros]: "same_ident f \<Longrightarrow> keeps idents (modify_ci p f)"
  by (auto simp: keeps_def idents_def same_ident_def fun_eq_iff)

lemma same_ident_intros [keeps_intros]:
  "same_ident (SetCondition E c)" "same_ident (update_status u)" "same_ident (initializeConditionsToUnknown E)"
  by (simp_all add: same_ident_def)

lemma same_ident_reconcileStatus: "same_ident (reconcileStatus E)"
  by (simp add: same_ident_def reconcileStatus_def check_subConditions_eq split: option.split)

lemma idents_prims [keeps_intros]:
  "keeps idents (read_ci p)" "keeps idents (lookup_garden k)" "keeps idents (modify_garden k u)"
  "keeps idents (cancel c)" "keeps idents fresh" "keeps idents (in_sc m)" "keeps idents (call m')"
  "keeps idents State_Monad.get" "keeps idents (register_garden p k h)" "keeps idents (set_garden k g)"
  by (auto simp: keeps_def idents_def fun_eq_iff call_def register_garden_def State_Monad.get_def split: option.split prod.split)

lemma idents_running: "keeps idents (State (\<lambda>s. ((), s\<lparr>cs_running := f s\<rparr>)))"
  by (simp add: keeps_def idents_def fun_eq_iff)

lemma reconcileManager_idents: "keeps idents (reconcileManager env p)"
  unfolding reconcileManager_def seed_hash_def connect_manager_def ensure_manager_def stop_manager_def
    start_manager_def launch_manager_def Let_def
  by (intro keeps_intros idents_running)

lemma gardenKey_idents: "idents s p = idents s' p \<Longrightarrow> gardenKey (cs_heap s p) = gardenKey (cs_heap s' p)"
  by (simp add: idents_def gardenKey_def)

subsection \<open>The handlers and the steps\<close>

lemma EnsureCreated_inv:
  assumes "table_inv s" "run_state (EnsureCreated env p) s = (out, s')"
  shows "table_inv s'" "lawful_conditions (env_ext env) \<Longrightarrow> out \<noteq> Panic"
proof -
  obtain s0 le s1 m s2 r s3 where s0: "s0 = s\<lparr>cs_heap := (cs_heap s)(p := initializeConditionsToUnknown (env_ext env) (cs_heap s p))\<rparr>"
    and c: "run_state (call (ensureAuthConfigMapLabeled env (cs_heap s0 p))) s0 = (le, s1)"
    and m: "run_state (reconcileManager env p) s1 = (m, s2)" and r: "run_state (reconcileShootsNClusters env p) s2 = (r, s3)"
    and out: "(out, s') = created_outcome (env_ext env) p m s2 r s3"
    by (rule EnsureCreated_run [OF assms(2)])
  obtain sc where s1: "s1 = s0\<lparr>cs_sc := sc\<rparr>" using run_call [of "ensureAuthConfigMapLabeled env (cs_heap s0 p)" s0] c by auto
  have t1: "table_inv s1" using assms(1) by (simp add: s0 s1)
  note rm = reconcileManager_inv [OF t1 m]
  have "serving (gardenKey (cs_heap s2 p)) s2" if "m = Returned None"
    using rm(1) rm(2) [OF that] gardenKey_idents [of s2 p s1] keepsD [OF reconcileManager_idents m] by simp
  from reconcileShoots_inv [OF this r]
  have rs: "m = Returned None \<Longrightarrow> table_inv s3" "m = Returned None \<Longrightarrow> r \<noteq> Panic" by auto
  show "table_inv s'"
    using out rm(1) rs(1) by (auto simp: created_outcome_def split: exec.splits option.splits)
  assume "lawful_conditions (env_ext env)"
  moreover from this have "started_present env (cs_heap s1 p)"
    by (simp add: s0 s1 started_present_def initializeConditions_complete knownConditionTypes_def split: option.split)
  ultimately have "m \<noteq> Panic" by (rule rm(3))
  with out rs(2) show "out \<noteq> Panic" by (auto simp: created_outcome_def split: exec.splits option.splits)
qed

lemma EnsureDeleted_inv:
  assumes "table_inv s" "run_state (EnsureDeleted env p) s = (out, s')"
  shows "table_inv s'" "\<forall>g. live s' g \<longrightarrow> gr_key g \<noteq> gardenKey (cs_heap s p)"
proof -
  let ?s = "s\<lparr>cs_heap := (cs_heap s)(p := initializeConditionsToUnknown (env_ext env) (cs_heap s p))\<rparr>"
  have "run_state (cleanupCareInstruction env p) ?s = ((), s')"
    using assms(2) by (cases "run_state (cleanupCareInstruction env p) ?s") (simp add: EnsureDeleted_def)
  from cleanup_spec [OF _ this] assms(1)
  show "table_inv s'" "\<forall>g. live s' g \<longrightarrow> gr_key g \<noteq> gardenKey (cs_heap s p)" by (simp_all add: gardenKey_def)
qed

lemma ci_step_inv: "ci_step env s s' \<Longrightarrow> table_inv s \<Longrightarrow> table_inv s'"
  by (induction rule: ci_step.induct)
     (auto simp: write_back_def dest: EnsureCreated_inv EnsureDeleted_inv table_inv_load table_inv_exits)

lemma reachable_inv: "reachable env s \<Longrightarrow> table_inv s"
  by (induction rule: reachable.induct) (auto intro: table_inv_initial ci_step_inv)

section \<open>Properties\<close>

text \<open>C3: in every reachable state, whatever the API servers answer and whenever managers stop, at most
  one manager per CareInstruction runs with a context that has not been cancelled, and it is the one that
  the table knows how to cancel.\<close>

theorem at_most_one_manager:
  assumes "reachable env s" "g1 \<in> set (cs_running s)" "g2 \<in> set (cs_running s)" "gr_key g1 = gr_key g2"
    and "gr_ctx g1 \<notin> cs_cancelled s" "gr_ctx g2 \<notin> cs_cancelled s"
  shows "g1 = g2 \<and> (\<exists>e. map_lookup (cs_gardens s) (gr_key g1) = Some e \<and> cancelFunc e = Some (gr_ctx g1))"
proof -
  have inv: "table_inv s" using assms(1) by (rule reachable_inv)
  have "live s g1" "live s g2" using assms by (auto simp: live_def)
  with live_unique [OF inv this assms(4)] table_inv_liveD [OF inv this(1)] show ?thesis by auto
qed

text \<open>C11: in every reachable state the creation handler returns, for any CareInstruction and any answers of the
  API servers.  The nil dereferences that the code would make if the table entry, its Garden client or the
  condition that tells whether the Shoot controller was started were missing never happen: the entry is
  registered before it is used, the client is set before the Shoots are listed, and the conditions are
  initialised first.\<close>

theorem EnsureCreated_never_panics:
  assumes "lawful_conditions (env_ext env)" "reachable env s"
    and "run_state (EnsureCreated env (cs_next s)) (load c s) = (out, s')"
  shows "\<exists>res result err. out = Returned (res, result, err)"
  using EnsureCreated_inv(2) [OF table_inv_load [OF reachable_inv [OF assms(2)]] assms(3,1)]
  by (cases out) auto

end
