(* ===== verification/Ci_Spec_Match.thy ===== *)
theory Ci_Spec_Match
  imports Ci_Invariants
begin

section \<open>The running manager works with the current specification\<close>

text \<open>
  A table entry points to the Spec of a CareInstruction object in memory.  The object is shared with the
  handler that is still running and with the lifecycle package, and an answer of the API server overwrites it
  as a whole, so the recorded Spec can change under the entry.

  The handler that overwrites the object drops the manager in the same step.  The status write of the lifecycle
  package does not: an answer with another Spec breaks the connection between entry and manager.  This theory
  shows that nothing else does: in the states reached without such an answer, as long as an entry has a manager
  whose channel is open, the goroutine behind it was started for the Spec the entry points to.

  What is needed of the API server is that a patch answers with the object of the same name and namespace.
\<close>

definition patch_same_key :: "'w ci_env \<Rightarrow> bool" where
  "patch_same_key env \<longleftrightarrow> (\<forall>ci base w answered w'.
     run_state (gh_patch_careinstruction (r_Client env) ci base) w = (Inr answered, w') \<longrightarrow>
     Name answered = Name ci \<and> Namespace answered = Namespace ci)"

definition controller_Spec :: "'w goroutine \<Rightarrow> CareInstructionSpec" where
  "controller_Spec g = ci_Spec (sc_CareInstruction (gr_controller g))"

text \<open>The goroutine that an entry of key \<open>k\<close> knows how to cancel, that will close its channel \<open>ch\<close>, and
  that works with the Spec \<open>sp\<close>.\<close>

definition runs_spec :: "string \<Rightarrow> nat option \<Rightarrow> nat \<Rightarrow> CareInstructionSpec \<Rightarrow> 'w goroutine \<Rightarrow> bool" where
  "runs_spec k ctx ch sp g \<longleftrightarrow> gr_key g = k \<and> ctx = Some (gr_ctx g) \<and> gr_chan g = ch \<and> controller_Spec g = sp"

definition entry_matches :: "'w ci_state \<Rightarrow> string \<Rightarrow> 'w garden \<Rightarrow> bool" where
  "entry_matches s k e \<longleftrightarrow> careInstructionSpec e < cs_next s
     \<and> (\<forall>ch. g_mgr e \<noteq> None \<longrightarrow> stopChan e = Some ch \<longrightarrow> ch \<notin> cs_closed s \<longrightarrow>
          (\<exists>g \<in> set (cs_running s). runs_spec k (cancelFunc e) ch (ci_Spec (cs_heap s (careInstructionSpec e))) g))"

definition spec_inv :: "'w ci_state \<Rightarrow> bool" where
  "spec_inv s \<longleftrightarrow> (\<forall>k e. map_lookup (cs_gardens s) k = Some e \<longrightarrow> entry_matches s k e)"

text \<open>The part of the state that the invariant reads.\<close>

definition sview :: "'w ci_state \<Rightarrow> 'w garden gmap \<times> nat set \<times> 'w goroutine list \<times> nat \<times> (nat \<Rightarrow> string \<times> string \<times> CareInstructionSpec)" where
  "sview s = (cs_gardens s, cs_closed s, cs_running s, cs_next s, idents s)"

lemma spec_inv_sview:
  assumes "sview s' = sview s"
  shows "spec_inv s' = spec_inv s"
proof -
  from assms have "idents s' = idents s" by (simp add: sview_def)
  then have "ci_Spec (cs_heap s' q) = ci_Spec (cs_heap s q)" for q by (simp add: idents_def fun_eq_iff)
  with assms show ?thesis by (simp add: spec_inv_def entry_matches_def sview_def)
qed

lemma sview_prims [keeps_intros]:
  "keeps sview (read_ci p)" "keeps sview (lookup_garden k)" "keeps sview (cancel c)"
  "keeps sview (in_sc m)" "keeps sview (call m')" "keeps sview State_Monad.get"
  by (auto simp: keeps_def sview_def idents_def fun_eq_iff call_def State_Monad.get_def split: prod.split)

lemma sview_modify [keeps_intros]: "same_ident f \<Longrightarrow> keeps sview (modify_ci p f)"
  by (auto simp: keeps_def sview_def idents_def same_ident_def fun_eq_iff)

lemma sview_metrics: "keeps sview (State (\<lambda>s. ((), s\<lparr>cs_metrics := f s\<rparr>)))"
  by (simp add: keeps_def sview_def idents_def fun_eq_iff)

text \<open>What a handler working on object \<open>p\<close> of key \<open>key\<close> knows.\<close>

definition working :: "nat \<Rightarrow> string \<Rightarrow> 'w ci_state \<Rightarrow> bool" where
  "working p key s \<longleftrightarrow> spec_inv s \<and> p < cs_next s \<and> gardenKey (cs_heap s p) = key
     \<and> (\<forall>k e. map_lookup (cs_gardens s) k = Some e \<longrightarrow> careInstructionSpec e = p \<longrightarrow> k = key)"

lemma working_sview:
  assumes "sview s' = sview s"
  shows "working p key s' = working p key s"
proof -
  have "idents s' p = idents s p" "cs_gardens s' = cs_gardens s" "cs_next s' = cs_next s"
    using assms by (simp_all add: sview_def)
  then show ?thesis
    using gardenKey_idents [of s' p s] spec_inv_sview [OF assms] by (simp add: working_def)
qed

lemma hoare_sview: "keeps sview m \<Longrightarrow> hoare (working p key) m (\<lambda>_. working p key)"
  by (rule hoareI) (metis keepsD working_sview)

subsection \<open>The operations that change the table\<close>

lemma working_register: "hoare (working p key) (register_garden p key h) (\<lambda>_. working p key)"
proof (rule hoareI)
  fix s u s' assume w: "working p key s" and run: "run_state (register_garden p key h) s = (u, s')"
  let ?gs = "Some (map_entries (cs_gardens s))"
  have look: "map_lookup ?gs k = map_lookup (cs_gardens s) k" for k by (simp add: map_lookup_def)
  have s': "s' = s\<lparr>cs_gardens := if map_lookup ?gs key = None then map_put ?gs key (new_garden p h) else ?gs\<rparr>"
    using run by (simp add: register_garden_def Let_def)
  have e: "map_lookup (cs_gardens s') k = Some e \<Longrightarrow> map_lookup (cs_gardens s) k = Some e \<or> k = key \<and> e = new_garden p h" for k e
    by (auto simp: s' look simp del: map_lookup_Some split: if_splits)
  have "cs_next s' = cs_next s" "cs_closed s' = cs_closed s" "cs_running s' = cs_running s" "cs_heap s' = cs_heap s"
    by (simp_all add: s')
  with w e show "working p key s'" unfolding working_def spec_inv_def entry_matches_def
    by (fastforce simp: new_garden_def)
qed

text \<open>Changing an entry without touching manager, channel and Spec, or dropping its manager.\<close>

lemma working_update_entry:
  assumes "working p key s" "map_lookup (cs_gardens s) k = Some e"
    and "careInstructionSpec e' = careInstructionSpec e" "g_mgr e' = None \<or> g_mgr e' = g_mgr e \<and> stopChan e' = stopChan e \<and> cancelFunc e' = cancelFunc e"
  shows "working p key (s\<lparr>cs_gardens := map_put (cs_gardens s) k e'\<rparr>)"
proof -
  have frame: "entry_matches (s\<lparr>cs_gardens := gs\<rparr>) k' x = entry_matches s k' x" for gs k' x
    by (simp add: entry_matches_def)
  have "entry_matches s k e" using assms(1,2) by (auto simp: working_def spec_inv_def)
  then have "entry_matches s k e'" using assms(3,4) by (auto simp: entry_matches_def)
  with assms(1-3) show ?thesis by (auto simp: working_def spec_inv_def frame)
qed

lemma working_hash: "hoare (working p key) (modify_garden k (\<lambda>g. g\<lparr>authConfigMapHash := h\<rparr>)) (\<lambda>_. working p key)"
  by (rule hoareI) (auto split: option.splits intro: working_update_entry)

lemma working_restart: "hoare (working p key) (restartShootController q) (\<lambda>_. working p key)"
proof (rule hoareI)
  fix s u s' assume w: "working p key s" and run: "run_state (restartShootController q) s = (u, s')"
  let ?k = "gardenKey (cs_heap s q)"
  show "working p key s'"
  proof (cases "\<exists>e ctx. map_lookup (cs_gardens s) ?k = Some e \<and> cancelFunc e = Some ctx")
    case False
    with w run show ?thesis by (auto simp: restart_run split: option.splits)
  next
    case True
    then obtain e ctx where e: "map_lookup (cs_gardens s) ?k = Some e" "cancelFunc e = Some ctx" by blast
    let ?t = "s\<lparr>cs_gardens := map_put (cs_gardens s) ?k (e\<lparr>g_mgr := None\<rparr>)\<rparr>"
    have "working p key ?t" by (rule working_update_entry [OF w e(1)]) simp_all
    moreover have "sview s' = sview ?t" using run e by (auto simp: restart_run sview_def idents_def fun_eq_iff)
    ultimately show ?thesis using working_sview by blast
  qed
qed

lemma working_launch:
  assumes "working p key s" "map_lookup (cs_gardens s) key \<noteq> None" "ci_Spec (sc_CareInstruction sc) = ci_Spec (cs_heap s p)"
    and "run_state (launch_manager env p key cfg c m sc) s = (u, s')"
  shows "working p key s'"
proof -
  from assms(2) obtain g where g: "map_lookup (cs_gardens s) key = Some g" by auto
  note s' = assms(4) [unfolded launch_run [OF g], THEN arg_cong [where f = snd], unfolded snd_conv, symmetric]
  have id: "ci_Spec (cs_heap s' q) = ci_Spec (cs_heap s q)" "gardenKey (cs_heap s' q) = gardenKey (cs_heap s q)" for q
    by (simp_all add: s')
  have "entry_matches s' k e" if "map_lookup (cs_gardens s') k = Some e" for k e
  proof (cases "k = key")
    case True
    with that have e: "careInstructionSpec e = p" "stopChan e = Some (cs_next s + 1)" "cancelFunc e = Some (cs_next s)" by (auto simp: s')
    have "runs_spec k (Some (cs_next s)) (cs_next s + 1) (ci_Spec (cs_heap s' (careInstructionSpec e)))
        \<lparr>gr_key = key, gr_ctx = cs_next s, gr_chan = cs_next s + 1, gr_controller = sc\<rparr>"
      using True e assms(3) id by (simp add: runs_spec_def controller_Spec_def)
    with e assms(1) show ?thesis by (auto simp: entry_matches_def working_def s')
  next
    case False
    with that have "map_lookup (cs_gardens s) k = Some e" by (simp add: s')
    with assms(1) have "entry_matches s k e" by (auto simp: working_def spec_inv_def)
    then show ?thesis using id(1) [of "careInstructionSpec e"] by (auto simp: entry_matches_def s')
  qed
  with assms(1) show "working p key s'" by (auto simp: working_def spec_inv_def id s' split: if_splits)
qed

subsection \<open>The handlers\<close>

abbreviation working_on :: "nat \<Rightarrow> string \<Rightarrow> CareInstructionSpec \<Rightarrow> 'w ci_state \<Rightarrow> bool" where
  "working_on p key sp s \<equiv> working p key s \<and> ci_Spec (cs_heap s p) = sp"

abbreviation working_entry :: "nat \<Rightarrow> string \<Rightarrow> CareInstructionSpec \<Rightarrow> 'w ci_state \<Rightarrow> bool" where
  "working_entry p key sp s \<equiv> working_on p key sp s \<and> map_lookup (cs_gardens s) key \<noteq> None"

lemma sview_specs: "sview s' = sview s \<Longrightarrow> ci_Spec (cs_heap s' q) = ci_Spec (cs_heap s q)"
  by (auto simp: sview_def idents_def fun_eq_iff)

lemma hoare_sview_on:
  assumes "keeps sview m"
  shows "hoare (working_on p key sp) m (\<lambda>_. working_on p key sp)" "hoare (working_entry p key sp) m (\<lambda>_. working_entry p key sp)"
proof -
  have "working p key s' = working p key s \<and> ci_Spec (cs_heap s' p) = ci_Spec (cs_heap s p) \<and> cs_gardens s' = cs_gardens s"
    if "run_state m s = (a, s')" for s a s'
    using keepsD [OF assms that] working_sview [of s' s] sview_specs [of s' s p] by (auto simp: sview_def)
  then show "hoare (working_on p key sp) m (\<lambda>_. working_on p key sp)"
    "hoare (working_entry p key sp) m (\<lambda>_. working_entry p key sp)"
    unfolding hoare_def by metis+
qed

lemma start_manager_working:
  "hoare (working_entry p key sp) (start_manager env p key cfg) (\<lambda>_. working p key)"
proof -
  have read: "hoare (working_entry p key sp) (read_ci p) (\<lambda>ci s. working_entry p key sp s \<and> ci_Spec ci = sp)"
    by (rule hoareI) auto
  have call: "hoare (\<lambda>s. working_entry p key sp s \<and> b) (call m') (\<lambda>_ s. working_entry p key sp s \<and> b)"
    and insc: "hoare (\<lambda>s. working_entry p key sp s \<and> b) (in_sc m'') (\<lambda>_ s. working_entry p key sp s \<and> b)"
    for b and m' :: "('a, 'b) state" and m'' :: "('a sc_state, 'c) state"
    by (rule hoare_const, rule hoare_sview_on(2), rule sview_prims)+
  have launch: "hoare (\<lambda>s. working_entry p key sp s \<and> ci_Spec ci = sp) (launch_manager env p key cfg c m (new_ShootController env m' ci))
      (\<lambda>_. working p key)" for c m m' ci
  proof (rule hoareI)
    fix s u s' assume pre: "working_entry p key sp s \<and> ci_Spec ci = sp"
      and run: "run_state (launch_manager env p key cfg c m (new_ShootController env m' ci)) s = (u, s')"
    show "working p key s'"
      by (rule working_launch [OF _ _ _ run]) (use pre in \<open>simp_all add: new_ShootController_def\<close>)
  qed
  show ?thesis
    unfolding start_manager_def Let_def
    by (intro hoare_bind [OF read] hoare_bind [OF call] hoare_bind [OF insc] launch hoare_sum hoare_option hoare_ret)
       auto
qed

lemma ensure_manager_working: "hoare (working_entry p key sp) (ensure_manager env p key cfg) (\<lambda>_. working p key)"
proof -
  have stop: "hoare (working_entry p key sp) (stop_manager key g) (\<lambda>_. working_entry p key sp)" for g
    unfolding stop_manager_def by (intro hoare_sview_on keeps_intros)
  show ?thesis
    unfolding ensure_manager_def
    by (intro hoare_bind [OF hoare_lookup] hoare_bind [OF hoare_read] hoare_bind [OF hoare_get] hoare_option hoare_exec hoare_if
          hoare_bind [OF hoare_pre [OF stop]] start_manager_working hoare_ret) auto
qed

lemma reconcileManager_working:
  assumes "working p key s" "run_state (reconcileManager env p) s = (r, s')"
  shows "working p key s'"
proof -
  define ci where "ci = cs_heap s p"
  have key: "gardenKey ci = key" using assms(1) by (simp add: working_def ci_def)
  let ?sp = "ci_Spec ci"
  have register: "hoare (working_on p key ?sp) (register_garden p key h) (\<lambda>_. working_entry p key ?sp)" for h
  proof (rule hoareI)
    fix t u t' assume pre: "working_on p key ?sp t" and run: "run_state (register_garden p key h) t = (u, t')"
    have "cs_heap t' = cs_heap t" "map_lookup (cs_gardens t') key \<noteq> None"
      using run by (auto simp: register_garden_def Let_def simp del: not_None_eq split: if_splits)
    with pre hoareD [OF working_register _ run] show "working_entry p key ?sp t'" by simp
  qed
  have seed: "hoare (working_on p key ?sp) (seed_hash env p) (\<lambda>_. working_on p key ?sp)"
    unfolding seed_hash_def by (intro hoare_sview_on keeps_intros)
  have call: "hoare (working_entry p key ?sp) (call m) (\<lambda>_. working_entry p key ?sp)" for m :: "('a, 'b) state"
    by (intro hoare_sview_on keeps_intros)
  have modify: "hoare (working_entry p key ?sp) (modify_ci p (SetCondition E c)) (\<lambda>_. working_entry p key ?sp)" for E c
    by (intro hoare_sview_on keeps_intros)
  have connect: "hoare (working_entry p key ?sp) (connect_manager env p key acc) (\<lambda>_. working p key)" for acc
    unfolding connect_manager_def
    by (intro hoare_sum hoare_bind [OF modify] ensure_manager_working hoare_ret) auto
  show ?thesis
    by (rule reconcileManager_phases [OF assms(2), of "working_on p key ?sp" ci, OF _ _ seed _ _ call])
       (use assms(1) register connect key in \<open>simp_all add: ci_def\<close>)
qed

text \<open>The patch overwrites the shared object; the restart that follows drops the manager of its entry.\<close>

lemma working_patched:
  assumes "table_inv s" "working p key s" "gardenKey answered = key"
    and "run_state (restartShootController p) (s\<lparr>cs_heap := (cs_heap s)(p := answered)\<rparr>) = (u, s')"
  shows "working p key s'"
proof -
  let ?t = "s\<lparr>cs_heap := (cs_heap s)(p := answered)\<rparr>"
  have other: "entry_matches ?t k e" if "map_lookup (cs_gardens s) k = Some e" "k \<noteq> key" for k e
  proof -
    have "careInstructionSpec e \<noteq> p" "entry_matches s k e" using assms(2) that by (auto simp: working_def spec_inv_def)
    then show ?thesis by (auto simp: entry_matches_def)
  qed
  have own: "entry_matches ?t key (e\<lparr>g_mgr := None\<rparr>)" "g_mgr e = None \<Longrightarrow> entry_matches ?t key e"
    if "map_lookup (cs_gardens s) key = Some e" for e
    using assms(2) that by (auto simp: working_def spec_inv_def entry_matches_def)
  have frame: "entry_matches (s\<lparr>cs_cancelled := cc, cs_gardens := gs, cs_heap := h\<rparr>) k e = entry_matches ?t k e"
    if "\<And>q. ci_Spec (h q) = ci_Spec (((cs_heap s)(p := answered)) q)" for cc gs h k e
    using that by (simp add: entry_matches_def)
  show ?thesis
  proof (cases "\<exists>e ctx. map_lookup (cs_gardens s) key = Some e \<and> cancelFunc e = Some ctx")
    case False
    with assms(4,3) have s': "s' = ?t" by (auto simp: restartShootController_def split: option.splits)
    have "g_mgr e = None" if "map_lookup (cs_gardens s) key = Some e" for e
      using False that table_inv_entryD [OF assms(1) that] by (auto simp: entry_ok_def)
    with own other have "spec_inv ?t" unfolding spec_inv_def by (simp, metis)
    with assms(2,3) s' show ?thesis by (auto simp: working_def)
  next
    case True
    then obtain e ctx where e: "map_lookup (cs_gardens s) key = Some e" "cancelFunc e = Some ctx" by blast
    define h where "h = (if g_mgr e \<noteq> None then ((cs_heap s)(p := answered))(p := update_status
        (\<lambda>st. st\<lparr>ShootControllerRestartCount := ShootControllerRestartCount st + 1\<rparr>) answered) else (cs_heap s)(p := answered))"
    have h: "ci_Spec (h q) = ci_Spec (((cs_heap s)(p := answered)) q)" "gardenKey (h p) = key" for q
      using assms(3) by (simp_all add: h_def gardenKey_def)
    have s': "s' = s\<lparr>cs_cancelled := insert ctx (cs_cancelled s), cs_gardens := map_put (cs_gardens s) key (e\<lparr>g_mgr := None\<rparr>), cs_heap := h\<rparr>"
      using assms(3,4) e by (auto simp: restartShootController_def h_def)
    show ?thesis unfolding s'
      using assms(2) e(1) other own(1) [OF e(1)] h(2)
      by (auto simp: working_def spec_inv_def frame [OF h(1)])
  qed
qed

lemma annotation_working:
  assumes law: "patch_same_key env"
  shows "hoare (\<lambda>s. table_inv s \<and> working p key s) (handle_ci_annotation env p) (\<lambda>_. working p key)"
proof (rule hoareI)
  fix s a s' assume pre: "table_inv s \<and> working p key s" and run: "run_state (handle_ci_annotation env p) s = (a, s')"
  let ?base = "cs_heap s p"
  let ?ci = "?base\<lparr>Annotations := map_delete (Annotations ?base) ReconcileAnnotation\<rparr>"
  let ?t = "s\<lparr>cs_heap := (cs_heap s)(p := ?ci)\<rparr>"
  have w: "working p key ?t"
    using pre working_sview [of ?t s p key] by (simp add: sview_def idents_def fun_eq_iff)
  obtain r w1 where patch: "run_state (gh_patch_careinstruction (r_Client env) ?ci ?base) (sc_world (cs_sc s)) = (r, w1)" by fastforce
  let ?t1 = "?t\<lparr>cs_sc := (cs_sc s)\<lparr>sc_world := w1\<rparr>\<rparr>"
  have w1: "working p key ?t1" "table_inv ?t1"
    using w pre working_sview [of ?t1 ?t p key] by (simp_all add: sview_def idents_def fun_eq_iff)
  show "working p key s'"
  proof (cases "map_get (Annotations ?base) ReconcileAnnotation = ''true''")
    case False
    with run pre show ?thesis by (simp add: handle_ci_annotation_def)
  next
    case True
    show ?thesis
    proof (cases r)
      case (Inl err)
      with True run patch w1 show ?thesis by (simp add: handle_ci_annotation_def call_def)
    next
      case (Inr answered)
      have "gardenKey answered = key"
        using law [unfolded patch_same_key_def, rule_format, OF patch [unfolded Inr]] pre
        by (simp add: gardenKey_def working_def)
      moreover have "run_state (restartShootController p) (?t1\<lparr>cs_heap := (cs_heap ?t1)(p := answered)\<rparr>) = ((), s')"
        using True run patch Inr by (cases "run_state (restartShootController p) (?t1\<lparr>cs_heap := (cs_heap ?t1)(p := answered)\<rparr>)")
          (simp add: handle_ci_annotation_def call_def)
      ultimately show ?thesis using working_patched [OF w1(2,1)] by blast
    qed
  qed
qed

lemma clusters_sview:
  "keeps sview (list_target_shoots env p c)" "keeps sview (reconcile_clusters env p c inc exc)"
  unfolding list_target_shoots_def reconcile_clusters_def list_owned_clusters_def handle_cluster_annotations_def
    annotate_via_cluster_def find_conflicts_def check_conflict_def report_statuses_def Let_def
  by (intro keeps_intros)+

lemma auth_change_working: "hoare (working p key) (handle_auth_change env q k) (\<lambda>_. working p key)"
proof -
  have prim: "hoare (working p key) (read_ci q) (\<lambda>_. working p key)" "hoare (working p key) (lookup_garden k) (\<lambda>_. working p key)"
    by (intro hoare_sview keeps_intros)+
  have call: "hoare (working p key) (call m) (\<lambda>_. working p key)" for m :: "('a, 'b) state"
    by (intro hoare_sview keeps_intros)
  show ?thesis
    unfolding handle_auth_change_def Let_def
    by (intro hoare_bind [OF prim(1)] hoare_bind [OF prim(2)] hoare_bind [OF call] hoare_bind [OF working_hash]
          hoare_bind [OF working_restart] hoare_if hoare_sum hoare_option hoare_exec hoare_ret) simp_all
qed

lemma reconcileShoots_working:
  assumes "patch_same_key env"
  shows "hoare (\<lambda>s. table_inv s \<and> working p key s) (reconcileShootsNClusters env p) (\<lambda>_. working p key)"
proof -
  let ?W = "\<lambda>s. table_inv s \<and> working p key s"
  have modify: "hoare ?W (modify_ci p (update_status f)) (\<lambda>_. ?W)" for f
    by (rule hoare_both [OF hoare_modify_ci hoare_sview]) (auto intro: keeps_intros)
  have read: "hoare ?W (read_ci p) (\<lambda>_. ?W)" "hoare (working p key) (read_ci p) (\<lambda>_. working p key)" by (rule hoareI, auto)+
  have look: "hoare ?W (lookup_garden k) (\<lambda>_. ?W)" for k by (rule hoareI) auto
  have body: "hoare ?W (shoots_body env p) (\<lambda>_. working p key)"
    unfolding shoots_body_def Let_def
    by (intro hoare_bind [OF read(1)] hoare_bind [OF look] hoare_option hoare_bind [OF annotation_working [OF assms]] hoare_sum
          hoare_bind [OF hoare_sview [OF clusters_sview(1)]] hoare_bind [OF read(2)] hoare_prod
          hoare_bind [OF auth_change_working] hoare_sview [OF clusters_sview(2)] hoare_ret) simp_all
  show ?thesis
    unfolding reconcileShootsNClusters_def
    by (intro hoare_bind [OF modify] hoare_bind [OF body] hoare_bind [OF read(2)] hoare_bind [OF hoare_sview [OF sview_metrics]]
          hoare_ret) simp_all
qed

text \<open>The goroutines themselves: only \<open>reconcileManager\<close> adds one.\<close>

lemma running_prims [keeps_intros]:
  "keeps cs_running (read_ci p)" "keeps cs_running (modify_ci p f)" "keeps cs_running (lookup_garden k)"
  "keeps cs_running (modify_garden k u)" "keeps cs_running (cancel c)" "keeps cs_running (in_sc m)" "keeps cs_running (call m')"
  "keeps cs_running (set_garden k g)"
  by (auto simp: keeps_def call_def split: option.split prod.split)

lemma reconcileShoots_running: "keeps cs_running (reconcileShootsNClusters env p)"
proof -
  have "keeps cs_running (State (\<lambda>s. ((), s\<lparr>cs_metrics := f s\<rparr>)))" for f :: "'a ci_state \<Rightarrow> gauges"
    by (simp add: keeps_def)
  then show ?thesis
    unfolding reconcileShootsNClusters_def shoots_body_def handle_ci_annotation_def list_target_shoots_def
      handle_auth_change_def restartShootController_def reconcile_clusters_def list_owned_clusters_def
      handle_cluster_annotations_def annotate_via_cluster_def find_conflicts_def check_conflict_def report_statuses_def Let_def
    by (intro keeps_intros)
qed

lemma EnsureCreated_working:
  assumes "patch_same_key env" "table_inv s" "working p key s" "run_state (EnsureCreated env p) s = (out, s')"
  shows "working p key s'"
proof -
  obtain s0 le s1 m s2 r s3 where s0_def: "s0 = s\<lparr>cs_heap := (cs_heap s)(p := initializeConditionsToUnknown (env_ext env) (cs_heap s p))\<rparr>"
    and c: "run_state (call (ensureAuthConfigMapLabeled env (cs_heap s0 p))) s0 = (le, s1)"
    and m: "run_state (reconcileManager env p) s1 = (m, s2)" and r: "run_state (reconcileShootsNClusters env p) s2 = (r, s3)"
    and run: "(out, s') = created_outcome (env_ext env) p m s2 r s3"
    by (rule EnsureCreated_run [OF assms(4)])
  have "sview s0 = sview s" by (simp add: s0_def sview_def idents_def fun_eq_iff)
  moreover have "sview s1 = sview s0" using c by (rule keepsD [OF sview_prims(5)])
  ultimately have w1: "working p key s1" using assms(3) working_sview [of s1 s] by auto
  have "table_inv s0" using assms(2) by (simp add: s0_def)
  then have t1: "table_inv s1" using hoareD [OF hoare_call [OF worldless_table(1)] _ c] by blast
  note rm = reconcileManager_working [OF w1 m] reconcileManager_inv(1) [OF t1 m]
  have w3: "working p key s3" using hoareD [OF reconcileShoots_working [OF assms(1)] _ r] rm by blast
  have set: "working p key (t\<lparr>cs_heap := (cs_heap t)(p := SetCondition E k (cs_heap t p))\<rparr>)" if "working p key t" for t E k
    using that working_sview [of "t\<lparr>cs_heap := (cs_heap t)(p := SetCondition E k (cs_heap t p))\<rparr>" t p key]
    by (simp add: sview_def idents_def fun_eq_iff)
  show "working p key s'"
    using run rm(1) w3 set by (auto simp: created_outcome_def split: exec.splits option.splits)
qed

subsection \<open>The steps\<close>

lemma working_load:
  assumes "spec_inv s"
  shows "working (cs_next s) (gardenKey c) (load c s)"
proof -
  have "entry_matches (load c s) k e" "careInstructionSpec e < cs_next s" if "map_lookup (cs_gardens s) k = Some e" for k e
  proof -
    have "entry_matches s k e" using assms that by (simp add: spec_inv_def)
    moreover from this show "careInstructionSpec e < cs_next s" by (simp add: entry_matches_def)
    ultimately show "entry_matches (load c s) k e" by (auto simp: entry_matches_def load_def)
  qed
  then show ?thesis by (fastforce simp: working_def spec_inv_def load_def)
qed

lemma EnsureDeleted_spec_inv:
  assumes "spec_inv s" "run_state (EnsureDeleted env p) s = (out, s')"
  shows "spec_inv s'"
proof -
  have "map_lookup (cs_gardens s') k = Some e \<Longrightarrow> map_lookup (cs_gardens s) k = Some e" for k e
    using assms(2) by (auto simp: EnsureDeleted_def cleanupCareInstruction_def split: option.splits if_splits prod.splits)
  moreover have "cs_next s' = cs_next s \<and> cs_closed s' = cs_closed s \<and> cs_running s' = cs_running s
     \<and> (\<forall>q. ci_Spec (cs_heap s' q) = ci_Spec (cs_heap s q))"
    using assms(2) by (auto simp: EnsureDeleted_def cleanupCareInstruction_def split: option.splits prod.splits)
  ultimately show ?thesis using assms(1) unfolding spec_inv_def entry_matches_def by metis
qed

lemma spec_inv_exits:
  assumes "spec_inv s"
  shows "spec_inv (manager_exits g s)"
  unfolding spec_inv_def
proof (intro allI impI)
  fix k e assume "map_lookup (cs_gardens (manager_exits g s)) k = Some e"
  then have e: "entry_matches s k e" using assms by (simp add: spec_inv_def manager_exits_def)
  have "x \<in> set (remove1 g (cs_running s))" if "x \<in> set (cs_running s)" "gr_chan x \<noteq> gr_chan g" for x
    using that by (cases "x = g") auto
  with e show "entry_matches (manager_exits g s) k e"
    by (simp add: entry_matches_def manager_exits_def runs_spec_def) metis
qed

lemma ci_step_spec_inv:
  assumes "patch_same_key env" "ci_step env s s'" "entry_specs_kept s s'" "table_inv s" "spec_inv s"
  shows "spec_inv s'"
  using assms(2)
proof cases
  case (reconcile c out)
  from EnsureCreated_working [OF assms(1) table_inv_load [OF assms(4)] working_load [OF assms(5)] this]
  show ?thesis by (simp add: working_def)
next
  case (delete c out)
  have "spec_inv (load c s)" using working_load [OF assms(5), of c] by (simp add: working_def)
  from EnsureDeleted_spec_inv [OF this delete] show ?thesis .
next
  case (status p u)
  then have "sview s' = sview s" by (rule keepsD [OF sview_modify [OF same_ident_reconcileStatus]])
  from spec_inv_sview [OF this] assms(5) show ?thesis by simp
next
  case (written p answered)
  with assms(3,5) show ?thesis by (simp add: spec_inv_def entry_matches_def entry_specs_kept_def write_back_def)
next
  case (exits g)
  with assms(5) show ?thesis by (simp add: spec_inv_exits)
next
  case (outside sc)
  have "sview s' = sview s" by (simp add: outside sview_def idents_def fun_eq_iff)
  from spec_inv_sview [OF this] assms(5) show ?thesis by simp
qed

lemma unraced_spec_inv:
  assumes "patch_same_key env" "reachable_unraced env s"
  shows "spec_inv s"
  using assms(2)
proof induction
  case (unraced_start sc)
  show ?case by (simp add: spec_inv_def initial_state_def)
next
  case (unraced_step s s')
  show ?case
    by (rule ci_step_spec_inv [OF assms(1) unraced_step(2,3) reachable_inv [OF unraced_reachable [OF unraced_step(1)]] unraced_step(4)])
qed

section \<open>Properties\<close>

text \<open>C18: the Spec that a table entry points to is the Spec its manager works with.  In every state reached
  without an answer to a status write that carries another Spec for the object of an entry: if an entry has a
  manager and its channel is open, the goroutine that will close this channel is running for the same
  CareInstruction, is the one the entry knows how to cancel, and works with the Spec the entry points to.  The
  patch of the object in the middle of a handler, whose answer may carry any Spec, does not break this.\<close>

theorem entry_spec_is_running_spec:
  assumes "patch_same_key env" "reachable_unraced env s" "map_lookup (cs_gardens s) k = Some e"
    and "g_mgr e \<noteq> None" "stopChan e = Some ch" "ch \<notin> cs_closed s"
  shows "\<exists>g \<in> set (cs_running s). gr_key g = k \<and> gr_chan g = ch \<and> cancelFunc e = Some (gr_ctx g)
     \<and> ci_Spec (sc_CareInstruction (gr_controller g)) = ci_Spec (cs_heap s (careInstructionSpec e))"
proof -
  have "entry_matches s k e" using unraced_spec_inv [OF assms(1,2)] assms(3) by (simp add: spec_inv_def)
  with assms(4-6) have "\<exists>g \<in> set (cs_running s). runs_spec k (cancelFunc e) ch (ci_Spec (cs_heap s (careInstructionSpec e))) g"
    by (simp add: entry_matches_def)
  then show ?thesis by (auto simp: runs_spec_def controller_Spec_def)
qed

end
