(* ===== verification/Ci_Settle.thy ===== *)
theory Ci_Settle
  imports Ci_Spec_Match
begin

section \<open>A reconciliation that finds nothing new\<close>

text \<open>
  The controller is called again and again with the same object.  This theory shows that a call that finds
  nothing new leaves the running manager alone: a second \<open>reconcileManager\<close> keeps the manager the first
  one started, and the hash seeded for a new entry prevents the restart that the authentication ConfigMap
  would otherwise cause in the same reconciliation.
\<close>

lemma access_same_ident:
  assumes "Namespace c' = Namespace c" "ci_Spec c' = ci_Spec c"
  shows "GetGardenClusterAccess env c' = GetGardenClusterAccess env c"
  by (simp add: GetGardenClusterAccess_def assms Let_def)

text \<open>What \<open>manager_unchanged\<close> needs, as left behind by a successful run.\<close>

definition settled :: "'w ci_env \<Rightarrow> nat \<Rightarrow> rest_config \<Rightarrow> 'w ci_state \<Rightarrow> bool" where
  "settled env p cfg s \<longleftrightarrow> (\<exists>e. map_lookup (cs_gardens s) (gardenKey (cs_heap s p)) = Some e
     \<and> manager_unchanged env s e (cs_heap s p) cfg = Returned True)"

lemma manager_unchanged_cong:
  assumes "cs_closed s' = cs_closed s" "ci_Spec (cs_heap s' (careInstructionSpec e)) = ci_Spec (cs_heap s (careInstructionSpec e))"
    and "ci_Spec c' = ci_Spec c" "get_condition (env_ext env) c' ShootControllerStartedCondition = get_condition (env_ext env) c ShootControllerStartedCondition"
  shows "manager_unchanged env s' e c' cfg = manager_unchanged env s e c cfg"
  using assms by (simp add: manager_unchanged_def Let_def channelOpen_def get_condition_def split: option.split)

lemma launch_settled:
  assumes "lawful_conditions (env_ext env)" "rest_DeepEqual env (Some cfg) (Some cfg)" "table_inv s"
    and "map_lookup (cs_gardens s) (gardenKey (cs_heap s p)) = Some e"
    and "run_state (launch_manager env p (gardenKey (cs_heap s p)) cfg gc mgr sc) s = (u, s')"
  shows "settled env p cfg s'"
proof -
  have closed: "cs_next s + 1 \<notin> cs_closed s" using assms(3) by (auto simp: table_inv_def)
  with assms(2,4,5) show ?thesis
    by (auto simp: launch_run settled_def manager_unchanged_True_iff get_condition_SetCondition [OF assms(1)] lawful_IsTrue_iff [OF assms(1)])
qed

lemma start_manager_settled:
  assumes "lawful_conditions (env_ext env)" "rest_DeepEqual env (Some cfg) (Some cfg)"
  shows "hoare (\<lambda>s. table_inv s \<and> gardenKey (cs_heap s p) = key \<and> map_lookup (cs_gardens s) key \<noteq> None)
     (start_manager env p key cfg) (\<lambda>r s. r = Returned None \<longrightarrow> settled env p cfg s)"
proof -
  let ?P = "\<lambda>s. table_inv s \<and> gardenKey (cs_heap s p) = key \<and> map_lookup (cs_gardens s) key \<noteq> None"
  have wl: "worldless ?P" by (simp add: worldless_def)
  have read: "hoare ?P (read_ci p) (\<lambda>_. ?P)" by (rule hoareI) auto
  have launch: "hoare ?P (launch_manager env p key cfg gc mgr sc) (\<lambda>r s. r = Returned None \<longrightarrow> settled env p cfg s)" for gc mgr sc
  proof (rule hoareI)
    fix s u s' assume "?P s" and run: "run_state (launch_manager env p key cfg gc mgr sc) s = (u, s')"
    then obtain e where "table_inv s" "gardenKey (cs_heap s p) = key" "map_lookup (cs_gardens s) key = Some e" by auto
    with launch_settled [OF assms, of s p e gc mgr sc u s'] run show "u = Returned None \<longrightarrow> settled env p cfg s'" by simp
  qed
  show ?thesis
    unfolding start_manager_def Let_def
    by (intro hoare_bind [OF read] hoare_bind [OF hoare_call [OF wl]] hoare_bind [OF hoare_in_sc [OF wl]] launch
          hoare_sum hoare_option hoare_ret) auto
qed

lemma ensure_manager_settled:
  assumes "lawful_conditions (env_ext env)" "rest_DeepEqual env (Some cfg) (Some cfg)"
  shows "hoare (\<lambda>s. table_inv s \<and> gardenKey (cs_heap s p) = key \<and> map_lookup (cs_gardens s) key \<noteq> None)
     (ensure_manager env p key cfg) (\<lambda>r s. r = Returned None \<longrightarrow> settled env p cfg s)"
proof -
  let ?P = "\<lambda>s. table_inv s \<and> gardenKey (cs_heap s p) = key \<and> map_lookup (cs_gardens s) key \<noteq> None"
  have stop: "hoare (\<lambda>s. ?P s \<and> map_lookup (cs_gardens s) key = Some g) (stop_manager key g) (\<lambda>_. ?P)" for g
  proof (rule hoareI)
    fix s u s' assume "?P s \<and> map_lookup (cs_gardens s) key = Some g" and run: "run_state (stop_manager key g) s = (u, s')"
    then show "?P s'" using stop_manager_inv [of s key g u s'] by (auto simp: stopped_def)
  qed
  show ?thesis
    unfolding ensure_manager_def
    by (intro hoare_bind [OF hoare_lookup] hoare_bind [OF hoare_read] hoare_bind [OF hoare_get] hoare_option hoare_exec hoare_if
          hoare_bind [OF hoare_pre [OF stop]] start_manager_settled [OF assms] hoare_ret)
       (auto simp: settled_def)
qed

lemma reconcileManager_settled:
  assumes "lawful_conditions (env_ext env)" "rest_DeepEqual env (Some cfg) (Some cfg)" "table_inv s"
    and "\<forall>w. fst (run_state (GetGardenClusterAccess env (cs_heap s p)) w) = Inr cfg"
    and "run_state (reconcileManager env p) s = (Returned None, s')"
  shows "settled env p cfg s'"
proof -
  let ?c = "cs_heap s p" and ?P = "\<lambda>t. table_inv t \<and> cs_heap t = cs_heap s"
  let ?R = "\<lambda>t. ?P t \<and> map_lookup (cs_gardens t) (gardenKey (cs_heap s p)) \<noteq> None"
  have wl: "worldless ?P" "worldless ?R" by (simp_all add: worldless_def)
  have reg: "hoare ?P (register_garden p (gardenKey ?c) h) (\<lambda>_. ?R)" for h
    by (rule hoareI) (auto dest: register_inv simp del: not_None_eq)
  have acc: "hoare ?R (call (GetGardenClusterAccess env ?c)) (\<lambda>r t. ?R t \<and> r = Inr cfg)"
    using hoare_call [OF wl(2), of "GetGardenClusterAccess env ?c"] assms(4) run_call_answer
    unfolding hoare_def by (metis fst_conv)
  have conn: "hoare (\<lambda>t. ?R t \<and> r = Inr cfg) (connect_manager env p (gardenKey ?c) r)
      (\<lambda>r t. r = Returned None \<longrightarrow> settled env p cfg t)" for r
  proof (cases "r = Inr cfg")
    case True
    show ?thesis
      unfolding True connect_manager_def sum.case
      by (rule hoare_bind [OF hoare_modify_ci ensure_manager_settled [OF assms(1,2)]]) auto
  qed (simp add: hoare_def)
  have "?P s" using assms(3) by simp
  from reconcileManager_phases [where P = ?P and Q = "\<lambda>r t. r = Returned None \<longrightarrow> settled env p cfg t",
      OF assms(5) this refl seed_hash_hoare [OF wl(1)] _ reg acc conn]
  show ?thesis by simp
qed

lemma settled_keeps:
  assumes "lawful_conditions (env_ext env)" "settled env p cfg s"
    and "fst (run_state (GetGardenClusterAccess env (cs_heap s p)) (sc_world (cs_sc s))) = Inr cfg"
    and "run_state (reconcileManager env p) s = (out, s')"
  shows "out = Returned None \<and> cs_gardens s' = cs_gardens s \<and> cs_running s' = cs_running s
     \<and> cs_cancelled s' = cs_cancelled s \<and> cs_next s' = cs_next s"
proof -
  let ?c = "cs_heap s p" and ?key = "gardenKey (cs_heap s p)"
  from assms(2) obtain e where e: "map_lookup (cs_gardens s) ?key = Some e" and un: "manager_unchanged env s e ?c cfg = Returned True"
    by (auto simp: settled_def)
  have gs: "Some (map_entries (cs_gardens s)) = cs_gardens s" using e by (cases "cs_gardens s") (auto simp: map_lookup_def)
  have seed: "run_state (seed_hash env p) s = (Inr [], s)" using e by (simp add: seed_hash_def)
  have reg: "run_state (register_garden p ?key []) s = ((), s)" using e gs by (simp add: register_garden_def Let_def map_lookup_def)
  obtain s1 where acc: "run_state (call (GetGardenClusterAccess env ?c)) s = (Inr cfg, s1)"
    using assms(3) run_call_answer [of "GetGardenClusterAccess env ?c" s] by (metis prod.collapse)
  obtain sc where s1: "s1 = s\<lparr>cs_sc := sc\<rparr>" using run_call [of "GetGardenClusterAccess env ?c" s] acc by auto
  let ?d = "SetCondition (env_ext env) (TrueCondition GardenClusterAccessReady ''GardenClusterAccessReady'' []) ?c"
  let ?s2 = "s1\<lparr>cs_heap := (cs_heap s1)(p := ?d)\<rparr>"
  have "manager_unchanged env ?s2 e ?d cfg = manager_unchanged env s e ?c cfg"
    by (rule manager_unchanged_cong) (simp_all add: s1 get_condition_SetCondition [OF assms(1)])
  then have "run_state (ensure_manager env p ?key cfg) ?s2 = (Returned None, ?s2)"
    using e un by (simp add: ensure_manager_def s1 State_Monad.get_def)
  then have "(out, s') = (Returned None, ?s2)"
    using assms(4) seed reg acc by (simp add: reconcileManager_def Let_def connect_manager_def s1)
  then show ?thesis by (simp add: s1)
qed

subsection \<open>The seeded hash\<close>

abbreviation entry_hash :: "string \<Rightarrow> 'w ci_state \<Rightarrow> string option" where
  "entry_hash key s \<equiv> map_option authConfigMapHash (map_lookup (cs_gardens s) key)"

lemma entry_hash_prims [keeps_intros]:
  "keeps (entry_hash key) (read_ci p)" "keeps (entry_hash key) (lookup_garden k)" "keeps (entry_hash key) (modify_ci p f)"
  "keeps (entry_hash key) (cancel c)" "keeps (entry_hash key) fresh" "keeps (entry_hash key) (in_sc m)"
  "keeps (entry_hash key) (call m')" "keeps (entry_hash key) State_Monad.get"
  by (auto simp: keeps_def call_def State_Monad.get_def split: prod.split)

lemma connect_manager_hash: "keeps (entry_hash key) (connect_manager env p k acc)"
proof -
  have modify: "keeps (entry_hash key) (modify_garden k (\<lambda>g. g\<lparr>gardenConfig := a, gardenClient := b, g_mgr := c,
      cancelFunc := d, stopChan := e, careInstructionSpec := q\<rparr>))" for a b c d e q
    by (simp add: keeps_def split: option.split)
  have running: "keeps (entry_hash key) (State (\<lambda>s. ((), s\<lparr>cs_running := r s\<rparr>)))" for r :: "'a ci_state \<Rightarrow> 'a goroutine list"
    by (simp add: keeps_def)
  show ?thesis
    unfolding connect_manager_def ensure_manager_def stop_manager_def start_manager_def launch_manager_def Let_def
    by (intro keeps_intros modify running)
qed

lemma reconcileManager_seeds:
  assumes "map_lookup (cs_gardens s) (gardenKey (cs_heap s p)) = None" "AuthenticationConfigMapName (ci_Spec (cs_heap s p)) \<noteq> []"
    and "\<forall>w. fst (run_state (gh_get_configmap (r_Client env) (Namespace (cs_heap s p), AuthenticationConfigMapName (ci_Spec (cs_heap s p)))) w) = Inr cm"
    and "run_state (reconcileManager env p) s = (out, s')"
  shows "entry_hash (gardenKey (cs_heap s p)) s' = Some (hashAuthConfigMap cm)"
proof -
  let ?c = "cs_heap s p" and ?key = "gardenKey (cs_heap s p)"
  let ?get = "gh_get_configmap (r_Client env) (Namespace ?c, AuthenticationConfigMapName (ci_Spec ?c))"
  obtain s1 where g: "run_state (call ?get) s = (Inr cm, s1)" using assms(3) run_call_answer [of ?get s] by (metis prod.collapse)
  then obtain sc where s1: "s1 = s\<lparr>cs_sc := sc\<rparr>" using run_call [of ?get s] by auto
  have seed: "run_state (seed_hash env p) s = (Inr (hashAuthConfigMap cm), s1)"
    using assms(1,2) g by (simp add: seed_hash_def)
  obtain s2 where reg: "run_state (register_garden p ?key (hashAuthConfigMap cm)) s1 = ((), s2)"
    by (cases "run_state (register_garden p ?key (hashAuthConfigMap cm)) s1") simp
  then have h2: "entry_hash ?key s2 = Some (hashAuthConfigMap cm)"
    using assms(1) by (auto simp: register_garden_def Let_def s1 new_garden_def map_lookup_def map_put_def)
  obtain acc s3 where acc: "run_state (call (GetGardenClusterAccess env ?c)) s2 = (acc, s3)" by fastforce
  have "run_state (connect_manager env p ?key acc) s3 = (out, s')"
    using assms(4) seed reg acc by (simp add: reconcileManager_def Let_def)
  from keepsD [OF connect_manager_hash this] keepsD [OF entry_hash_prims(7) acc] h2 show ?thesis by metis
qed

section \<open>Properties\<close>

text \<open>C17: a manager that works is left alone.  If \<open>reconcileManager\<close> succeeds and is called again for the
  same object while the access to the Garden cluster gives the same configuration, the second call succeeds
  and neither starts, cancels nor registers anything, from every reachable state.\<close>

theorem reconcileManager_settles:
  assumes "lawful_conditions (env_ext env)" "rest_DeepEqual env (Some cfg) (Some cfg)" "reachable env s"
    and "\<forall>w. fst (run_state (GetGardenClusterAccess env (cs_heap s p)) w) = Inr cfg"
    and "run_state (reconcileManager env p) s = (Returned None, s1)" "run_state (reconcileManager env p) s1 = (out, s2)"
  shows "out = Returned None \<and> cs_gardens s2 = cs_gardens s1 \<and> cs_running s2 = cs_running s1
     \<and> cs_cancelled s2 = cs_cancelled s1 \<and> cs_next s2 = cs_next s1"
proof -
  have "idents s1 = idents s" by (rule keepsD [OF reconcileManager_idents assms(5)])
  then have "GetGardenClusterAccess env (cs_heap s1 p) = GetGardenClusterAccess env (cs_heap s p)"
    by (intro access_same_ident) (auto simp: idents_def fun_eq_iff)
  with assms(4) have "\<forall>w. fst (run_state (GetGardenClusterAccess env (cs_heap s1 p)) w) = Inr cfg" by simp
  from settled_keeps [OF assms(1) reconcileManager_settled [OF assms(1,2) reachable_inv [OF assms(3)] assms(4,5)] spec [OF this] assms(6)]
  show ?thesis .
qed

text \<open>C39: the seeded hash does its job.  For a CareInstruction that is seen for the first time and whose
  authentication ConfigMap does not change in between, the check for a changed ConfigMap that follows in the
  same reconciliation finds the hash it expects: it restarts nothing and leaves the table, the contexts and
  the objects as they are.\<close>

theorem seeded_hash_no_restart:
  assumes "map_lookup (cs_gardens s) (gardenKey (cs_heap s p)) = None" "AuthenticationConfigMapName (ci_Spec (cs_heap s p)) \<noteq> []"
    and "\<forall>w. fst (run_state (gh_get_configmap (r_Client env) (Namespace (cs_heap s p), AuthenticationConfigMapName (ci_Spec (cs_heap s p)))) w) = Inr cm"
    and "run_state (reconcileManager env p) s = (out, s1)"
    and "run_state (handle_auth_change env p (gardenKey (cs_heap s p))) s1 = (h, s2)"
  shows "h = Inr () \<and> cs_gardens s2 = cs_gardens s1 \<and> cs_cancelled s2 = cs_cancelled s1 \<and> cs_heap s2 = cs_heap s1"
proof -
  have "idents s1 = idents s" by (rule keepsD [OF reconcileManager_idents assms(4)])
  then have same: "Namespace (cs_heap s1 p) = Namespace (cs_heap s p)" "ci_Spec (cs_heap s1 p) = ci_Spec (cs_heap s p)"
    by (auto simp: idents_def fun_eq_iff)
  let ?get = "gh_get_configmap (r_Client env) (Namespace (cs_heap s p), AuthenticationConfigMapName (ci_Spec (cs_heap s p)))"
  obtain t where g: "run_state (call ?get) s1 = (Inr cm, t)" using assms(3) run_call_answer [of ?get s1] by (metis prod.collapse)
  then obtain sc where t: "t = s1\<lparr>cs_sc := sc\<rparr>" using run_call [of ?get s1] by auto
  from reconcileManager_seeds [OF assms(1-4)] obtain e where
    "map_lookup (cs_gardens s1) (gardenKey (cs_heap s p)) = Some e" "authConfigMapHash e = hashAuthConfigMap cm" by auto
  with assms(2,5) g show ?thesis by (auto simp: handle_auth_change_def same t)
qed

text \<open>C22: a changed authentication ConfigMap is noticed, and only a changed one.  If the entry has a live manager, the
  check cancels it exactly when the hash in the entry is not that of the ConfigMap it read; if that hash was
  taken from an earlier ConfigMap, exactly when the SHA-256 digests of the two contents of \<open>config.yaml\<close>
  differ.  A cancelled manager is dropped from the entry and counted as one restart.  In any case the entry ends
  with the hash of the ConfigMap, 64 digits long, so that the next check finds nothing to do.\<close>

theorem auth_change_detected:
  assumes "AuthenticationConfigMapName (ci_Spec (cs_heap s p)) \<noteq> []"
    and "run_state (gh_get_configmap (r_Client env) (Namespace (cs_heap s p), AuthenticationConfigMapName (ci_Spec (cs_heap s p))))
           (sc_world (cs_sc s)) = (Inr cm, w)"
    and "map_lookup (cs_gardens s) (gardenKey (cs_heap s p)) = Some e"
    and "g_mgr e \<noteq> None" "cancelFunc e = Some ctx" "ctx \<notin> cs_cancelled s"
    and "run_state (handle_auth_change env p (gardenKey (cs_heap s p))) s = (h, s')"
  shows "h = Inr ()
     \<and> (ctx \<in> cs_cancelled s' \<longleftrightarrow> authConfigMapHash e \<noteq> hashAuthConfigMap cm)
     \<and> (\<forall>old. authConfigMapHash e = hashAuthConfigMap old \<longrightarrow>
          (ctx \<in> cs_cancelled s' \<longleftrightarrow> sha256 (map_get (cm_Data old) ''config.yaml'') \<noteq> sha256 (map_get (cm_Data cm) ''config.yaml'')))
     \<and> ShootControllerRestartCount (ci_Status (cs_heap s' p))
          = ShootControllerRestartCount (ci_Status (cs_heap s p)) + (if ctx \<in> cs_cancelled s' then 1 else 0)
     \<and> (\<exists>e'. map_lookup (cs_gardens s') (gardenKey (cs_heap s p)) = Some e' \<and> authConfigMapHash e' = hashAuthConfigMap cm
          \<and> length (authConfigMapHash e') = 64 \<and> (g_mgr e' = None \<longleftrightarrow> ctx \<in> cs_cancelled s'))"
proof -
  obtain y where y: "g_mgr e = Some y" using assms(4) by auto
  show ?thesis
  proof (cases "authConfigMapHash e = hashAuthConfigMap cm")
    case True
    with assms y have "h = Inr () \<and> s' = s\<lparr>cs_sc := (cs_sc s)\<lparr>sc_world := w\<rparr>\<rparr>"
      by (simp add: handle_auth_change_def call_def)
    with True assms(3,6) y show ?thesis by (auto simp: hashAuthConfigMap_eq_iff length_hashAuthConfigMap)
  next
    case False
    with assms y show ?thesis
      by (auto simp: handle_auth_change_def call_def restart_run hashAuthConfigMap_eq_iff length_hashAuthConfigMap)
  qed
qed

end
