(* ===== verification/Ci_Refinement.thy ===== *)
theory Ci_Refinement
  imports Ci_Settle
begin

section \<open>An abstract machine for the managers\<close>

text \<open>
  To the outside the CareInstruction controller is a machine that has, for each CareInstruction, at most one
  manager working with some Spec.  The concrete state realises it with goroutines, contexts, channels and a table
  of pointers.  The abstraction keeps the goroutines whose context is not cancelled; this theory shows that
  each handler and each exit of a manager is a step of the abstract machine that concerns the one CareInstruction
  it is about and no other.
\<close>

text \<open>The Specs that live managers of a key work with; the invariant leaves at most one manager.\<close>

definition abs_managers :: "'w ci_state \<Rightarrow> string \<Rightarrow> CareInstructionSpec set" where
  "abs_managers s k = controller_Spec ` {g. live s g \<and> gr_key g = k}"

text \<open>The abstract steps: a reconciliation of the CareInstruction with key \<open>k\<close> and Spec \<open>sp\<close> keeps its
  manager, stops it or replaces it by one with this Spec; a deletion stops it.\<close>

inductive abs_reconcile :: "string \<Rightarrow> CareInstructionSpec \<Rightarrow> (string \<Rightarrow> CareInstructionSpec set) \<Rightarrow> (string \<Rightarrow> CareInstructionSpec set) \<Rightarrow> bool"
  for k sp M where
  keep: "abs_reconcile k sp M M"
| stop: "abs_reconcile k sp M (M(k := {}))"
| replace: "abs_reconcile k sp M (M(k := {sp}))"

inductive_simps abs_reconcile_iff: "abs_reconcile k sp M M'"

section \<open>Lemmas\<close>

text \<open>Entries do not share contexts.\<close>

definition ctx_inv :: "'w ci_state \<Rightarrow> bool" where
  "ctx_inv s \<longleftrightarrow> (\<forall>k k' e e' ctx. map_lookup (cs_gardens s) k = Some e \<longrightarrow> map_lookup (cs_gardens s) k' = Some e' \<longrightarrow>
     cancelFunc e = Some ctx \<longrightarrow> cancelFunc e' = Some ctx \<longrightarrow> k = k')"

text \<open>What a handler for key \<open>k\<close> and Spec \<open>sp\<close> that started in \<open>s0\<close> has done so far: the managers of other keys
  are as they were, and a live manager of this key was there before or has this Spec.\<close>

definition only_key :: "'w ci_state \<Rightarrow> string \<Rightarrow> CareInstructionSpec \<Rightarrow> 'w ci_state \<Rightarrow> bool" where
  "only_key s0 k sp s \<longleftrightarrow> table_inv s \<and> ctx_inv s
     \<and> (\<forall>g. gr_key g \<noteq> k \<longrightarrow> live s g = live s0 g)
     \<and> (\<forall>g. live s g \<longrightarrow> gr_key g = k \<longrightarrow> live s0 g \<or> controller_Spec g = sp)"

lemma ctx_inv_live:
  assumes "table_inv s" "ctx_inv s" "map_lookup (cs_gardens s) k = Some e" "cancelFunc e = Some ctx" "live s g" "gr_ctx g = ctx"
  shows "gr_key g = k"
  using table_inv_liveD [OF assms(1,5)] assms(2-4,6) unfolding ctx_inv_def by metis

text \<open>The part of the state that these notions read.\<close>

definition lview :: "'w ci_state \<Rightarrow> 'w garden gmap \<times> 'w goroutine list \<times> nat set \<times> nat set \<times> nat" where
  "lview s = (cs_gardens s, cs_running s, cs_cancelled s, cs_closed s, cs_next s)"

lemma lview_frame:
  assumes "lview s' = lview s"
  shows "table_inv s' = table_inv s" "live s' = live s" "ctx_inv s' = ctx_inv s"
proof -
  have eq: "cs_gardens s' = cs_gardens s" "cs_running s' = cs_running s" "cs_cancelled s' = cs_cancelled s"
    "cs_closed s' = cs_closed s" "cs_next s' = cs_next s" using assms by (simp_all add: lview_def)
  then show l: "live s' = live s" and "ctx_inv s' = ctx_inv s" by (auto simp: live_def ctx_inv_def fun_eq_iff)
  have "entry_ok s' = entry_ok s" using eq by (auto simp: entry_ok_def fun_eq_iff)
  with eq l show "table_inv s' = table_inv s" by (simp add: table_inv_def)
qed

lemma only_key_lview:
  assumes "lview s' = lview s"
  shows "only_key s0 k sp s' = only_key s0 k sp s"
  unfolding only_key_def lview_frame [OF assms] ..

lemma lview_prims [keeps_intros]:
  "keeps lview (read_ci p)" "keeps lview (lookup_garden k)" "keeps lview (modify_ci p f)"
  "keeps lview (in_sc m)" "keeps lview (call m')" "keeps lview State_Monad.get"
  by (auto simp: keeps_def lview_def call_def State_Monad.get_def split: prod.split)

text \<open>Cancelling the context of the entry of the key.\<close>

lemma only_key_cancel:
  assumes "only_key s0 k sp s" "map_lookup (cs_gardens s) k = Some e" "cancelFunc e = Some ctx"
  shows "only_key s0 k sp (s\<lparr>cs_cancelled := insert ctx (cs_cancelled s)\<rparr>)"
proof -
  let ?s = "s\<lparr>cs_cancelled := insert ctx (cs_cancelled s)\<rparr>"
  have inv: "table_inv s" "ctx_inv s" using assms(1) by (simp_all add: only_key_def)
  have "ctx < cs_next s" using table_inv_entryD [OF inv(1) assms(2)] assms(3) by (simp add: entry_ok_def)
  then have t: "table_inv ?s" by (rule table_inv_cancel [OF inv(1)])
  have c: "ctx_inv ?s" using inv(2) by (simp add: ctx_inv_def)
  have l: "live ?s g \<longleftrightarrow> live s g \<and> gr_ctx g \<noteq> ctx" for g by (auto simp: live_def)
  have "gr_key g = k" if "live s g" "gr_ctx g = ctx" for g
    using ctx_inv_live [OF inv assms(2,3) that] .
  with t c show ?thesis using assms(1) unfolding only_key_def l by blast
qed

text \<open>Changing an entry without touching its context.\<close>

lemma only_key_entry:
  assumes "only_key s0 k sp s" "table_inv (s\<lparr>cs_gardens := map_put (cs_gardens s) k' e'\<rparr>)"
    and "map_lookup (cs_gardens s) k' = Some e" "cancelFunc e' = cancelFunc e"
  shows "only_key s0 k sp (s\<lparr>cs_gardens := map_put (cs_gardens s) k' e'\<rparr>)"
  using assms unfolding only_key_def ctx_inv_def by (auto split: if_splits)

lemma only_key_restart:
  assumes "only_key s0 k sp s" "gardenKey (cs_heap s p) = k" "run_state (restartShootController p) s = (u, s')"
  shows "only_key s0 k sp s'"
proof (cases "\<exists>e ctx. map_lookup (cs_gardens s) k = Some e \<and> cancelFunc e = Some ctx")
  case False
  with assms show ?thesis by (auto simp: restart_run split: option.splits)
next
  case True
  then obtain e ctx where e: "map_lookup (cs_gardens s) k = Some e" "cancelFunc e = Some ctx" by blast
  let ?s1 = "s\<lparr>cs_cancelled := insert ctx (cs_cancelled s)\<rparr>"
  let ?s2 = "?s1\<lparr>cs_gardens := map_put (cs_gardens ?s1) k (e\<lparr>g_mgr := None\<rparr>)\<rparr>"
  have l: "lview s' = lview ?s2" using assms(2,3) e by (auto simp: restart_run lview_def)
  have "table_inv s'" using hoareD [OF restart_inv _ assms(3)] assms(1) by (simp add: only_key_def)
  then have "table_inv ?s2" using lview_frame(1) [OF l] by simp
  then have "only_key s0 k sp ?s2"
    by (intro only_key_entry [OF only_key_cancel [OF assms(1) e], where e = e]) (simp_all add: e)
  with only_key_lview [OF l] show ?thesis by simp
qed

lemma only_key_register:
  assumes "only_key s0 k sp s" "run_state (register_garden p key h) s = (u, s')"
  shows "only_key s0 k sp s'"
proof -
  have t: "table_inv s'" using register_inv(1) [OF _ assms(2)] assms(1) by (simp add: only_key_def)
  have l: "live s' = live s" using assms(2) by (auto simp: register_garden_def Let_def)
  have "map_lookup (cs_gardens s') k' = Some e \<Longrightarrow> cancelFunc e = Some ctx \<Longrightarrow> map_lookup (cs_gardens s) k' = Some e" for k' e ctx
    using assms(2) by (auto simp: register_garden_def Let_def new_garden_def split: if_splits) (simp_all add: map_lookup_def)
  then have "ctx_inv s'" using assms(1) unfolding only_key_def ctx_inv_def by blast
  with t l assms(1) show ?thesis by (simp add: only_key_def)
qed

lemma only_key_stop:
  assumes "only_key s0 k sp s" "map_lookup (cs_gardens s) k = Some g" "run_state (stop_manager k g) s = (u, s')"
  shows "only_key s0 k sp s'"
proof (cases "g_mgr g = None \<or> cancelFunc g = None")
  case True
  with assms show ?thesis by (auto simp: stop_manager_def split: if_splits option.splits)
next
  case False
  then obtain ctx where ctx: "cancelFunc g = Some ctx" by auto
  with False assms(2,3) have "s' = s\<lparr>cs_cancelled := insert ctx (cs_cancelled s)\<rparr>" by (auto simp: stop_manager_def)
  with only_key_cancel [OF assms(1,2) ctx] show ?thesis by simp
qed

lemma only_key_launch:
  assumes "only_key s0 k sp s" "stopped k s" "controller_Spec \<lparr>gr_key = k, gr_ctx = cs_next s, gr_chan = cs_next s + 1, gr_controller = sc\<rparr> = sp"
    and run: "run_state (launch_manager env p k cfg c m sc) s = (u, s')"
  shows "only_key s0 k sp s'"
proof -
  from assms(2) obtain g where inv: "table_inv s" and g: "map_lookup (cs_gardens s) k = Some g" by (auto simp: stopped_def)
  note s' = run [unfolded launch_run [OF g], THEN arg_cong [where f = snd], unfolded snd_conv, symmetric]
  have t: "table_inv s'" by (rule launch_inv(1) [OF assms(2) run])
  have canc: "cs_next s \<notin> cs_cancelled s" using inv by (auto simp: table_inv_def)
  have l: "live s' x \<longleftrightarrow> live s x \<or> x = \<lparr>gr_key = k, gr_ctx = cs_next s, gr_chan = cs_next s + 1, gr_controller = sc\<rparr>" for x
    using canc by (auto simp: s' live_def)
  have old: "cancelFunc e \<noteq> Some (cs_next s)" if "map_lookup (cs_gardens s) k' = Some e" for k' e
    using table_inv_entryD [OF inv that] by (auto simp: entry_ok_def)
  have "ctx_inv s'"
    using assms(1) old unfolding only_key_def ctx_inv_def by (auto simp: s' split: if_splits)
  with t assms(1,3) show ?thesis unfolding only_key_def l by auto
qed

text \<open>A handler at work on the object \<open>p\<close>.\<close>

abbreviation handling :: "'w ci_state \<Rightarrow> nat \<Rightarrow> string \<Rightarrow> CareInstructionSpec \<Rightarrow> 'w ci_state \<Rightarrow> bool" where
  "handling s0 p k sp s \<equiv> only_key s0 k sp s \<and> gardenKey (cs_heap s p) = k \<and> ci_Spec (cs_heap s p) = sp"

lemma handling_keeps:
  assumes "keeps lview m" "keeps idents m"
  shows "hoare (\<lambda>s. handling s0 p k sp s \<and> b) m (\<lambda>_ s. handling s0 p k sp s \<and> b)"
    and "hoare (\<lambda>s. handling s0 p k sp s \<and> stopped k s \<and> b) m (\<lambda>_ s. handling s0 p k sp s \<and> stopped k s \<and> b)"
proof -
  have "only_key s0 k sp s' = only_key s0 k sp s \<and> stopped k s' = stopped k s
      \<and> gardenKey (cs_heap s' p) = gardenKey (cs_heap s p) \<and> ci_Spec (cs_heap s' p) = ci_Spec (cs_heap s p)"
    if "run_state m s = (a, s')" for s a s'
  proof -
    have v: "lview s' = lview s" "idents s' = idents s" using keepsD [OF assms(1) that] keepsD [OF assms(2) that] .
    then have "cs_gardens s' = cs_gardens s" "cs_cancelled s' = cs_cancelled s" "ci_Spec (cs_heap s' p) = ci_Spec (cs_heap s p)"
      by (auto simp: lview_def idents_def fun_eq_iff)
    with v(2) only_key_lview [OF v(1)] lview_frame(1) [OF v(1)] gardenKey_idents [of s' p s] show ?thesis by (simp add: stopped_def)
  qed
  then show "hoare (\<lambda>s. handling s0 p k sp s \<and> b) m (\<lambda>_ s. handling s0 p k sp s \<and> b)"
    "hoare (\<lambda>s. handling s0 p k sp s \<and> stopped k s \<and> b) m (\<lambda>_ s. handling s0 p k sp s \<and> stopped k s \<and> b)"
    unfolding hoare_def by metis+
qed

lemma start_manager_only_key:
  "hoare (\<lambda>s. handling s0 p k sp s \<and> stopped k s) (start_manager env p k cfg) (\<lambda>_. only_key s0 k sp)"
proof -
  let ?B = "\<lambda>b s. handling s0 p k sp s \<and> stopped k s \<and> b"
  have read: "hoare (\<lambda>s. handling s0 p k sp s \<and> stopped k s) (read_ci p) (\<lambda>ci. ?B (ci_Spec ci = sp))"
    by (rule hoareI) auto
  have calls: "hoare (?B b) (call m) (\<lambda>_. ?B b)" "hoare (?B b) (in_sc m') (\<lambda>_. ?B b)"
    for b and m :: "('a, 'b) state" and m' :: "('a sc_state, 'c) state"
    by (rule handling_keeps(2); intro keeps_intros)+
  have launch: "hoare (?B (ci_Spec ci = sp)) (launch_manager env p k cfg c m (new_ShootController env m' ci)) (\<lambda>_. only_key s0 k sp)"
    for c m m' ci
  proof (rule hoareI)
    fix s u s' assume pre: "?B (ci_Spec ci = sp) s"
      and run: "run_state (launch_manager env p k cfg c m (new_ShootController env m' ci)) s = (u, s')"
    show "only_key s0 k sp s'"
      by (rule only_key_launch [OF _ _ _ run]) (use pre in \<open>simp_all add: controller_Spec_def new_ShootController_def\<close>)
  qed
  show ?thesis
    unfolding start_manager_def Let_def
    by (intro hoare_bind [OF read] hoare_bind [OF calls(1)] hoare_bind [OF calls(2)] launch hoare_sum hoare_option hoare_ret)
       simp_all
qed

lemma ensure_manager_only_key:
  "hoare (handling s0 p k sp) (ensure_manager env p k cfg) (\<lambda>_. only_key s0 k sp)"
proof -
  have stop: "hoare (\<lambda>s. handling s0 p k sp s \<and> map_lookup (cs_gardens s) k = Some g) (stop_manager k g)
      (\<lambda>_ s. handling s0 p k sp s \<and> stopped k s)" for g
  proof (rule hoareI)
    fix s u s' assume pre: "handling s0 p k sp s \<and> map_lookup (cs_gardens s) k = Some g" and run: "run_state (stop_manager k g) s = (u, s')"
    then have "table_inv s" by (simp add: only_key_def)
    from stop_manager_inv [OF this _ run] pre only_key_stop [OF _ _ run, of s0 sp] show "handling s0 p k sp s' \<and> stopped k s'" by auto
  qed
  show ?thesis
    unfolding ensure_manager_def
    by (intro hoare_bind [OF hoare_lookup] hoare_bind [OF hoare_read] hoare_bind [OF hoare_get] hoare_option hoare_exec hoare_if
          hoare_bind [OF hoare_pre [OF stop]] start_manager_only_key hoare_ret) auto
qed

lemma reconcileManager_only_key:
  assumes "handling s0 p k sp s" "run_state (reconcileManager env p) s = (r, s')"
  shows "only_key s0 k sp s'"
proof -
  let ?P = "handling s0 p k sp"
  note same = handling_keeps(1) [where b = True, simplified]
  have seed: "hoare ?P (seed_hash env p) (\<lambda>_. ?P)"
    unfolding seed_hash_def by (rule same; intro keeps_intros)
  have acc: "hoare ?P (call m) (\<lambda>_. ?P)" for m :: "('a, 'b) state"
    by (rule same; intro keeps_intros)
  have modify: "hoare ?P (modify_ci p (SetCondition E c)) (\<lambda>_. ?P)" for E c
    by (rule same; intro keeps_intros)
  have reg: "hoare ?P (register_garden p k h) (\<lambda>_. ?P)" for h
  proof (rule hoareI)
    fix t u t' assume pre: "?P t" and run: "run_state (register_garden p k h) t = (u, t')"
    then have "cs_heap t' = cs_heap t" by (auto simp: register_garden_def Let_def)
    with pre only_key_register [OF _ run] show "?P t'" by simp
  qed
  have connect: "hoare ?P (connect_manager env p k acc) (\<lambda>_. only_key s0 k sp)" for acc
    unfolding connect_manager_def by (intro hoare_sum hoare_bind [OF modify] ensure_manager_only_key hoare_ret) simp_all
  show ?thesis
    by (rule reconcileManager_phases [where P = ?P, OF assms(2) assms(1) refl seed _ _ acc])
       (use assms(1) reg connect in simp_all)
qed

subsection \<open>The second half of a reconciliation\<close>

text \<open>The second half works on the same key, although a patch may change the Spec of the object.  An assertion
  about managers survives it if it does not depend on the objects and survives a restart and a new hash.\<close>

locale second_half =
  fixes I :: "'w ci_state \<Rightarrow> bool" and p :: nat and k :: string
  assumes frame: "lview s' = lview s \<Longrightarrow> I s' = I s"
    and restart: "I s \<Longrightarrow> gardenKey (cs_heap s p) = k \<Longrightarrow> run_state (restartShootController p) s = (u, s') \<Longrightarrow> I s'"
    and hash: "I s \<Longrightarrow> map_lookup (cs_gardens s) key = Some e \<Longrightarrow>
      I (s\<lparr>cs_gardens := map_put (cs_gardens s) key (e\<lparr>authConfigMapHash := h\<rparr>)\<rparr>)"
begin

abbreviation at_key :: "'w ci_state \<Rightarrow> bool" where
  "at_key s \<equiv> I s \<and> gardenKey (cs_heap s p) = k"

lemma at_key_keeps:
  assumes "keeps lview m" "keeps idents m"
  shows "hoare at_key m (\<lambda>_. at_key)"
proof (rule hoareI)
  fix s a s' assume pre: "at_key s" and run: "run_state m s = (a, s')"
  from frame [OF keepsD [OF assms(1) run]] gardenKey_idents [of s' p s] keepsD [OF assms(2) run] pre
  show "at_key s'" by simp
qed

lemma at_key_restart: "hoare at_key (restartShootController p) (\<lambda>_. at_key)"
proof (rule hoareI)
  fix s u s' assume pre: "at_key s" and run: "run_state (restartShootController p) s = (u, s')"
  have "gardenKey (cs_heap s' p) = gardenKey (cs_heap s p)" using run by (auto simp: restart_run split: option.splits)
  with pre restart [OF _ _ run] show "at_key s'" by simp
qed

lemma at_key_annotation:
  assumes "patch_same_key env"
  shows "hoare at_key (handle_ci_annotation env p) (\<lambda>_. at_key)"
proof (rule hoareI)
  fix s a s' assume pre: "at_key s" and run: "run_state (handle_ci_annotation env p) s = (a, s')"
  let ?ci = "(cs_heap s p)\<lparr>Annotations := map_delete (Annotations (cs_heap s p)) ReconcileAnnotation\<rparr>"
  obtain r w where patch: "run_state (gh_patch_careinstruction (r_Client env) ?ci (cs_heap s p)) (sc_world (cs_sc s)) = (r, w)" by fastforce
  have t: "at_key x" if "lview x = lview s" "gardenKey (cs_heap x p) = k" for x
    using pre that frame [OF that(1)] by simp
  have ans: "gardenKey answered = k" if "r = Inr answered" for answered
    using assms [unfolded patch_same_key_def, rule_format, OF patch [unfolded that]] pre by (simp add: gardenKey_def)
  have ci: "gardenKey ?ci = k" using pre by (simp add: gardenKey_def)
  let ?x = "s\<lparr>cs_heap := (cs_heap s)(p := ?ci), cs_sc := (cs_sc s)\<lparr>sc_world := w\<rparr>\<rparr>"
  consider "s' = s" | "s' = ?x"
    | answered u where "r = Inr answered" "run_state (restartShootController p) (?x\<lparr>cs_heap := (cs_heap ?x)(p := answered)\<rparr>) = (u, s')"
    using run patch by (auto simp: handle_ci_annotation_def call_def split: if_splits sum.splits prod.splits)
  then show "at_key s'"
  proof cases
    case 2
    with t [of ?x] ci show ?thesis by (simp add: lview_def)
  next
    case 3
    with t [of "?x\<lparr>cs_heap := (cs_heap ?x)(p := answered)\<rparr>"] ans hoareD [OF at_key_restart _ 3(2)] show ?thesis by (simp add: lview_def)
  qed (use pre in simp)
qed

lemma at_key_auth: "hoare at_key (handle_auth_change env p key) (\<lambda>_. at_key)"
proof -
  have prims: "hoare at_key (read_ci p) (\<lambda>_. at_key)" "hoare at_key (lookup_garden key) (\<lambda>_. at_key)" "hoare at_key (call m) (\<lambda>_. at_key)"
    for m :: "('w, 'b) state" by (rule at_key_keeps; intro keeps_intros)+
  have modify: "hoare at_key (modify_garden key (\<lambda>g. g\<lparr>authConfigMapHash := h\<rparr>)) (\<lambda>_. at_key)" for h
    by (rule hoareI) (auto intro: hash split: option.splits)
  show ?thesis
    unfolding handle_auth_change_def Let_def
    by (intro hoare_bind [OF prims(1)] hoare_bind [OF prims(2)] hoare_bind [OF prims(3)] hoare_bind [OF modify]
          hoare_bind [OF at_key_restart] hoare_if hoare_sum hoare_option hoare_exec hoare_ret) simp_all
qed

lemma reconcileShoots_at_key:
  assumes "patch_same_key env"
  shows "hoare at_key (reconcileShootsNClusters env p) (\<lambda>_. at_key)"
proof -
  have phases: "hoare at_key (list_target_shoots env p gc) (\<lambda>_. at_key)" "hoare at_key (reconcile_clusters env p gc inc exc) (\<lambda>_. at_key)" for gc inc exc
    unfolding list_target_shoots_def reconcile_clusters_def list_owned_clusters_def handle_cluster_annotations_def
      annotate_via_cluster_def find_conflicts_def check_conflict_def report_statuses_def Let_def
    by (rule at_key_keeps; intro keeps_intros)+
  have prims: "hoare at_key (read_ci p) (\<lambda>_. at_key)" "hoare at_key (lookup_garden key) (\<lambda>_. at_key)" "hoare at_key (modify_ci p (update_status u)) (\<lambda>_. at_key)"
    for key u by (rule at_key_keeps; intro keeps_intros)+
  have metrics: "hoare at_key (State (\<lambda>s. ((), s\<lparr>cs_metrics := f s\<rparr>))) (\<lambda>_. at_key)" for f
    by (rule at_key_keeps) (simp_all add: keeps_def lview_def idents_def fun_eq_iff)
  have body: "hoare at_key (shoots_body env p) (\<lambda>_. at_key)"
    unfolding shoots_body_def Let_def
    by (intro hoare_bind [OF prims(1)] hoare_bind [OF prims(2)] hoare_option hoare_bind [OF at_key_annotation [OF assms]] hoare_sum
          hoare_bind [OF phases(1)] hoare_prod hoare_bind [OF at_key_auth] phases(2) hoare_ret) simp_all
  show ?thesis
    unfolding reconcileShootsNClusters_def
    by (intro hoare_bind [OF prims(3)] hoare_bind [OF body] hoare_bind [OF prims(1)] hoare_bind [OF metrics] hoare_ret) simp_all
qed

end

lemma only_key_hash:
  assumes "only_key s0 k sp s" "map_lookup (cs_gardens s) key = Some e"
  shows "only_key s0 k sp (s\<lparr>cs_gardens := map_put (cs_gardens s) key (e\<lparr>authConfigMapHash := h\<rparr>)\<rparr>)"
proof -
  have inv: "table_inv s" using assms(1) by (simp add: only_key_def)
  have "table_inv (s\<lparr>cs_gardens := map_put (cs_gardens s) key (e\<lparr>authConfigMapHash := h\<rparr>)\<rparr>)"
    by (rule table_inv_update_entry [OF inv assms(2)]) (use table_inv_entryD [OF inv assms(2)] in \<open>simp_all add: entry_ok_def\<close>)
  from only_key_entry [OF assms(1) this assms(2)] show ?thesis by simp
qed

interpretation own: second_half "only_key s0 k sp" p k for s0 k sp p
  by unfold_locales (rule only_key_lview only_key_restart only_key_hash; assumption)+

subsection \<open>The handlers\<close>

lemma EnsureCreated_only_key:
  assumes "patch_same_key env" "table_inv s" "ctx_inv s" "run_state (EnsureCreated env p) s = (out, s')"
  shows "only_key s (gardenKey (cs_heap s p)) (ci_Spec (cs_heap s p)) s'"
proof -
  let ?k = "gardenKey (cs_heap s p)" and ?sp = "ci_Spec (cs_heap s p)"
  obtain s0 le s1 m s2 r s3 where s0: "s0 = s\<lparr>cs_heap := (cs_heap s)(p := initializeConditionsToUnknown (env_ext env) (cs_heap s p))\<rparr>"
    and c: "run_state (call (ensureAuthConfigMapLabeled env (cs_heap s0 p))) s0 = (le, s1)"
    and m: "run_state (reconcileManager env p) s1 = (m, s2)" and r: "run_state (reconcileShootsNClusters env p) s2 = (r, s3)"
    and out: "(out, s') = created_outcome (env_ext env) p m s2 r s3"
    by (rule EnsureCreated_run [OF assms(4)])
  have "only_key s ?k ?sp s" using assms(2,3) by (simp add: only_key_def)
  then have "handling s p ?k ?sp s0" using only_key_lview [of s0 s s ?k ?sp] by (simp add: s0 lview_def gardenKey_def)
  then have h1: "handling s p ?k ?sp s1"
    using hoareD [OF handling_keeps(1) [where b = True, simplified, OF lview_prims(5) idents_prims(7)] _ c] by blast
  have "gardenKey (cs_heap s2 p) = ?k"
    using gardenKey_idents [of s2 p s1] keepsD [OF reconcileManager_idents m] h1 by simp
  with reconcileManager_only_key [OF h1 m] have h2: "own.at_key s ?k ?sp p s2" by simp
  then have h3: "own.at_key s ?k ?sp p s3" using hoareD [OF own.reconcileShoots_at_key [OF assms(1)] _ r] by blast
  have "lview s' = lview s2 \<or> lview s' = lview s3"
    using out by (auto simp: created_outcome_def lview_def split: exec.splits option.splits)
  then show ?thesis using h2 h3 only_key_lview [of s' s2 s ?k ?sp] only_key_lview [of s' s3 s ?k ?sp] by auto
qed

lemma EnsureDeleted_key:
  assumes "table_inv s" "ctx_inv s" "run_state (EnsureDeleted env p) s = (out, s')"
  shows "ctx_inv s'" "live s' g \<longleftrightarrow> live s g \<and> gr_key g \<noteq> gardenKey (cs_heap s p)"
proof -
  let ?k = "gardenKey (cs_heap s p)"
  have sub: "map_lookup (cs_gardens s') k = Some e \<Longrightarrow> map_lookup (cs_gardens s) k = Some e" for k e
    using assms(3) by (auto simp: EnsureDeleted_def cleanupCareInstruction_def split: option.splits if_splits prod.splits)
  then show "ctx_inv s'" using assms(2) unfolding ctx_inv_def by blast
  have "cs_running s' = cs_running s" and canc: "cs_cancelled s' = cs_cancelled s \<or>
      (\<exists>e ctx. map_lookup (cs_gardens s) ?k = Some e \<and> cancelFunc e = Some ctx \<and> cs_cancelled s' = insert ctx (cs_cancelled s))"
    using assms(3) by (auto simp: EnsureDeleted_def cleanupCareInstruction_def gardenKey_def split: option.splits prod.splits)
  then have "live s' g \<Longrightarrow> live s g" "live s g \<Longrightarrow> gr_key g \<noteq> ?k \<Longrightarrow> live s' g"
    using ctx_inv_live [OF assms(1,2)] by (auto simp: live_def)
  then show "live s' g \<longleftrightarrow> live s g \<and> gr_key g \<noteq> ?k" using EnsureDeleted_inv(2) [OF assms(1,3)] by blast
qed

lemma live_exits:
  assumes "table_inv s" "g \<in> set (cs_running s)"
  shows "live (manager_exits g s) x \<longleftrightarrow> live s x \<and> x \<noteq> g"
proof -
  have "distinct (cs_running s)" using assms(1) by (auto simp: table_inv_def distinct_map)
  then show ?thesis by (auto simp: live_def manager_exits_def)
qed

lemma load_frame: "ctx_inv (load c s) = ctx_inv s" "live (load c s) = live s"
  by (simp_all add: ctx_inv_def live_def load_def fun_eq_iff)

lemma reachable_ctx_inv:
  assumes "patch_same_key env" "reachable env s"
  shows "ctx_inv s"
  using assms(2)
proof induction
  case (start sc)
  show ?case by (simp add: ctx_inv_def initial_state_def)
next
  case (step s s')
  have inv: "table_inv (load c s)" "ctx_inv (load c s)" for c
    using step table_inv_load reachable_inv by (auto simp: load_frame)
  from step(2) show ?case
  proof cases
    case (reconcile c out)
    from EnsureCreated_only_key [OF assms(1) inv reconcile] show ?thesis by (simp add: only_key_def)
  next
    case (delete c out)
    from EnsureDeleted_key(1) [OF inv delete] show ?thesis .
  qed (use step(3) in \<open>auto simp: ctx_inv_def manager_exits_def write_back_def\<close>)
qed

lemma only_key_refines:
  assumes "table_inv s" "only_key s k sp s'"
  shows "abs_reconcile k sp (abs_managers s) (abs_managers s')"
proof -
  have "abs_managers s' k' = abs_managers s k'" if "k' \<noteq> k" for k'
    using that assms(2) by (auto simp: only_key_def abs_managers_def)
  then have upd: "abs_managers s' = (abs_managers s)(k := abs_managers s' k)" by (simp add: fun_eq_iff)
  have single: "abs_managers t k = {controller_Spec x}" if "table_inv t" "live t x" "gr_key x = k" for t x
    using that live_unique [OF that(1)] by (force simp: abs_managers_def)
  show ?thesis
  proof (cases "\<exists>x. live s' x \<and> gr_key x = k")
    case False
    then have "abs_managers s' k = {}" by (simp add: abs_managers_def)
    with upd show ?thesis by (metis abs_reconcile.stop)
  next
    case True
    then obtain x where x: "live s' x" "gr_key x = k" by blast
    have "table_inv s'" using assms(2) by (simp add: only_key_def)
    note a = single [OF this x]
    from assms(2) x consider "live s x" | "controller_Spec x = sp" by (auto simp: only_key_def)
    then show ?thesis
    proof cases
      case 1
      with single [OF assms(1) 1 x(2)] a upd show ?thesis by (metis abs_reconcile.keep fun_upd_triv)
    next
      case 2
      with a upd show ?thesis by (metis abs_reconcile.replace)
    qed
  qed
qed

lemma exit_refines:
  assumes "table_inv s" "g \<in> set (cs_running s)"
  shows "abs_managers (manager_exits g s) =
     (if gr_ctx g \<in> cs_cancelled s then abs_managers s else (abs_managers s)(gr_key g := {}))"
proof -
  have key: "gr_key x \<noteq> gr_key g" if "live s x" "x \<noteq> g" "gr_ctx g \<notin> cs_cancelled s" for x
    using that assms live_unique [OF assms(1) that(1), of g] by (auto simp: live_def)
  have dead: "\<not> live s g" if "gr_ctx g \<in> cs_cancelled s" using that by (simp add: live_def)
  have "{x. live (manager_exits g s) x \<and> gr_key x = k} =
      (if gr_ctx g \<in> cs_cancelled s \<or> k \<noteq> gr_key g then {x. live s x \<and> gr_key x = k} else {})" for k
    unfolding live_exits [OF assms] using key dead by auto
  then show ?thesis by (simp add: abs_managers_def fun_eq_iff)
qed

section \<open>Properties\<close>

text \<open>C4: the controller refines the abstract machine.  From every reachable state, a reconciliation of a
  CareInstruction keeps the live manager of this CareInstruction, stops it, or replaces it by one that works
  with the given Spec; a deletion stops it and reports success; the exit of a manager removes it if it was live; and the live
  managers of all other CareInstructions are exactly what they were, whatever the API servers answer.\<close>

theorem managers_refine:
  assumes "patch_same_key env" "reachable env s"
  shows "(run_state (EnsureCreated env (cs_next s)) (load c s) = (out, s') \<longrightarrow>
            abs_reconcile (gardenKey c) (ci_Spec c) (abs_managers s) (abs_managers s'))
       \<and> (run_state (EnsureDeleted env (cs_next s)) (load c s) = (out, s') \<longrightarrow>
            abs_managers s' = (abs_managers s)(gardenKey c := {}) \<and> out = Returned (no_requeue, Success, None))
       \<and> (g \<in> set (cs_running s) \<longrightarrow> abs_managers (manager_exits g s) =
            (if gr_ctx g \<in> cs_cancelled s then abs_managers s else (abs_managers s)(gr_key g := {})))"
proof -
  have t: "table_inv s" "table_inv (load c s)" "ctx_inv (load c s)" "cs_heap (load c s) (cs_next s) = c"
    using reachable_inv [OF assms(2)] table_inv_load reachable_ctx_inv [OF assms] by (auto simp: load_frame) (simp add: load_def)
  have "abs_reconcile (gardenKey c) (ci_Spec c) (abs_managers s) (abs_managers s')"
    if run: "run_state (EnsureCreated env (cs_next s)) (load c s) = (out, s')"
    using EnsureCreated_only_key [OF assms(1) t(2,3) run]
    by (intro only_key_refines [OF t(1)]) (simp add: t(4) only_key_def load_frame)
  moreover have "out = Returned (no_requeue, Success, None)"
    if "run_state (EnsureDeleted env (cs_next s)) (load c s) = (out, s')"
    using that by (auto simp: EnsureDeleted_def split: prod.splits)
  moreover have "abs_managers s' = (abs_managers s)(gardenKey c := {})"
    if run: "run_state (EnsureDeleted env (cs_next s)) (load c s) = (out, s')"
    using EnsureDeleted_key(2) [OF t(2,3) run] by (auto simp: abs_managers_def fun_eq_iff t(4) load_frame)
  ultimately show ?thesis using exit_refines [OF t(1), of g] by blast
qed

end
