(* ===== verification/Ci_Reports.thy ===== *)
theory Ci_Reports
  imports Ci_Spec_Match
begin

section \<open>What a reconciliation reports\<close>

text \<open>
  Which Shoots a CareInstruction selects, when the counts match, and what the status and the Ready
  condition say at the end of a reconciliation.  The status is followed through the phases of
  \<open>reconcileShootsNClusters\<close> by Hoare triples over the object that the handler works on.
\<close>

subsection \<open>Selection of Shoots\<close>

definition selected :: "ext \<Rightarrow> CareInstruction \<Rightarrow> Shoot \<Rightarrow> bool" where
  "selected E ci shoot \<longleftrightarrow> MatchesCELFilter E ci shoot = Inr True"

definition exclusion_reason :: "ext \<Rightarrow> CareInstruction \<Rightarrow> Shoot \<Rightarrow> string" where
  "exclusion_reason E ci shoot = (case MatchesCELFilter E ci shoot of
      Inl err \<Rightarrow> ''CEL evaluation failed: '' @ Error err
    | Inr _ \<Rightarrow> ''filtered out by CEL expression'')"

lemma classify_shoot_eq:
  "classify_shoot E ci shoot (inc, exc) =
     (if selected E ci shoot then (inc @ [shoot], exc)
      else (inc, AList.update (Name shoot) (exclusion_reason E ci shoot) exc))"
  by (auto simp: classify_shoot_def selected_def exclusion_reason_def split: sum.split)

lemma classify_shoots_snoc:
  "classify_shoots E ci (shoots @ [s]) = classify_shoot E ci s (classify_shoots E ci shoots)"
  by (simp add: classify_shoots_def)

lemma classify_included: "fst (classify_shoots E ci shoots) = filter (selected E ci) shoots"
proof (induction shoots rule: rev_induct)
  case Nil
  then show ?case by (simp add: classify_shoots_def)
next
  case (snoc s shoots)
  then show ?case by (cases "classify_shoots E ci shoots") (simp add: classify_shoots_snoc classify_shoot_eq)
qed

lemma classify_excluded:
  "distinct (map fst (snd (classify_shoots E ci shoots)))
   \<and> map_of (snd (classify_shoots E ci shoots)) n =
       map_option (exclusion_reason E ci) (find (\<lambda>s. Name s = n \<and> \<not> selected E ci s) (rev shoots))"
proof (induction shoots rule: rev_induct)
  case Nil
  then show ?case by (simp add: classify_shoots_def)
next
  case (snoc s shoots)
  then show ?case
    by (cases "classify_shoots E ci shoots")
       (auto simp: classify_shoots_snoc classify_shoot_eq map_of_AList_update intro: AList.distinct_update)
qed

lemma matched_owned_count_eq:
  "matched_owned_count xs clusters = length (filter (\<lambda>s. Name s \<in> Name ` set clusters) xs)"
proof -
  have "fold (\<lambda>shoot n. if Name shoot \<in> Name ` set clusters then n + 1 else n) xs k
      = k + length (filter (\<lambda>s. Name s \<in> Name ` set clusters) xs)" for k
    by (induction xs arbitrary: k) auto
  then show ?thesis by (simp add: matched_owned_count_def)
qed

lemma counts_match_iff:
  "length xs = matched_owned_count xs clusters \<longleftrightarrow> (\<forall>s \<in> set xs. \<exists>c \<in> set clusters. Name c = Name s)"
proof -
  have "length xs = matched_owned_count xs clusters \<longleftrightarrow> (\<forall>s \<in> set xs. Name s \<in> Name ` set clusters)"
    unfolding matched_owned_count_eq by (metis filter_True length_filter_less nat_neq_iff)
  then show ?thesis by (force simp: image_iff)
qed

subsection \<open>The status through the phases\<close>

text \<open>The status that the code writes is well-formed: the names are strictly sorted, every Shoot has one of
  the three statuses, and the failed ones are counted.\<close>

definition status_ok :: "CareInstructionStatus \<Rightarrow> bool" where
  "status_ok st \<longleftrightarrow> sorted_wrt (<) (map ss_Name (slice_elems (Shoots st)))
     \<and> (\<forall>ss \<in> set (slice_elems (Shoots st)). ss_Status ss \<in> {ShootStatusOnboarded, ShootStatusFailed, ShootStatusExcluded})
     \<and> FailedClusters st = int (length (filter (\<lambda>ss. ss_Status ss = ShootStatusFailed) (slice_elems (Shoots st))))
     \<and> 0 \<le> TotalTargetShoots st \<and> 0 \<le> CreatedClusters st"

lemma status_ok_build:
  assumes "buildShootStatuses E ex cl co = (sts, f)" "0 \<le> TotalTargetShoots st" "0 \<le> CreatedClusters st"
  shows "status_ok (st\<lparr>Shoots := Some sts, FailedClusters := f\<rparr>)"
proof -
  have sts: "sts = fst (buildShootStatuses E ex cl co)" "f = snd (buildShootStatuses E ex cl co)" by (simp_all add: assms(1))
  have "ss_Status x \<in> {ShootStatusOnboarded, ShootStatusFailed, ShootStatusExcluded}" if "x \<in> set sts" for x
  proof -
    from that have "reported_status E ex cl co (ss_Name x) = Some x" by (simp add: sts set_buildShootStatuses)
    then have "x \<in> set (all_reports E ex cl co)" by (auto simp: reported_status_def dest: best_SomeD)
    then show ?thesis by (auto simp: all_reports_def report_status_cases)
  qed
  moreover have "f = int (length (filter (\<lambda>s. ss_Status s = ShootStatusFailed) sts))"
    by (simp add: sts buildShootStatuses_eq Let_def)
  ultimately show ?thesis
    using strictly_sorted_buildShootStatuses [of E ex cl co] assms(2,3) by (simp add: status_ok_def sts(1) slice_elems_def)
qed

lemma heap_call [simp]: "cs_heap (snd (run_state (call m) s)) = cs_heap s"
  by (auto simp: call_def split: prod.split)

lemma heap_prims [keeps_intros]:
  "keeps cs_heap (read_ci p)" "keeps cs_heap (lookup_garden k)" "keeps cs_heap (call m)" "keeps cs_heap (cancel c)"
  by (simp_all add: keeps_def)

lemma cluster_loops_heap:
  "keeps cs_heap (handle_cluster_annotations env ci gc items)" "keeps cs_heap (find_conflicts env ci names inc)"
  unfolding handle_cluster_annotations_def annotate_via_cluster_def find_conflicts_def check_conflict_def Let_def
  by (intro keeps_intros)+

text \<open>The answer of a list call as the code takes it: a missing kind is an empty list.\<close>

definition listed :: "go_error + 'a list \<Rightarrow> 'a list option" where
  "listed r = (case r of Inr xs \<Rightarrow> Some xs | Inl err \<Rightarrow> if IsNotFound err then Some [] else None)"

lemma listed_run:
  assumes "run_state (do { r \<leftarrow> call m;
     (case r of
        Inl err \<Rightarrow> if IgnoreNotFound (Some err) \<noteq> None then ret (fail err)
                  else do { modify_ci p (u 0); ret (Inr []) }
      | Inr items \<Rightarrow> do { modify_ci p (u (int (length items))); ret (Inr items) }) }) s = (l, s')"
  shows "case l of
      Inr items \<Rightarrow> listed (fst (run_state m (sc_world (cs_sc s)))) = Some items
        \<and> cs_heap s' = (cs_heap s)(p := u (int (length items)) (cs_heap s p))
    | Inl out \<Rightarrow> out \<noteq> Returned None \<and> cs_heap s' = cs_heap s"
proof -
  obtain r s1 where c: "run_state (call m) s = (r, s1)" by fastforce
  then have "cs_heap s1 = cs_heap s" "fst (run_state m (sc_world (cs_sc s))) = r"
    using heap_call [of m s] run_call_answer [of m s] by simp_all
  with assms c show ?thesis by (auto simp: listed_def split: sum.splits if_splits)
qed

lemma list_owned_run:
  assumes "run_state (list_owned_clusters env p) s = (l, s')"
  shows "case l of
      Inr items \<Rightarrow> listed (fst (run_state (ListClusters (cs_heap s p) (r_Client env)) (sc_world (cs_sc s)))) = Some items
        \<and> cs_heap s' = (cs_heap s)(p := update_status (\<lambda>st. st\<lparr>CreatedClusters := int (length items)\<rparr>) (cs_heap s p))
    | Inl out \<Rightarrow> out \<noteq> Returned None \<and> cs_heap s' = cs_heap s"
  using listed_run [where m = "ListClusters (cs_heap s p) (r_Client env)" and s = s and s' = s' and l = l and p = p
      and u = "\<lambda>n. update_status (\<lambda>st. st\<lparr>CreatedClusters := n\<rparr>)"] assms
  unfolding list_owned_clusters_def by (simp del: not_None_eq)

lemma list_target_run:
  assumes "run_state (list_target_shoots env p gc) s = (l, s')"
  shows "case l of
      Inr shoots \<Rightarrow> listed (fst (run_state (ListShoots (env_ext env) (cs_heap s p) gc) (sc_world (cs_sc s)))) = Some shoots
        \<and> cs_heap s' = (cs_heap s)(p := update_status (\<lambda>st. st\<lparr>TotalTargetShoots := int (length shoots)\<rparr>) (cs_heap s p))
    | Inl out \<Rightarrow> out \<noteq> Returned None \<and> cs_heap s' = cs_heap s"
  using listed_run [where m = "ListShoots (env_ext env) (cs_heap s p) gc" and s = s and s' = s' and l = l and p = p
      and u = "\<lambda>n. update_status (\<lambda>st. st\<lparr>TotalTargetShoots := n\<rparr>)"] assms
  unfolding list_target_shoots_def by (simp del: not_None_eq)

text \<open>What a successful reconciliation has left on the object: the counts of the two lists, a Cluster for
  every selected Shoot, no failure, and the condition.\<close>

definition reports_success :: "ext \<Rightarrow> CareInstruction \<Rightarrow> bool" where
  "reports_success E c \<longleftrightarrow> FailedClusters (ci_Status c) = 0
     \<and> (\<forall>ss \<in> set (slice_elems (Shoots (ci_Status c))). ss_Status ss \<noteq> ShootStatusFailed)
     \<and> get_condition E c ShootsReconciledCondition
         = Some (TrueCondition ShootsReconciledCondition ''Reconciled'' ''All shoots and clusters are reconciled'')"

text \<open>The list of Shoots and the failed count were left alone.\<close>

abbreviation same_report :: "CareInstruction \<Rightarrow> CareInstruction \<Rightarrow> bool" where
  "same_report c c' \<equiv> Shoots (ci_Status c') = Shoots (ci_Status c) \<and> FailedClusters (ci_Status c') = FailedClusters (ci_Status c)"

abbreviation same_but_status :: "CareInstruction \<Rightarrow> CareInstruction \<Rightarrow> bool" where
  "same_but_status c c' \<equiv> Name c' = Name c \<and> Namespace c' = Namespace c \<and> ci_Spec c' = ci_Spec c"

lemma report_statuses_run:
  assumes "lawful_conditions (env_ext env)" "run_state (report_statuses env p exc cl co retErr countsMatch) s = (out, s')"
  shows "same_but_status (cs_heap s p) (cs_heap s' p)"
    "TotalTargetShoots (ci_Status (cs_heap s' p)) = TotalTargetShoots (ci_Status (cs_heap s p))"
    "CreatedClusters (ci_Status (cs_heap s' p)) = CreatedClusters (ci_Status (cs_heap s p))"
    "0 \<le> TotalTargetShoots (ci_Status (cs_heap s p)) \<Longrightarrow> 0 \<le> CreatedClusters (ci_Status (cs_heap s p)) \<Longrightarrow> status_ok (ci_Status (cs_heap s' p))"
    "out = Returned None \<Longrightarrow> countsMatch \<and> retErr = None \<and> reports_success (env_ext env) (cs_heap s' p)"
proof -
  obtain sts f where b: "buildShootStatuses (env_ext env) exc cl co = (sts, f)" by fastforce
  let ?c = "update_status (\<lambda>st. st\<lparr>Shoots := Some sts, FailedClusters := f\<rparr>) (cs_heap s p)"
  have f: "f = int (length (filter (\<lambda>s. ss_Status s = ShootStatusFailed) sts))"
    using b by (auto simp: buildShootStatuses_eq Let_def)
  have heap: "cs_heap s' p = ?c \<and> out \<noteq> Returned None \<or> out = Returned None \<and> retErr = None \<and> countsMatch \<and> \<not> f > 0
     \<and> cs_heap s' p = SetCondition (env_ext env)
         (TrueCondition ShootsReconciledCondition ''Reconciled'' ''All shoots and clusters are reconciled'') ?c"
    using assms(2) b by (auto simp: report_statuses_def Let_def split: option.splits if_splits)
  have ok: "status_ok (ci_Status (SetCondition E k c)) = status_ok (ci_Status c)" for E k c
    by (simp add: status_ok_def)
  from heap show "same_but_status (cs_heap s p) (cs_heap s' p)"
    "TotalTargetShoots (ci_Status (cs_heap s' p)) = TotalTargetShoots (ci_Status (cs_heap s p))"
    "CreatedClusters (ci_Status (cs_heap s' p)) = CreatedClusters (ci_Status (cs_heap s p))" by auto
  show "status_ok (ci_Status (cs_heap s' p))"
    if "0 \<le> TotalTargetShoots (ci_Status (cs_heap s p))" "0 \<le> CreatedClusters (ci_Status (cs_heap s p))"
    using heap status_ok_build [OF b that] by (auto simp: ok)
  show "countsMatch \<and> retErr = None \<and> reports_success (env_ext env) (cs_heap s' p)" if "out = Returned None"
    using heap that f
    by (auto simp: reports_success_def get_condition_SetCondition [OF assms(1)] slice_elems_def filter_empty_conv)
qed

lemma find_conflicts_failure:
  assumes "run_state (find_conflicts env ci names inc) s = (Inl out, s')"
  shows "out \<noteq> Returned None"
proof -
  let ?I = "\<lambda>(r :: (string \<times> conflictInfo) list phase) (_ :: 'a ci_state). r \<noteq> Inl (Returned None)"
  have "hoare (?I (Inr [])) (for_range inc (Inr []) (check_conflict env ci names)) ?I"
    by (rule hoare_for_range) (auto simp: hoare_def check_conflict_def split: sum.splits if_splits prod.splits option.splits)
  from hoareD [OF this] assms show ?thesis by (fastforce simp: find_conflicts_def)
qed

lemma reconcile_clusters_run:
  assumes "lawful_conditions (env_ext env)" "run_state (reconcile_clusters env p gc inc exc) s = (out, s')"
  shows "same_but_status (cs_heap s p) (cs_heap s' p)
    \<and> TotalTargetShoots (ci_Status (cs_heap s' p)) = TotalTargetShoots (ci_Status (cs_heap s p))
    \<and> (status_ok (ci_Status (cs_heap s p)) \<longrightarrow> status_ok (ci_Status (cs_heap s' p)))
    \<and> (0 \<le> TotalTargetShoots (ci_Status (cs_heap s p)) \<longrightarrow>
         status_ok (ci_Status (cs_heap s' p)) \<or> same_report (cs_heap s p) (cs_heap s' p) \<and> out \<noteq> Returned None)
    \<and> (out = Returned None \<longrightarrow> reports_success (env_ext env) (cs_heap s' p)
       \<and> (\<exists>w items. listed (fst (run_state (ListClusters (cs_heap s p) (r_Client env)) w)) = Some items
            \<and> CreatedClusters (ci_Status (cs_heap s' p)) = int (length items)
            \<and> (\<forall>x \<in> set inc. \<exists>c \<in> set items. Name c = Name x)))"
proof -
  obtain l s1 where l: "run_state (list_owned_clusters env p) s = (l, s1)" by fastforce
  note lo = list_owned_run [OF l]
  show ?thesis
  proof (cases l)
    case (Inl e)
    with assms(2) l lo show ?thesis by (simp add: reconcile_clusters_def)
  next
    case (Inr items)
    let ?cm = "length inc = matched_owned_count inc items"
    obtain cl re s2 where a: "run_state (handle_cluster_annotations env (cs_heap s1 p) gc items) s1 = ((cl, re), s2)"
      by (metis prod.exhaust)
    obtain c s3 where c: "run_state (if ?cm then ret (Inr []) else find_conflicts env (cs_heap s1 p) (Name ` set items) inc) s2 = (c, s3)"
      by fastforce
    have heap: "cs_heap s3 = cs_heap s1"
      using keepsD [OF cluster_loops_heap(1) a] c by (auto dest: keepsD [OF cluster_loops_heap(2)] split: if_splits)
    have h1: "cs_heap s1 p = update_status (\<lambda>st. st\<lparr>CreatedClusters := int (length items)\<rparr>) (cs_heap s p)"
      using lo Inr by simp
    have run: "run_state (case c of Inl out \<Rightarrow> ret out | Inr conflicts \<Rightarrow> report_statuses env p exc cl conflicts re ?cm) s3 = (out, s')"
      using assms(2) l Inr a c by (simp add: reconcile_clusters_def Let_def)
    show ?thesis
    proof (cases c)
      case (Inl e)
      have "e \<noteq> Returned None"
        using Inl c by (auto dest: find_conflicts_failure split: if_splits)
      with run Inl heap h1 show ?thesis by (auto simp: status_ok_def)
    next
      case (Inr co)
      from run Inr have rs: "run_state (report_statuses env p exc cl co re ?cm) s3 = (out, s')" by simp
      note r = report_statuses_run [OF assms(1) rs]
      have "status_ok (ci_Status (cs_heap s p)) \<Longrightarrow> 0 \<le> TotalTargetShoots (ci_Status (cs_heap s p))" by (simp add: status_ok_def)
      moreover have "0 \<le> TotalTargetShoots (ci_Status (cs_heap s p)) \<Longrightarrow> status_ok (ci_Status (cs_heap s' p))"
        by (rule r(4)) (simp_all add: heap h1)
      ultimately show ?thesis using r(1,2,3,5) lo \<open>l = Inr items\<close> unfolding counts_match_iff by (auto simp: heap h1)
    qed
  qed
qed

text \<open>The object up to its restart counter.\<close>

definition core :: "CareInstruction \<Rightarrow> CareInstruction" where
  "core c = update_status (\<lambda>st. st\<lparr>ShootControllerRestartCount := 0\<rparr>) c"

lemma core_eqD:
  assumes "core c' = core c"
  shows "same_but_status c c'" "status_ok (ci_Status c') = status_ok (ci_Status c)"
    "TotalTargetShoots (ci_Status c') = TotalTargetShoots (ci_Status c)"
    "get_condition E c' t = get_condition E c t" "same_report c c'"
proof -
  have "same_but_status (core c) c" "status_ok (ci_Status (core c)) = status_ok (ci_Status c)"
    "TotalTargetShoots (ci_Status (core c)) = TotalTargetShoots (ci_Status c)"
    "get_condition E (core c) t = get_condition E c t" "same_report (core c) c" for c
    by (simp_all add: core_def status_ok_def get_condition_def)
  with assms show "same_but_status c c'" "status_ok (ci_Status c') = status_ok (ci_Status c)"
    "TotalTargetShoots (ci_Status c') = TotalTargetShoots (ci_Status c)"
    "get_condition E c' t = get_condition E c t" "same_report c c'" by metis+
qed

abbreviation core_of :: "nat \<Rightarrow> 'w ci_state \<Rightarrow> CareInstruction" where
  "core_of p s \<equiv> core (cs_heap s p)"

lemma core_prims [keeps_intros]:
  "keeps (core_of p) (read_ci q)" "keeps (core_of p) (lookup_garden k)" "keeps (core_of p) (call m)"
  "keeps (core_of p) (cancel c)" "keeps (core_of p) (modify_garden k f)" "keeps (core_of p) (restartShootController p)"
  by (simp_all add: keeps_def restart_run core_def update_status_def split: option.split)

lemma auth_change_run:
  assumes "run_state (handle_auth_change env p key) s = (h, s')"
  shows "core_of p s' = core_of p s" "h \<noteq> Inl (Returned None)"
proof -
  have "keeps (core_of p) (handle_auth_change env p key)"
    unfolding handle_auth_change_def Let_def by (intro keeps_intros)
  from keepsD [OF this assms] show "core_of p s' = core_of p s" .
  show "h \<noteq> Inl (Returned None)"
    using assms by (auto simp: handle_auth_change_def Let_def split: if_splits sum.splits prod.splits option.splits)
qed

text \<open>What the API server answers to the patch that removes the annotation.\<close>

definition patch_answers :: "'w ci_env \<Rightarrow> CareInstruction \<Rightarrow> CareInstruction \<Rightarrow> bool" where
  "patch_answers env base answered \<longleftrightarrow> (\<exists>w w'. run_state (gh_patch_careinstruction (r_Client env)
     (base\<lparr>Annotations := map_delete (Annotations base) ReconcileAnnotation\<rparr>) base) w = (Inr answered, w'))"

lemma annotation_run:
  assumes "run_state (handle_ci_annotation env p) s = (a, s')"
  shows "a \<noteq> Inl (Returned None)"
    and "ci_Status (cs_heap s' p) = ci_Status (cs_heap s p) \<or>
         map_get (Annotations (cs_heap s p)) ReconcileAnnotation = ''true'' \<and>
         (\<exists>answered. patch_answers env (cs_heap s p) answered \<and> same_report answered (cs_heap s' p))"
proof -
  show "a \<noteq> Inl (Returned None)"
    using assms by (auto simp: handle_ci_annotation_def split: if_splits sum.splits prod.splits)
  let ?c = "cs_heap s p"
  let ?t = "s\<lparr>cs_heap := (cs_heap s)(p := ?c\<lparr>Annotations := map_delete (Annotations ?c) ReconcileAnnotation\<rparr>)\<rparr>"
  show "ci_Status (cs_heap s' p) = ci_Status ?c \<or> map_get (Annotations ?c) ReconcileAnnotation = ''true'' \<and>
         (\<exists>answered. patch_answers env ?c answered \<and> same_report answered (cs_heap s' p))"
  proof (cases "map_get (Annotations ?c) ReconcileAnnotation = ''true''")
    case False
    with assms show ?thesis by (simp add: handle_ci_annotation_def)
  next
    case True
    obtain r w where patch: "run_state (gh_patch_careinstruction (r_Client env) (cs_heap ?t p) ?c) (sc_world (cs_sc ?t)) = (r, w)" by fastforce
    let ?u = "?t\<lparr>cs_sc := (cs_sc s)\<lparr>sc_world := w\<rparr>\<rparr>"
    show ?thesis
    proof (cases r)
      case (Inl err)
      with True patch assms have "s' = ?u" by (simp add: handle_ci_annotation_def call_def)
      then show ?thesis by simp
    next
      case (Inr answered)
      with patch have "patch_answers env ?c answered" unfolding patch_answers_def by auto
      moreover have "run_state (restartShootController p) (?u\<lparr>cs_heap := (cs_heap ?u)(p := answered)\<rparr>) = ((), s')"
        using True assms patch Inr by (cases "run_state (restartShootController p) (?u\<lparr>cs_heap := (cs_heap ?u)(p := answered)\<rparr>)")
          (simp add: handle_ci_annotation_def call_def)
      from core_eqD(5) [OF keepsD [OF core_prims(6) this]] have "same_report answered (cs_heap s' p)" by simp
      ultimately show ?thesis using True by blast
    qed
  qed
qed

text \<open>What a successful run says about the lists it worked with: \<open>c\<close> is the object at the end.\<close>

definition lists_agree :: "'w ci_env \<Rightarrow> 'w garden_client \<Rightarrow> CareInstruction \<Rightarrow> bool" where
  "lists_agree env gc c \<longleftrightarrow> (\<exists>w shoots w' items.
     listed (fst (run_state (ListShoots (env_ext env) c gc) w)) = Some shoots
   \<and> listed (fst (run_state (ListClusters c (r_Client env)) w')) = Some items
   \<and> TotalTargetShoots (ci_Status c) = int (length shoots) \<and> CreatedClusters (ci_Status c) = int (length items)
   \<and> (\<forall>x \<in> set shoots. selected (env_ext env) c x \<longrightarrow> (\<exists>k \<in> set items. Name k = Name x)))"

lemma same_but_status_calls:
  assumes "same_but_status c c'"
  shows "ListShoots E c' gc = ListShoots E c gc" "ListClusters c' cl = ListClusters c cl" "selected E c' = selected E c"
  using assms by (simp_all add: ListShoots_def ListClusters_def selected_def MatchesCELFilter_def fun_eq_iff split: option.split sum.split)

lemma shoots_rest_run:
  assumes "lawful_conditions (env_ext env)"
    and "run_state (do { l \<leftarrow> list_target_shoots env p gc;
       (case l of Inl out \<Rightarrow> ret out
        | Inr shoots \<Rightarrow> do { ci \<leftarrow> read_ci p;
            let (included, excluded) = classify_shoots (env_ext env) ci shoots;
            h \<leftarrow> handle_auth_change env p key;
            (case h of Inl out \<Rightarrow> ret out | Inr _ \<Rightarrow> reconcile_clusters env p gc included excluded) }) }) s = (out, s')"
  shows "(status_ok (ci_Status (cs_heap s p)) \<longrightarrow> status_ok (ci_Status (cs_heap s' p)))
    \<and> (status_ok (ci_Status (cs_heap s' p)) \<or> same_report (cs_heap s p) (cs_heap s' p) \<and> out \<noteq> Returned None)
    \<and> (out = Returned None \<longrightarrow> reports_success (env_ext env) (cs_heap s' p) \<and> lists_agree env gc (cs_heap s' p))"
proof -
  let ?ok = "\<lambda>s. status_ok (ci_Status (cs_heap s p))"
  obtain l s1 where l: "run_state (list_target_shoots env p gc) s = (l, s1)" by fastforce
  note lt = list_target_run [OF l]
  show ?thesis
  proof (cases l)
    case (Inl e)
    with assms(2) l lt show ?thesis by auto
  next
    case (Inr shoots)
    obtain inc exc where ic: "classify_shoots (env_ext env) (cs_heap s1 p) shoots = (inc, exc)" by fastforce
    obtain h s2 where h: "run_state (handle_auth_change env p key) s1 = (h, s2)" by fastforce
    note ac = auth_change_run [OF h]
    note core = core_eqD [OF ac(1)]
    have h1: "cs_heap s1 p = update_status (\<lambda>st. st\<lparr>TotalTargetShoots := int (length shoots)\<rparr>) (cs_heap s p)"
      using lt Inr by simp
    have ok: "?ok s \<Longrightarrow> ?ok s2" unfolding core(2) by (simp add: h1 status_ok_def)
    have kept: "same_report (cs_heap s p) (cs_heap s2 p)" "0 \<le> TotalTargetShoots (ci_Status (cs_heap s2 p))"
      using core(3,5) by (simp_all add: h1)
    have run: "run_state (case h of Inl out \<Rightarrow> ret out | Inr _ \<Rightarrow> reconcile_clusters env p gc inc exc) s2 = (out, s')"
      using assms(2) l Inr ic h by simp
    show ?thesis
    proof (cases h)
      case (Inl e)
      with run ac ok kept show ?thesis by auto
    next
      case (Inr u)
      with run have "run_state (reconcile_clusters env p gc inc exc) s2 = (out, s')" by simp
      note rc = reconcile_clusters_run [OF assms(1) this]
      then have same: "same_but_status (cs_heap s p) (cs_heap s' p)" "same_but_status (cs_heap s2 p) (cs_heap s' p)"
        "same_but_status (cs_heap s1 p) (cs_heap s' p)" using core(1) by (simp_all add: h1)
      have inc: "set inc = {x \<in> set shoots. selected (env_ext env) (cs_heap s' p) x}"
        using classify_included [of "env_ext env" "cs_heap s1 p" shoots] ic by (simp add: same_but_status_calls [OF same(3)])
      have shoots: "\<exists>w. listed (fst (run_state (ListShoots (env_ext env) (cs_heap s' p) gc) w)) = Some shoots"
        using lt \<open>l = Inr shoots\<close> unfolding same_but_status_calls(1) [OF same(1)] by auto
      have total: "TotalTargetShoots (ci_Status (cs_heap s' p)) = int (length shoots)" using rc core(3) by (simp add: h1)
      have "lists_agree env gc (cs_heap s' p)" if "out = Returned None"
      proof -
        from rc that obtain w' items where "listed (fst (run_state (ListClusters (cs_heap s' p) (r_Client env)) w')) = Some items"
          "CreatedClusters (ci_Status (cs_heap s' p)) = int (length items)"
          "\<forall>x \<in> set shoots. selected (env_ext env) (cs_heap s' p) x \<longrightarrow> (\<exists>k \<in> set items. Name k = Name x)"
          unfolding same_but_status_calls(2) [OF same(2)] inc by blast
        with shoots total show ?thesis unfolding lists_agree_def by blast
      qed
      moreover have "?ok s' \<or> same_report (cs_heap s p) (cs_heap s' p) \<and> out \<noteq> Returned None"
        using rc kept by simp
      ultimately show ?thesis using rc ok by blast
    qed
  qed
qed

text \<open>The whole function.  The entry the handler finds at the start gives the client.\<close>

lemma shoots_body_run:
  assumes "lawful_conditions (env_ext env)" "run_state (shoots_body env p) s = (out, s')"
  shows "(status_ok (ci_Status (cs_heap s p)) \<longrightarrow> status_ok (ci_Status (cs_heap s' p))
         \<or> out \<noteq> Returned None \<and> map_get (Annotations (cs_heap s p)) ReconcileAnnotation = ''true''
           \<and> (\<exists>answered. patch_answers env (cs_heap s p) answered \<and> same_report answered (cs_heap s' p)))
     \<and> (out = Returned None \<longrightarrow> reports_success (env_ext env) (cs_heap s' p)
       \<and> (\<exists>e gc. map_lookup (cs_gardens s) (gardenKey (cs_heap s p)) = Some e \<and> gardenClient e = Some gc
            \<and> lists_agree env gc (cs_heap s' p)))"
proof (cases "map_lookup (cs_gardens s) (gardenKey (cs_heap s p))")
  case None
  with assms(2) show ?thesis by (auto simp: shoots_body_def Let_def)
next
  case (Some e)
  obtain a s1 where a: "run_state (handle_ci_annotation env p) s = (a, s1)" by fastforce
  note an = annotation_run [OF a]
  show ?thesis
  proof (cases "\<exists>gc. a = Inr () \<and> gardenClient e = Some gc")
    case False
    then have "out \<noteq> Returned None \<and> s' = s1"
      using assms(2) Some a an(1) by (auto simp: shoots_body_def Let_def split: sum.splits option.splits)
    with an(2) show ?thesis by (elim disjE) auto
  next
    case True
    then obtain gc where gc: "a = Inr ()" "gardenClient e = Some gc" by blast
    have rest: "(status_ok (ci_Status (cs_heap s1 p)) \<longrightarrow> status_ok (ci_Status (cs_heap s' p)))
      \<and> (status_ok (ci_Status (cs_heap s' p)) \<or> same_report (cs_heap s1 p) (cs_heap s' p) \<and> out \<noteq> Returned None)
      \<and> (out = Returned None \<longrightarrow> reports_success (env_ext env) (cs_heap s' p) \<and> lists_agree env gc (cs_heap s' p))"
      using shoots_rest_run [OF assms(1), where p = p and gc = gc and key = "gardenKey (cs_heap s p)" and s = s1 and s' = s' and out = out]
        assms(2) Some a gc unfolding shoots_body_def Let_def by simp
    have "status_ok (ci_Status (cs_heap s' p)) \<or> out \<noteq> Returned None \<and> map_get (Annotations (cs_heap s p)) ReconcileAnnotation = ''true''
           \<and> (\<exists>answered. patch_answers env (cs_heap s p) answered \<and> same_report answered (cs_heap s' p))"
      if "status_ok (ci_Status (cs_heap s p))"
    proof -
      from an(2) consider "ci_Status (cs_heap s1 p) = ci_Status (cs_heap s p)"
        | answered where "map_get (Annotations (cs_heap s p)) ReconcileAnnotation = ''true''" "patch_answers env (cs_heap s p) answered"
            "same_report answered (cs_heap s1 p)" by blast
      then show ?thesis
      proof cases
        case 1
        with rest that show ?thesis by simp
      next
        case 2
        with rest show ?thesis by metis
      qed
    qed
    with rest Some gc show ?thesis by blast
  qed
qed

text \<open>Before the body the counters are reset; afterwards the gauges are set, on every path.\<close>

lemma reconcileShoots_run:
  assumes "run_state (reconcileShootsNClusters env p) s = (out, s')"
  obtains t t' where
    "t = s\<lparr>cs_heap := (cs_heap s)(p := update_status (\<lambda>st. st\<lparr>TotalTargetShoots := 0, CreatedClusters := 0,
       FailedClusters := 0, Shoots := Some []\<rparr>) (cs_heap s p))\<rparr>"
    "run_state (shoots_body env p) t = (out, t')"
    "s' = t'\<lparr>cs_metrics := UpdateCareInstructionMetrics (cs_heap t' p) (cs_metrics t')\<rparr>"
    "status_ok (ci_Status (cs_heap t p))"
proof -
  let ?t = "s\<lparr>cs_heap := (cs_heap s)(p := update_status (\<lambda>st. st\<lparr>TotalTargetShoots := 0, CreatedClusters := 0,
       FailedClusters := 0, Shoots := Some []\<rparr>) (cs_heap s p))\<rparr>"
  obtain o' t' where b: "run_state (shoots_body env p) ?t = (o', t')" by fastforce
  have "status_ok (ci_Status (cs_heap ?t p))" by (simp add: status_ok_def slice_elems_def)
  with b assms show ?thesis by (intro that [of ?t t']) (auto simp: reconcileShootsNClusters_def)
qed

section \<open>Properties\<close>

text \<open>C25: the CEL filter splits the listed Shoots.  The included ones are exactly those for which the
  expression evaluates to true, in list order; the exclusion table has one entry per name, with the reason
  of the last Shoot of that name that failed to evaluate or was filtered out; and the counts that decide
  about success match exactly when every included Shoot has an owned Cluster of its name.\<close>

theorem selection_partition:
  "fst (classify_shoots E ci shoots) = filter (\<lambda>s. MatchesCELFilter E ci s = Inr True) shoots
   \<and> distinct (map fst (snd (classify_shoots E ci shoots)))
   \<and> map_of (snd (classify_shoots E ci shoots)) n =
       map_option (exclusion_reason E ci) (find (\<lambda>s. Name s = n \<and> MatchesCELFilter E ci s \<noteq> Inr True) (rev shoots))
   \<and> (length (fst (classify_shoots E ci shoots)) = matched_owned_count (fst (classify_shoots E ci shoots)) clusters
       \<longleftrightarrow> Name ` {s \<in> set shoots. MatchesCELFilter E ci s = Inr True} \<subseteq> Name ` set clusters)"
  using classify_included [of E ci shoots] classify_excluded [of E ci shoots n]
    counts_match_iff [of "fst (classify_shoots E ci shoots)" clusters]
  by (auto simp: selected_def [abs_def] subset_iff image_iff) (metis, metis)

text \<open>C12: a reconciliation of Shoots and Clusters that returns no error has found everything in order.  If
  the Shoots of the Garden cluster and the Clusters of Greenhouse do not change while it runs, then every
  Shoot that the CareInstruction selects has a Cluster of its name that carries the label of this
  CareInstruction, the counters of the status are the lengths of the two lists, no Shoot is reported as
  failed, and the condition ShootsReconciled is true.\<close>

theorem reconcileShoots_success:
  assumes "lawful_conditions (env_ext env)" "run_state (reconcileShootsNClusters env p) s = (Returned None, s')"
    and "map_lookup (cs_gardens s) (gardenKey (cs_heap s p)) = Some e" "gardenClient e = Some gc"
    and "\<forall>w. fst (run_state (ListShoots (env_ext env) (cs_heap s' p) gc) w) = Inr shoots"
    and "\<forall>w. fst (run_state (ListClusters (cs_heap s' p) (r_Client env)) w) = Inr clusters"
  shows "(\<forall>x \<in> set shoots. MatchesCELFilter (env_ext env) (cs_heap s' p) x = Inr True \<longrightarrow> (\<exists>k \<in> set clusters. Name k = Name x))
     \<and> TotalTargetShoots (ci_Status (cs_heap s' p)) = int (length shoots)
     \<and> CreatedClusters (ci_Status (cs_heap s' p)) = int (length clusters)
     \<and> FailedClusters (ci_Status (cs_heap s' p)) = 0
     \<and> (\<forall>ss \<in> set (slice_elems (Shoots (ci_Status (cs_heap s' p)))). ss_Status ss \<noteq> ShootStatusFailed)
     \<and> get_condition (env_ext env) (cs_heap s' p) ShootsReconciledCondition
         = Some (TrueCondition ShootsReconciledCondition ''Reconciled'' ''All shoots and clusters are reconciled'')"
proof -
  obtain t t' where t: "t = s\<lparr>cs_heap := (cs_heap s)(p := update_status (\<lambda>st. st\<lparr>TotalTargetShoots := 0, CreatedClusters := 0,
       FailedClusters := 0, Shoots := Some []\<rparr>) (cs_heap s p))\<rparr>"
    and b: "run_state (shoots_body env p) t = (Returned None, t')"
    and s': "s' = t'\<lparr>cs_metrics := UpdateCareInstructionMetrics (cs_heap t' p) (cs_metrics t')\<rparr>"
    using reconcileShoots_run [OF assms(2)] by metis
  have obj: "cs_heap s' p = cs_heap t' p" and key: "map_lookup (cs_gardens t) (gardenKey (cs_heap t p)) = Some e"
    using assms(3) by (simp_all add: s' t)
  from shoots_body_run [OF assms(1) b] key assms(4)
  have "reports_success (env_ext env) (cs_heap s' p)" "lists_agree env gc (cs_heap s' p)" unfolding obj by auto
  with assms(5,6) show ?thesis by (auto simp: reports_success_def lists_agree_def selected_def listed_def)
qed

text \<open>C16: the status that the function leaves is well-formed on every path, error exits included: the Shoots are
  strictly sorted by name, each has one of the three documented statuses, the failed count is the number of
  failed ones, and the onboarding gauges say 1 exactly for onboarded Shoots.  There is one exception, and it is
  exact: if the reconcile annotation was present and the function ended early with an error, the Shoots and the
  failed count are those of the object that the API server answered to the removal of the annotation, whatever
  it stored.  The counting gauges tell the numbers of the status in any case.\<close>

theorem reported_status_well_formed:
  assumes "lawful_conditions (env_ext env)" "run_state (reconcileShootsNClusters env p) s = (out, s')"
  shows "(status_ok (ci_Status (cs_heap s' p))
        \<and> (\<forall>ss \<in> set (slice_elems (Shoots (ci_Status (cs_heap s' p)))).
             cs_metrics s' (ShootOnboardedGauge, metricLabels (cs_heap s' p) @ [ss_Name ss])
               = Some (if ss_Status ss = ShootStatusOnboarded then 1 else 0))
      \<or> out \<noteq> Returned None \<and> map_get (Annotations (cs_heap s p)) ReconcileAnnotation = ''true''
        \<and> (\<exists>answered. patch_answers env (update_status (\<lambda>st. st\<lparr>TotalTargetShoots := 0, CreatedClusters := 0,
              FailedClusters := 0, Shoots := Some []\<rparr>) (cs_heap s p)) answered \<and> same_report answered (cs_heap s' p)))
     \<and> cs_metrics s' (TotalTargetShootsGauge, metricLabels (cs_heap s' p)) = Some (TotalTargetShoots (ci_Status (cs_heap s' p)))
     \<and> cs_metrics s' (CreatedClustersGauge, metricLabels (cs_heap s' p)) = Some (CreatedClusters (ci_Status (cs_heap s' p)))
     \<and> cs_metrics s' (FailedClustersGauge, metricLabels (cs_heap s' p)) = Some (FailedClusters (ci_Status (cs_heap s' p)))"
proof -
  obtain t t' where t: "t = s\<lparr>cs_heap := (cs_heap s)(p := update_status (\<lambda>st. st\<lparr>TotalTargetShoots := 0, CreatedClusters := 0,
       FailedClusters := 0, Shoots := Some []\<rparr>) (cs_heap s p))\<rparr>"
    and b: "run_state (shoots_body env p) t = (out, t')" and ok: "status_ok (ci_Status (cs_heap t p))"
    and s': "s' = t'\<lparr>cs_metrics := UpdateCareInstructionMetrics (cs_heap t' p) (cs_metrics t')\<rparr>"
    using reconcileShoots_run [OF assms(2)] by metis
  have "\<forall>ss \<in> set (slice_elems (Shoots (ci_Status (cs_heap s' p)))).
       cs_metrics s' (ShootOnboardedGauge, metricLabels (cs_heap s' p) @ [ss_Name ss])
         = Some (if ss_Status ss = ShootStatusOnboarded then 1 else 0)" if "status_ok (ci_Status (cs_heap s' p))"
  proof -
    have "distinct (map ss_Name (slice_elems (Shoots (ci_Status (cs_heap t' p)))))"
      using that by (simp add: s' status_ok_def strict_sorted_iff)
    with metrics_reflect_status [of "cs_heap t' p" "cs_metrics t'"] show ?thesis by (simp add: s')
  qed
  moreover have "cs_heap s' p = cs_heap t' p"
    "map_get (Annotations (cs_heap t p)) ReconcileAnnotation = map_get (Annotations (cs_heap s p)) ReconcileAnnotation"
    by (simp_all add: s' t)
  moreover have "cs_heap t p = update_status (\<lambda>st. st\<lparr>TotalTargetShoots := 0, CreatedClusters := 0,
       FailedClusters := 0, Shoots := Some []\<rparr>) (cs_heap s p)" by (simp add: t)
  moreover have "cs_metrics s' = UpdateCareInstructionMetrics (cs_heap s' p) (cs_metrics t')" by (simp add: s')
  ultimately show ?thesis
    using shoots_body_run [OF assms(1) b] ok metrics_counters [of "cs_heap s' p" "cs_metrics t'"] by metis
qed

end
