(* ===== verification/Ci_Current.thy ===== *)
theory Ci_Current
  imports Ci_Refinement Ci_Reports
begin

section \<open>Whether the live manager works with the current Spec\<close>

text \<open>
  A reconciliation that reports success means to leave a live manager, one that runs and was not asked to stop,
  with the Spec of the CareInstruction.  Three things can come between:

  \<^item> the run itself asked for a restart, because of the reconcile annotation or a changed authentication
    ConfigMap: then the entry has no manager, and the next successful reconciliation starts one;
  \<^item> an earlier replacement stopped the manager and failed: the entry still has it, and only the condition
    in the status tells, so the status has to be stored;
  \<^item> the answer to a status write brought a newer Spec into the object that the entry points to: the
    comparison then finds nothing changed and the manager keeps the older Spec.

  This theory shows that there is nothing else.
\<close>

definition serves :: "string \<Rightarrow> CareInstructionSpec \<Rightarrow> 'w ci_state \<Rightarrow> bool" where
  "serves k sp s \<longleftrightarrow> (\<exists>g. live s g \<and> gr_key g = k \<and> controller_Spec g = sp)"


definition says_started :: "'w ci_env \<Rightarrow> CareInstruction \<Rightarrow> bool" where
  "says_started env c \<longleftrightarrow> (\<exists>x. get_condition (env_ext env) c ShootControllerStartedCondition = Some x \<and> IsTrue (env_ext env) x)"



section \<open>Lemmas\<close>

lemma serves_abs:
  assumes "table_inv s" "serves k sp s"
  shows "abs_managers s k = {sp}"
proof -
  from assms(2) obtain g where g: "live s g" "gr_key g = k" "controller_Spec g = sp" by (auto simp: serves_def)
  have "x \<in> {g}" if "live s x" "gr_key x = k" for x
    using live_unique [OF assms(1) that(1) g(1)] that(2) g(2) by simp
  with g(1,2) have "{x. live s x \<and> gr_key x = k} = {g}" by blast
  with g(3) show ?thesis by (simp add: abs_managers_def)
qed


subsection \<open>The manager\<close>

text \<open>If the entry of \<open>key\<close> were kept, a live manager with the Spec would be there.\<close>

definition keeps_good :: "'w ci_env \<Rightarrow> nat \<Rightarrow> string \<Rightarrow> CareInstructionSpec \<Rightarrow> 'w ci_state \<Rightarrow> bool" where
  "keeps_good env p key sp s \<longleftrightarrow> (\<forall>e cfg. map_lookup (cs_gardens s) key = Some e \<longrightarrow>
     manager_unchanged env s e (cs_heap s p) cfg = Returned True \<longrightarrow> serves key sp s)"

lemma keeps_goodD:
  "keeps_good env p key sp s \<Longrightarrow> map_lookup (cs_gardens s) key = Some e \<Longrightarrow>
   manager_unchanged env s e (cs_heap s p) cfg = Returned True \<Longrightarrow> serves key sp s"
  unfolding keeps_good_def by blast

lemma launch_serves:
  assumes "stopped key s" "ci_Spec (sc_CareInstruction sc) = sp" "run_state (launch_manager env p key cfg c m sc) s = (u, s')"
  shows "serves key sp s'"
proof -
  from assms(1) obtain g where inv: "table_inv s" and g: "map_lookup (cs_gardens s) key = Some g" by (auto simp: stopped_def)
  note s' = assms(3) [unfolded launch_run [OF g], THEN arg_cong [where f = snd], unfolded snd_conv, symmetric]
  have "cs_next s \<notin> cs_cancelled s" using inv by (auto simp: table_inv_def)
  then have "live s' \<lparr>gr_key = key, gr_ctx = cs_next s, gr_chan = cs_next s + 1, gr_controller = sc\<rparr>" by (simp add: s' live_def)
  with assms(2) show ?thesis unfolding serves_def controller_Spec_def by force
qed

lemma start_manager_serves:
  "hoare (\<lambda>s. stopped key s \<and> ci_Spec (cs_heap s p) = sp) (start_manager env p key cfg) (\<lambda>r s. r = Returned None \<longrightarrow> serves key sp s)"
proof -
  have wl: "worldless (\<lambda>s. stopped key s \<and> b)" for b by (simp add: worldless_def stopped_def)
  have read: "hoare (\<lambda>s. stopped key s \<and> ci_Spec (cs_heap s p) = sp) (read_ci p) (\<lambda>ci s. stopped key s \<and> ci_Spec ci = sp)"
    by (rule hoareI) auto
  have launch: "hoare (\<lambda>s. stopped key s \<and> ci_Spec ci = sp) (launch_manager env p key cfg c m (new_ShootController env m' ci))
      (\<lambda>r s. r = Returned None \<longrightarrow> serves key sp s)" for c m m' ci
    by (rule hoareI) (use launch_serves in \<open>fastforce simp: new_ShootController_def\<close>)
  show ?thesis
    unfolding start_manager_def Let_def
    by (intro hoare_bind [OF read] hoare_bind [OF hoare_call [OF wl]] hoare_bind [OF hoare_in_sc [OF wl]] launch hoare_sum hoare_option
          hoare_ret) auto
qed

lemma ensure_manager_serves:
  "hoare (\<lambda>s. table_inv s \<and> ci_Spec (cs_heap s p) = sp \<and> keeps_good env p key sp s) (ensure_manager env p key cfg)
     (\<lambda>r s. r = Returned None \<longrightarrow> serves key sp s)"
proof -
  have stop: "hoare (\<lambda>s. table_inv s \<and> ci_Spec (cs_heap s p) = sp \<and> map_lookup (cs_gardens s) key = Some g) (stop_manager key g)
      (\<lambda>_ s. stopped key s \<and> ci_Spec (cs_heap s p) = sp)" for g
  proof (rule hoareI)
    fix s u s' assume pre: "table_inv s \<and> ci_Spec (cs_heap s p) = sp \<and> map_lookup (cs_gardens s) key = Some g"
      and run: "run_state (stop_manager key g) s = (u, s')"
    with stop_manager_inv [OF _ _ run] show "stopped key s' \<and> ci_Spec (cs_heap s' p) = sp" by simp
  qed
  show ?thesis
    unfolding ensure_manager_def
    by (intro hoare_bind [OF hoare_lookup] hoare_bind [OF hoare_read] hoare_bind [OF hoare_get] hoare_option hoare_exec hoare_if
          hoare_bind [OF hoare_pre [OF stop]] start_manager_serves hoare_ret)
       (auto dest: keeps_goodD)
qed

lemma keeps_good_register:
  assumes "keeps_good env p key sp s" "run_state (register_garden p key h) s = (u, s')"
  shows "keeps_good env p key sp s'"
proof -
  let ?gs = "Some (map_entries (cs_gardens s))"
  have look: "map_lookup ?gs k = map_lookup (cs_gardens s) k" for k by (simp add: map_lookup_def)
  have s': "s' = s\<lparr>cs_gardens := if map_lookup ?gs key = None then map_put ?gs key (new_garden p h) else ?gs\<rparr>"
    using assms(2) by (simp add: register_garden_def Let_def)
  have e: "map_lookup (cs_gardens s') key = Some e \<Longrightarrow> map_lookup (cs_gardens s) key = Some e \<or> e = new_garden p h" for e
    by (auto simp: s' look simp del: map_lookup_Some split: if_splits)
  have "manager_unchanged env s' e (cs_heap s' p) cfg = manager_unchanged env s e (cs_heap s p) cfg" for e cfg
    by (simp add: s' manager_unchanged_def channelOpen_def cong: option.case_cong)
  moreover have "manager_unchanged env s (new_garden p h) c cfg \<noteq> Returned True" for c cfg
    by (simp add: manager_unchanged_True_iff new_garden_def)
  moreover have "serves key sp s' = serves key sp s" by (simp add: s' serves_def)
  ultimately show ?thesis using assms(1) e unfolding keeps_good_def by metis
qed

lemma keeps_good_access:
  assumes "lawful_conditions (env_ext env)" "keeps_good env p key sp s" "cond_Type k \<noteq> ShootControllerStartedCondition"
  shows "keeps_good env p key sp (s\<lparr>cs_heap := (cs_heap s)(p := SetCondition (env_ext env) k (cs_heap s p))\<rparr>)"
proof -
  let ?s = "s\<lparr>cs_heap := (cs_heap s)(p := SetCondition (env_ext env) k (cs_heap s p))\<rparr>"
  have "manager_unchanged env ?s e (cs_heap ?s p) cfg = manager_unchanged env s e (cs_heap s p) cfg" for e cfg
    by (rule manager_unchanged_cong) (use assms(3) in \<open>simp_all add: get_condition_SetCondition [OF assms(1)]\<close>)
  then show ?thesis using assms(2) by (simp add: keeps_good_def serves_def)
qed

lemma reconcileManager_serves:
  assumes "lawful_conditions (env_ext env)" "table_inv s"
    and "keeps_good env p (gardenKey (cs_heap s p)) (ci_Spec (cs_heap s p)) s"
    and "run_state (reconcileManager env p) s = (Returned None, s')"
  shows "serves (gardenKey (cs_heap s p)) (ci_Spec (cs_heap s p)) s'"
proof -
  define ci where "ci = cs_heap s p"
  let ?k = "gardenKey ci" and ?sp = "ci_Spec ci"
  let ?P = "\<lambda>s. table_inv s \<and> ci_Spec (cs_heap s p) = ?sp \<and> keeps_good env p ?k ?sp s"
  let ?Q = "\<lambda>r s. r = Returned None \<longrightarrow> serves ?k ?sp s"
  have "manager_unchanged env (s\<lparr>cs_sc := sc\<rparr>) e c cfg = manager_unchanged env s e c cfg" for s sc e c cfg
    by (simp add: manager_unchanged_def channelOpen_def cong: option.case_cong)
  then have wl: "worldless ?P" by (simp add: worldless_def keeps_good_def serves_def)
  have register: "hoare ?P (register_garden p ?k h) (\<lambda>_. ?P)" for h
    by (rule hoareI) (auto dest: register_inv keeps_good_register)
  have modify: "hoare ?P (modify_ci p (SetCondition (env_ext env) k)) (\<lambda>_. ?P)" if "cond_Type k \<noteq> ShootControllerStartedCondition" for k
    by (rule hoare_modify_ci) (auto intro: keeps_good_access [OF assms(1) _ that])
  have connect: "hoare ?P (connect_manager env p ?k acc) ?Q" for acc
    unfolding connect_manager_def
    by (intro hoare_sum hoare_bind [OF modify] ensure_manager_serves hoare_ret) auto
  have "?P s" using assms(2,3) by (simp add: ci_def)
  from reconcileManager_phases [where P = ?P and Q = ?Q, OF assms(4) this ci_def [symmetric] seed_hash_hoare [OF wl] _ register
      hoare_call [OF wl] connect]
  show ?thesis by (simp add: ci_def)
qed


subsection \<open>The second half\<close>











lemma restart_drops:
  assumes "table_inv s" "run_state (restartShootController p) s = (u, s1)"
    and "map_lookup (cs_gardens s1) (gardenKey (cs_heap s p)) = Some e"
  shows "g_mgr e = None"
  using assms by (auto simp: restart_run entry_ok_def dest: table_inv_entryD split: option.splits)

section \<open>Properties\<close>



text \<open>C19: a restart heals.  From every reachable state, races on the Spec and failed replacements included: if the
  Shoot controller of a CareInstruction is restarted, the next run of \<open>reconcileManager\<close> for this CareInstruction
  that returns no error, on whatever object, leaves exactly one live manager, and it works with the Spec of
  that object.\<close>

theorem restart_heals:
  assumes "lawful_conditions (env_ext env)" "reachable env s" "run_state (restartShootController p) s = (u, s1)"
    and "gardenKey (cs_heap s1 q) = gardenKey (cs_heap s p)" "run_state (reconcileManager env q) s1 = (Returned None, s2)"
  shows "abs_managers s2 (gardenKey (cs_heap s p)) = {ci_Spec (cs_heap s1 q)}"
proof -
  have t: "table_inv s" "table_inv s1" using reachable_inv [OF assms(2)] hoareD [OF restart_inv _ assms(3)] by auto
  have "keeps_good env q (gardenKey (cs_heap s1 q)) (ci_Spec (cs_heap s1 q)) s1"
    unfolding keeps_good_def assms(4) using restart_drops [OF t(1) assms(3)] by (auto simp: manager_unchanged_True_iff)
  from reconcileManager_serves [OF assms(1) t(2) this assms(5)] reconcileManager_inv(1) [OF t(2) assms(5)]
  show ?thesis unfolding assms(4) by (intro serves_abs)
qed

text \<open>C20: the race that the properties above exclude is real.  Take any reachable state in which an entry has a
  manager whose channel is open, and let the answer to a status write bring the object \<open>c\<close>, with any Spec, to
  the place the entry points to.  This is a step of the process.  The next run for \<open>c\<close>, with the
  status saying that the Shoot controller was started and the same configuration of the Garden cluster, returns no
  error and leaves all managers as they were: the live manager keeps the Spec it was started with, whatever the
  Spec of \<open>c\<close> is.\<close>

theorem raced_status_write_keeps_manager:
  assumes "lawful_conditions (env_ext env)" "reachable env s" "map_lookup (cs_gardens s) (gardenKey c) = Some e"
    and "careInstructionSpec e < cs_next s"
    and "Name c = Name (cs_heap s (careInstructionSpec e))" "Namespace c = Namespace (cs_heap s (careInstructionSpec e))"
    and "g_mgr e \<noteq> None" "stopChan e = Some ch" "ch \<notin> cs_closed s"
    and "says_started env c" "rest_DeepEqual env (gardenConfig e) (Some cfg)"
    and "fst (run_state (GetGardenClusterAccess env c) (sc_world (cs_sc s))) = Inr cfg"
    and "run_state (reconcileManager env (cs_next s)) (load c (write_back (careInstructionSpec e) c s)) = (out, s')"
  shows "reachable env (write_back (careInstructionSpec e) c s) \<and> out = Returned None \<and> abs_managers s' = abs_managers s"
proof -
  let ?w = "write_back (careInstructionSpec e) c s" and ?p = "cs_next s"
  have "ci_step env s ?w" using assms(4-6) by (rule ci_step.written)
  with assms(2) have reach: "reachable env ?w" by (rule reachable.step)
  have obj: "cs_heap (load c ?w) ?p = c" "ci_Spec (cs_heap (load c ?w) (careInstructionSpec e)) = ci_Spec c"
    "sc_world (cs_sc (load c ?w)) = sc_world (cs_sc s)" by (simp_all add: load_def write_back_def)
  have "settled env ?p cfg (load c ?w)"
    unfolding settled_def manager_unchanged_True_iff obj
    using assms(3,7-11) by (auto simp: load_def write_back_def says_started_def)
  from settled_keeps [OF assms(1) this, unfolded obj, OF assms(12,13)]
  have "out = Returned None \<and> live s' = live s"
    by (simp add: live_def fun_eq_iff load_def write_back_def)
  with reach show ?thesis by (simp add: abs_managers_def fun_eq_iff)
qed

end
