(* ===== verification/Ci_Watches.thy ===== *)
theory Ci_Watches
  imports Ci_Controller
begin

section \<open>From a watch event to a reconcile request\<close>

text \<open>
  The CareInstruction controller labels the authentication ConfigMap so that its own watch sees later
  changes.  This theory connects the three places that have to agree: the label that
  \<open>ensureAuthConfigMapLabeled\<close> sets, the predicates of the watch, and the function that maps an event
  to requests.  The controller builder admits an event when every predicate of the watch does.
\<close>

definition admits :: "'s predicate_lib \<Rightarrow> 's predicate_Funcs list \<Rightarrow> watch_event \<Rightarrow> 's \<Rightarrow> bool" where
  "admits L ps ev s \<longleftrightarrow> (\<forall>p \<in> set ps. fst (run_state (admit L p ev) s))"

text \<open>The ConfigMaps of Greenhouse: a get answers what is stored, and an accepted patch stores what it
  answers, which is the object as given up to fields set by the server.\<close>

locale greenhouse_configmaps =
  fixes stored :: "'w \<Rightarrow> obj_key \<Rightarrow> ConfigMap option"
    and gh :: "'w gh_client"
  assumes get_cm: "run_state (gh_get_configmap gh k) w = (Inr cm, w') \<Longrightarrow> stored w k = Some cm"
    and get_cm_missing: "run_state (gh_get_configmap gh k) w = (Inl err, w') \<Longrightarrow> IsNotFound err \<Longrightarrow> stored w k = None"
    and get_cm_frame: "run_state (gh_get_configmap gh k) w = (r, w') \<Longrightarrow> stored w' = stored w"
    and patch_cm: "run_state (gh_patch_configmap gh cm base) w = (Inr cm', w') \<Longrightarrow>
       stored w' (obj_key_of cm) = Some cm' \<and> Labels cm' = Labels cm \<and> cm_Data cm' = cm_Data cm"
begin

text \<open>After a call that reports no error the stored ConfigMap, if there is one, carries the label and
  has the data it had before.\<close>

lemma labelled:
  assumes "run_state (ensureAuthConfigMapLabeled env ci) w = (None, w')" "r_Client env = gh"
    and "AuthenticationConfigMapName (ci_Spec ci) \<noteq> []"
    and "stored w (Namespace ci, AuthenticationConfigMapName (ci_Spec ci)) = Some cm"
    and "obj_key_of cm = (Namespace ci, AuthenticationConfigMapName (ci_Spec ci))"
  obtains cm' where "stored w' (Namespace ci, AuthenticationConfigMapName (ci_Spec ci)) = Some cm'"
    "map_lookup (Labels cm') AuthConfigMapLabel \<noteq> None" "cm_Data cm' = cm_Data cm"
proof -
  let ?k = "(Namespace ci, AuthenticationConfigMapName (ci_Spec ci))"
  obtain g w1 where g: "run_state (gh_get_configmap gh ?k) w = (g, w1)" by fastforce
  have frame: "stored w1 = stored w" using get_cm_frame [OF g] .
  show ?thesis
  proof (cases g)
    case (Inl err)
    with g assms have "IsNotFound err" by (auto simp: ensureAuthConfigMapLabeled_def IgnoreNotFound_def split: if_splits)
    with get_cm_missing g Inl assms(4) show ?thesis by auto
  next
    case (Inr c)
    with get_cm g assms(4) have c: "c = cm" by auto
    show ?thesis
    proof (cases "map_lookup (Labels cm) AuthConfigMapLabel = None")
      case False
      with assms(1-3) g Inr c have "w' = w1" by (simp add: ensureAuthConfigMapLabeled_def)
      with that frame assms(4) False show ?thesis by simp
    next
      case True
      with assms(1-3) g Inr c obtain cm' where
        "run_state (gh_patch_configmap gh (cm\<lparr>Labels := map_put (Labels cm) AuthConfigMapLabel ''true''\<rparr>) cm) w1 = (Inr cm', w')"
        by (auto simp: ensureAuthConfigMapLabeled_def split: prod.splits sum.splits)
      from patch_cm [OF this] assms(5) that show ?thesis by (simp add: obj_key_of_def)
    qed
  qed
qed

end

section \<open>Lemmas\<close>

lemma set_requests_of: "set (slice_elems (requests_of cis)) = (\<lambda>ci. (Namespace ci, Name ci)) ` set cis"
  by (auto simp: requests_of_def slice_elems_def)

interpretation mem_cms: greenhouse_configmaps
  "\<lambda>w. fmlookup (mem_gh_configmaps w)" mem_gh
  by unfold_locales (auto simp: mem_gh_def split: option.splits)

section \<open>Properties\<close>

text \<open>C21: a change of the authentication ConfigMap reaches the CareInstructions that use it.  Once the
  ConfigMap has been labelled for a CareInstruction, every later update that changes its data and keeps its
  labels passes all predicates of the ConfigMap watch, whatever label the ConfigMap had before, and the map
  function answers with a request for each listed CareInstruction of the namespace that names the ConfigMap,
  and for no other.\<close>

theorem auth_change_reaches_controller:
  assumes "greenhouse_configmaps stored (r_Client env)" "predicate_library (env_preds env)"
    and "run_state (ensureAuthConfigMapLabeled env ci) w = (None, w')" "AuthenticationConfigMapName (ci_Spec ci) \<noteq> []"
    and "stored w (Namespace ci, AuthenticationConfigMapName (ci_Spec ci)) = Some cm"
    and "obj_key_of cm = (Namespace ci, AuthenticationConfigMapName (ci_Spec ci))"
    and "run_state (gh_list_careinstructions (r_Client env) (Some (Namespace ci))) w2 = (Inr cis, w3)"
  shows "\<exists>cm'. stored w' (Namespace ci, AuthenticationConfigMapName (ci_Spec ci)) = Some cm' \<and> cm_Data cm' = cm_Data cm
     \<and> (\<forall>new. obj_key_of new = obj_key_of cm \<and> Labels new = Labels cm' \<and> \<not> maps_Equal (cm_Data cm') (cm_Data new) \<longrightarrow>
          admits (env_preds env) (fst (watch_ConfigMap (ci_watches env))) (UpdateEvent (ObjConfigMap cm') (ObjConfigMap new)) sc
          \<and> set (slice_elems (fst (run_state (snd (watch_ConfigMap (ci_watches env)) (ObjConfigMap new)) w2)))
              = {(Namespace c, Name c) | c. c \<in> set cis \<and> AuthenticationConfigMapName (ci_Spec c) = AuthenticationConfigMapName (ci_Spec ci)})"
proof -
  obtain cm' where cm': "stored w' (Namespace ci, AuthenticationConfigMapName (ci_Spec ci)) = Some cm'"
    "map_lookup (Labels cm') AuthConfigMapLabel \<noteq> None" "cm_Data cm' = cm_Data cm"
    by (rule greenhouse_configmaps.labelled [OF assms(1) assms(3) refl assms(4-6)])
  have "admits (env_preds env) (fst (watch_ConfigMap (ci_watches env))) (UpdateEvent (ObjConfigMap cm') (ObjConfigMap new)) sc"
    if "Labels new = Labels cm'" "\<not> maps_Equal (cm_Data cm') (cm_Data new)" for new
    using that cm'(2)
    by (simp add: admits_def ci_watches_def Let_def PredicateHasLabel_def configmap_data_changed [OF assms(2)]
        predicate_library.new_funcs [OF assms(2)] predicate_library.admit_update [OF assms(2), of "\<lparr>CreateFunc = _, UpdateFunc = _, DeleteFunc = _, GenericFunc = _\<rparr>"]
        GetLabels_def maps_Equal_iff)
  moreover have "set (slice_elems (fst (run_state (snd (watch_ConfigMap (ci_watches env)) (ObjConfigMap new)) w2)))
      = {(Namespace c, Name c) | c. c \<in> set cis \<and> AuthenticationConfigMapName (ci_Spec c) = AuthenticationConfigMapName (ci_Spec ci)}"
    if "obj_key_of new = obj_key_of cm" for new
    using that assms(6,7)
    by (auto simp: ci_watches_def Let_def enqueueCareInstructionForAuthConfigMap_def obj_key_of_def set_requests_of)
  ultimately show ?thesis using cm'(1,3) by blast
qed

end
