(* ===== verification/Process.thy ===== *)
theory Process
  imports Ci_Controller
begin

section \<open>The process: \<open>main.go\<close>\<close>

text \<open>
  Flags are parsed, a kubeconfig is loaded, the Greenhouse manager is built, the CareInstruction controller
  is registered with it and the manager runs until a signal arrives.  The flag values, the environment, the
  kubeconfig loader and the manager of controller-runtime are parameters.  A call of \<open>os.Exit\<close> ends the
  process with a code, and a method call on a nil manager ends it with a panic.
\<close>

record flags =
  kubecontext :: string
  metricsAddr :: string

text \<open>The manager of the Greenhouse cluster, as far as the program uses it.\<close>

record 'w gh_manager =
  gm_GetClient :: "'w gh_client"
  gm_GetEventRecorder :: "string \<Rightarrow> bool"
  gm_Complete :: "'w ci_registration \<Rightarrow> ('w, go_error option) state"
  gm_Start :: "('w, go_error option) state"

record 'w process_lib =
  Getenv :: "string \<Rightarrow> string"
  GetConfigWithContext :: "string \<Rightarrow> ('w, rest_config) call"
  gh_NewManager :: "rest_config \<Rightarrow> string \<Rightarrow> ('w, 'w gh_manager) call"

datatype process_end = Returns | Exits int | Crashes

definition getKubeconfigOrDie :: "'w process_lib \<Rightarrow> string \<Rightarrow> ('w, process_end + rest_config) state" where
  "getKubeconfigOrDie os kctx = do {
     let kctx = (if kctx = [] then Getenv os ''KUBECONTEXT'' else kctx);
     r \<leftarrow> GetConfigWithContext os kctx;
     ret (case r of Inl err \<Rightarrow> Inl (Exits 1) | Inr restConfig \<Rightarrow> Inr restConfig)
   }"

text \<open>The reconciler gets the client and the event recorder of the manager.\<close>

definition new_reconciler :: "'w ci_env \<Rightarrow> 'w gh_manager \<Rightarrow> 'w ci_env" where
  "new_reconciler env mgr = env\<lparr>r_Client := gm_GetClient mgr, GetEventRecorder := gm_GetEventRecorder mgr\<rparr>"

text \<open>A method call on the manager: on a nil manager it panics.\<close>

definition mgr_method :: "'w gh_manager option \<Rightarrow> ('w gh_manager \<Rightarrow> 'a) \<Rightarrow> process_end + 'a" where
  "mgr_method mgr f = (case mgr of None \<Rightarrow> Inl Crashes | Some m \<Rightarrow> Inr (f m))"

text \<open>An error of \<open>NewManager\<close> is only logged; the manager is then nil.\<close>

definition process_main :: "'w process_lib \<Rightarrow> 'w ci_env \<Rightarrow> flags \<Rightarrow> ('w, process_end) state" where
  "process_main os env fl = do {
     c \<leftarrow> getKubeconfigOrDie os (kubecontext fl);
     (case c of
        Inl end \<Rightarrow> ret end
      | Inr config \<Rightarrow> do {
          m \<leftarrow> gh_NewManager os config (metricsAddr fl);
          let mgr = (case m of Inl err \<Rightarrow> None | Inr mgr \<Rightarrow> Some mgr);
          (case mgr_method mgr (\<lambda>m. (new_reconciler env m, gm_Complete m)) of
             Inl end \<Rightarrow> ret end
           | Inr (reconciler, Complete) \<Rightarrow> do {
               e \<leftarrow> ci_SetupWithManager Complete reconciler;
               (case e of
                  Some err \<Rightarrow> ret (Exits 1)
                | None \<Rightarrow>
                    (case mgr_method mgr gm_Start of
                       Inl end \<Rightarrow> ret end
                     | Inr start \<Rightarrow> do {
                         e \<leftarrow> start;
                         ret (case e of Some err \<Rightarrow> Exits 1 | None \<Rightarrow> Returns)
                       }))
             })
        })
   }"

end
