(* ===== verification/Ci_Witnesses.thy ===== *)
theory Ci_Witnesses
  imports Witnesses Ci_Current Ci_Watches Process
begin

section \<open>A process on the in-memory servers\<close>

text \<open>
  The CareInstruction \<open>org/ci\<close> reaches its Garden cluster through a kubeconfig Secret; the Garden cluster
  has the Shoot \<open>s1\<close>, and Greenhouse has its Cluster.  The properties of the CareInstruction controller
  are applied to the first reconciliations of this landscape.
\<close>

definition ex_env :: "mem_world ci_env" where
  "ex_env = \<lparr>env_ext = ex_ext, env_preds = funcs_lib, r_Client = mem_gh,
     RESTConfigFromKubeConfig = (\<lambda>b. Inr b), NewRemoteKubeCfg = (\<lambda>_. ret (Inl offline)),
     AddToScheme_core = None, AddToScheme_gardener = None, AddToScheme_authentication = None,
     rest_DeepEqual = (=), garden_client_New = (\<lambda>_. ret (Inr mem_garden)),
     NewManager = (\<lambda>_ _. ret (Inr \<lparr>mgr_GetClient = mem_garden\<rparr>)), IndexField = (\<lambda>_ _ _. ret (Inr ())),
     builder_Complete = (\<lambda>_ _. ret None), GetEventRecorder = (\<lambda>_. True)\<rparr>"

definition ex_kc_ci :: CareInstruction where
  "ex_kc_ci = ex_ci\<lparr>ci_Spec := ex_spec\<lparr>GardenClusterKubeConfigSecretName := \<lparr>skr_Name = ''kc'', skr_Key = ''kubeconfig''\<rparr>\<rparr>\<rparr>"

definition ex_kc_secret :: Secret where
  "ex_kc_secret = \<lparr>Name = ''kc'', Namespace = ''org'', Labels = None, Annotations = None, Generation = 0, Finalizers = None, OwnerReferences = None, DeletionTimestamp = None,
     secret_Data = Some (fmupd ''kubeconfig'' ''cfg'' fmempty), secret_Type = ''Opaque''\<rparr>"

definition ex_ready_cluster :: Cluster where
  "ex_ready_cluster = (ex_cluster ''ci'')\<lparr>cluster_Conditions := Some [TrueCondition ReadyCondition ''Ready'' []]\<rparr>"

definition ex_kc_world :: mem_world where
  "ex_kc_world = ex_world\<lparr>mem_secrets := fmupd (''org'', ''kc'') ex_kc_secret fmempty,
     mem_clusters := fmupd (''org'', ''s1'') ex_ready_cluster fmempty\<rparr>"

definition ex_start :: "mem_world ci_state" where
  "ex_start = initial_state (ex_state ex_kc_world)"

lemma ex_mem_list [simp]:
  "run_state (mem_list rd sel) w = (Inr (filter sel (map (\<lambda>k. the (fmlookup (rd w) k)) (sorted_list_of_fset (fmdom (rd w))))), w)"
  by (simp add: mem_list_def)

lemma ex_sorted_small [simp]: "sorted_list_of_fset {|x|} = [x]" "sorted_list_of_fset {||} = []"
  by (simp_all add: sorted_list_of_fset.rep_eq)

lemma ex_env_sel [simp]:
  "env_ext ex_env = ex_ext" "env_preds ex_env = funcs_lib" "r_Client ex_env = mem_gh" "RESTConfigFromKubeConfig ex_env b = Inr b"
  "AddToScheme_core ex_env = None" "AddToScheme_gardener ex_env = None" "AddToScheme_authentication ex_env = None"
  "rest_DeepEqual ex_env = (=)" "garden_client_New ex_env cfg = ret (Inr mem_garden)"
  "NewManager ex_env cfg ns = ret (Inr \<lparr>mgr_GetClient = mem_garden\<rparr>)" "IndexField ex_env mgr k f = ret (Inr ())"
  "builder_Complete ex_env mgr reg = ret None"
  by (simp_all add: ex_env_def)

lemma ex_gh_sel [simp]:
  "gh_get_secret mem_gh = mem_get mem_secrets" "gh_get_configmap mem_gh = mem_get mem_gh_configmaps"
  "gh_get_cluster mem_gh = mem_get mem_clusters"
  "gh_patch_configmap mem_gh c base = mem_replace mem_gh_configmaps (\<lambda>s. mem_gh_configmaps_update (\<lambda>_. s)) obj_key_of c"
  "gh_list_clusters mem_gh ns (l, v) = mem_list mem_clusters (\<lambda>c. Namespace c = ns \<and> map_lookup (Labels c) l = Some v)"
  by (simp_all add: mem_gh_def)

lemma ex_ci_sel [simp]:
  "Name ex_kc_ci = ''ci''" "Namespace ex_kc_ci = ''org''" "Annotations ex_kc_ci = None"
  "GardenClusterKubeConfigSecretName (ci_Spec ex_kc_ci) = \<lparr>skr_Name = ''kc'', skr_Key = ''kubeconfig''\<rparr>"
  "AuthenticationConfigMapName (ci_Spec ex_kc_ci) = ''auth''" "spec_ShootSelector (ci_Spec ex_kc_ci) = None"
  "GardenNamespace (ci_Spec ex_kc_ci) = ''garden''" "Conditions (ci_Status ex_kc_ci) = None"
  by (simp_all add: ex_kc_ci_def ex_ci_def ex_spec_def ex_status_def)

lemma ex_world_sel [simp]:
  "fmlookup (mem_secrets ex_kc_world) (''org'', ''kc'') = Some ex_kc_secret"
  "fmlookup (mem_gh_configmaps ex_kc_world) (''org'', ''auth'') = Some ex_auth_cm"
  "mem_clusters ex_kc_world = fmupd (''org'', ''s1'') ex_ready_cluster fmempty"
  "mem_shoots ex_kc_world = fmupd (''garden'', ''s1'') ex_shoot fmempty"
  "map_lookup (secret_Data ex_kc_secret) ''kubeconfig'' = Some ''cfg''"
  by (simp_all add: ex_kc_world_def ex_world_def ex_kc_secret_def)

lemma ex_start_sel [simp]:
  "cs_sc ex_start = ex_state ex_kc_world" "cs_gardens ex_start = None" "cs_cancelled ex_start = {}" "cs_closed ex_start = {}"
  "cs_running ex_start = []" "cs_next ex_start = 0" "cs_metrics ex_start = (\<lambda>_. None)" "sc_world (ex_state w) = w" "sc_events (ex_state w) = []"
  by (simp_all add: ex_start_def initial_state_def ex_state_def)

lemma map_lookup_entries [simp]: "map_lookup (Some (map_entries m)) k = map_lookup m k"
  by (simp add: map_lookup_def)

subsection \<open>The first reconciliation, step by step\<close>

lemma ex_access: "run_state (GetGardenClusterAccess ex_env ex_kc_ci) ex_kc_world = (Inr ''cfg'', ex_kc_world)"
  by (simp add: GetGardenClusterAccess_def)

lemma new_garden_stopped [simp]:
  "get_condition (env_ext env) ci ShootControllerStartedCondition = Some x \<Longrightarrow>
     manager_unchanged env s (new_garden p h) ci cfg = Returned False"
  "stop_manager key (new_garden p h) = ret (Returned ())"
  by (simp_all add: manager_unchanged_def get_condition_def Let_def new_garden_def stop_manager_def)

lemma ex_access_keeps [simp]:
  "get_condition ex_ext (SetCondition ex_ext (TrueCondition GardenClusterAccessReady r m) c) ShootControllerStartedCondition
     = get_condition ex_ext c ShootControllerStartedCondition"
  by (simp add: get_condition_SetCondition [OF ex_lawful(2)])

lemma new_ShootController_ci [simp]: "sc_CareInstruction (new_ShootController env m c) = c"
  by (simp add: new_ShootController_def)

lemma ex_start_manager:
  assumes "map_lookup (cs_gardens s) key = Some e" "spec_ShootSelector (ci_Spec (cs_heap s p)) = None"
  shows "run_state (start_manager ex_env p key cfg) s =
    (Returned None, s\<lparr>cs_heap := (cs_heap s)(p := SetCondition ex_ext (TrueCondition ShootControllerStartedCondition ''Started'' []) (cs_heap s p)),
          cs_gardens := map_put (cs_gardens s) key (e\<lparr>gardenConfig := Some cfg, gardenClient := Some mem_garden,
             g_mgr := Some \<lparr>mgr_GetClient = mem_garden\<rparr>,
             cancelFunc := Some (cs_next s), stopChan := Some (cs_next s + 1), careInstructionSpec := p\<rparr>),
          cs_running := \<lparr>gr_key = key, gr_ctx = cs_next s, gr_chan = cs_next s + 1, gr_controller = new_ShootController ex_env \<lparr>mgr_GetClient = mem_garden\<rparr> (cs_heap s p)\<rparr> # cs_running s,
          cs_next := cs_next s + 2\<rparr>)"
  using assms by (simp add: start_manager_def call_def Let_def SetupWithManager_def shoot_predicates_def
      launch_run)

text \<open>The entry and the goroutine that the first run of \<open>reconcileManager\<close> for the object at address 0
  creates.\<close>

definition ex_entry :: "mem_world garden" where
  "ex_entry = (new_garden 0 (hashAuthConfigMap ex_auth_cm))\<lparr>gardenConfig := Some ''cfg'', gardenClient := Some mem_garden,
     g_mgr := Some \<lparr>mgr_GetClient = mem_garden\<rparr>, cancelFunc := Some 1, stopChan := Some 2, careInstructionSpec := 0\<rparr>"

definition ex_goroutine :: "CareInstruction \<Rightarrow> mem_world goroutine" where
  "ex_goroutine c = \<lparr>gr_key = ''org/ci'', gr_ctx = 1, gr_chan = 2,
     gr_controller = new_ShootController ex_env \<lparr>mgr_GetClient = mem_garden\<rparr> c\<rparr>"

definition ex_first :: "mem_world \<Rightarrow> CareInstruction \<Rightarrow> mem_world ci_state" where
  "ex_first w c = ex_start\<lparr>cs_next := 1, cs_heap := (cs_heap ex_start)(0 := c), cs_sc := ex_state w\<rparr>"

definition ex_after_manager :: "mem_world \<Rightarrow> CareInstruction \<Rightarrow> mem_world ci_state" where
  "ex_after_manager w c = (let c1 = SetCondition ex_ext (TrueCondition GardenClusterAccessReady ''GardenClusterAccessReady'' []) c in
     ex_start\<lparr>cs_sc := ex_state w,
       cs_heap := (cs_heap ex_start)(0 := SetCondition ex_ext (TrueCondition ShootControllerStartedCondition ''Started'' []) c1),
       cs_gardens := map_put None ''org/ci'' ex_entry, cs_running := [ex_goroutine c1], cs_next := 3\<rparr>)"

lemma ex_manager_run:
  assumes "fmlookup (mem_secrets w) (''org'', ''kc'') = Some ex_kc_secret" "fmlookup (mem_gh_configmaps w) (''org'', ''auth'') = Some cm"
    and "cm_Data cm = cm_Data ex_auth_cm" "same_but_status ex_kc_ci c"
    and "get_condition ex_ext c ShootControllerStartedCondition = Some x"
  shows "run_state (reconcileManager ex_env 0) (ex_first w c) = (Returned None, ex_after_manager w c)"
proof -
  have h: "hashAuthConfigMap cm = hashAuthConfigMap ex_auth_cm" using assms(3) by (simp add: hashAuthConfigMap_def)
  show ?thesis
    using assms(1,2,4,5)
    by (simp add: reconcileManager_def seed_hash_def call_def Let_def register_garden_def GetGardenClusterAccess_def h
        ex_first_def gardenKey_def connect_manager_def ensure_manager_def State_Monad.get_def ex_start_manager
        ex_after_manager_def ex_entry_def ex_goroutine_def map_put_def ex_state_def numeral_2_eq_2 numeral_3_eq_3)
qed

definition ex_onboarded :: ShootStatus where
  "ex_onboarded = \<lparr>ss_Name = ''s1'', ss_Status = ShootStatusOnboarded, ss_Message = []\<rparr>"

lemma ex_statuses: "buildShootStatuses ex_ext [] [ex_ready_cluster] [] = ([ex_onboarded], 0)"
  by code_simp

definition ex_reported :: "CareInstruction \<Rightarrow> CareInstruction" where
  "ex_reported c = SetCondition ex_ext (TrueCondition ShootsReconciledCondition ''Reconciled'' ''All shoots and clusters are reconciled'')
     (update_status (\<lambda>st. st\<lparr>TotalTargetShoots := 1, CreatedClusters := 1, Shoots := Some [ex_onboarded], FailedClusters := 0\<rparr>) c)"

definition ex_done :: "mem_world \<Rightarrow> CareInstruction \<Rightarrow> mem_world ci_state" where
  "ex_done w c = (let c3 = ex_reported (cs_heap (ex_after_manager w c) 0) in
     (ex_after_manager w c)\<lparr>cs_heap := (cs_heap ex_start)(0 := c3), cs_metrics := UpdateCareInstructionMetrics c3 (\<lambda>_. None)\<rparr>)"

lemma ex_cluster_sel [simp]:
  "Name ex_ready_cluster = ''s1''" "Namespace ex_ready_cluster = ''org''" "Annotations ex_ready_cluster = None"
  "map_lookup (Labels ex_ready_cluster) CareInstructionLabel = Some ''ci''"
  "Name ex_shoot = ''s1''" "Namespace ex_shoot = ''garden''"
  by (simp_all add: ex_ready_cluster_def ex_cluster_def ex_shoot_def)

lemma ex_lists:
  "mem_clusters w = fmupd (''org'', ''s1'') ex_ready_cluster fmempty \<Longrightarrow> Name c = ''ci'' \<Longrightarrow> Namespace c = ''org'' \<Longrightarrow>
     run_state (ListClusters c mem_gh) w = (Inr [ex_ready_cluster], w)"
  "mem_shoots w = fmupd (''garden'', ''s1'') ex_shoot fmempty \<Longrightarrow> ci_Spec c = ci_Spec ex_kc_ci \<Longrightarrow>
     run_state (ListShoots ex_ext c mem_garden) w = (Inr [ex_shoot], w)"
  by (simp_all add: ListClusters_def ListShoots_def mem_garden_def)

lemma run_call_sc [simp]:
  "run_state (call m) s = (case run_state m (sc_world (cs_sc s)) of (a, w) \<Rightarrow> (a, s\<lparr>cs_sc := (cs_sc s)\<lparr>sc_world := w\<rparr>\<rparr>))"
  by (simp add: call_def split: prod.split)

lemma cs_sc_same [simp]: "s\<lparr>cs_sc := (cs_sc s)\<lparr>sc_world := sc_world (cs_sc s)\<rparr>\<rparr> = s"
  by (cases s) simp

lemma ex_reconcile_clusters:
  assumes "mem_clusters (sc_world (cs_sc s)) = fmupd (''org'', ''s1'') ex_ready_cluster fmempty"
    and "Name (cs_heap s 0) = ''ci''" "Namespace (cs_heap s 0) = ''org''"
  shows "run_state (reconcile_clusters ex_env 0 gc [ex_shoot] []) s =
     (Returned None, s\<lparr>cs_heap := (cs_heap s)(0 := SetCondition ex_ext
         (TrueCondition ShootsReconciledCondition ''Reconciled'' ''All shoots and clusters are reconciled'')
         (update_status (\<lambda>st. st\<lparr>CreatedClusters := 1, Shoots := Some [ex_onboarded], FailedClusters := 0\<rparr>) (cs_heap s 0)))\<rparr>)"
  using assms
  by (simp add: reconcile_clusters_def list_owned_clusters_def ex_lists Let_def matched_owned_count_def
      handle_cluster_annotations_def annotate_via_cluster_def map_get_def report_statuses_def ex_statuses update_status_def)

lemma ex_shoots_run:
  assumes "mem_clusters w = fmupd (''org'', ''s1'') ex_ready_cluster fmempty" "mem_shoots w = fmupd (''garden'', ''s1'') ex_shoot fmempty"
    and "fmlookup (mem_gh_configmaps w) (''org'', ''auth'') = Some cm" "cm_Data cm = cm_Data ex_auth_cm"
    and "same_but_status ex_kc_ci c" "Annotations c = None"
  shows "run_state (reconcileShootsNClusters ex_env 0) (ex_after_manager w c) = (Returned None, ex_done w c)"
proof -
  have h: "hashAuthConfigMap cm = hashAuthConfigMap ex_auth_cm" using assms(4) by (simp add: hashAuthConfigMap_def)
  have cel: "MatchesCELFilter ex_ext c' ex_shoot = Inr True" if "ci_Spec c' = ci_Spec ex_kc_ci" for c'
    using that by (simp add: MatchesCELFilter_def)
  show ?thesis
    using assms(1-3,5,6)
    by (simp add: reconcileShootsNClusters_def shoots_body_def ex_after_manager_def Let_def gardenKey_def ex_entry_def
        handle_ci_annotation_def map_get_def list_target_shoots_def ex_lists classify_shoots_def classify_shoot_def cel
        handle_auth_change_def h new_garden_def ex_reconcile_clusters ex_done_def ex_reported_def update_status_def ex_state_def)
qed

text \<open>The whole handler.\<close>

definition ex_labelled :: mem_world where
  "ex_labelled = ex_kc_world\<lparr>mem_gh_configmaps := fmupd (''org'', ''auth'')
     (ex_auth_cm\<lparr>Labels := map_put (Labels ex_auth_cm) AuthConfigMapLabel ''true''\<rparr>) (mem_gh_configmaps ex_kc_world)\<rparr>"

abbreviation ex_init :: CareInstruction where
  "ex_init \<equiv> initializeConditionsToUnknown ex_ext ex_kc_ci"

abbreviation ex_s1 :: "mem_world ci_state" where
  "ex_s1 \<equiv> ex_done ex_labelled ex_init"

lemma ex_label_run: "run_state (ensureAuthConfigMapLabeled ex_env ex_init) ex_kc_world = (None, ex_labelled)"
  by (simp add: ensureAuthConfigMapLabeled_def ex_labelled_def) (simp add: ex_auth_cm_def obj_key_of_def)

lemma ex_labelled_sel [simp]:
  "fmlookup (mem_secrets ex_labelled) (''org'', ''kc'') = Some ex_kc_secret"
  "fmlookup (mem_gh_configmaps ex_labelled) (''org'', ''auth'')
     = Some (ex_auth_cm\<lparr>Labels := map_put (Labels ex_auth_cm) AuthConfigMapLabel ''true''\<rparr>)"
  "mem_clusters ex_labelled = fmupd (''org'', ''s1'') ex_ready_cluster fmempty"
  "mem_shoots ex_labelled = fmupd (''garden'', ''s1'') ex_shoot fmempty"
  by (simp_all add: ex_labelled_def)

lemma ex_init_started:
  "get_condition ex_ext ex_init ShootControllerStartedCondition
     = Some (UnknownCondition ShootControllerStartedCondition ''Unknown'' ''Condition is unknown'')"
  by code_simp

lemma ex_run: "run_state (EnsureCreated ex_env 0) (load ex_kc_ci ex_start) = (Returned (no_requeue, Success, None), ex_s1)"
proof -
  obtain out s' where run: "run_state (EnsureCreated ex_env 0) (load ex_kc_ci ex_start) = (out, s')" by fastforce
  obtain s0 le s1 m s2 r s3 where s0: "s0 = (load ex_kc_ci ex_start)\<lparr>cs_heap := (cs_heap (load ex_kc_ci ex_start))(0 :=
       initializeConditionsToUnknown (env_ext ex_env) (cs_heap (load ex_kc_ci ex_start) 0))\<rparr>"
    and le: "run_state (call (ensureAuthConfigMapLabeled ex_env (cs_heap s0 0))) s0 = (le, s1)"
    and m: "run_state (reconcileManager ex_env 0) s1 = (m, s2)" and r: "run_state (reconcileShootsNClusters ex_env 0) s2 = (r, s3)"
    and out: "(out, s') = created_outcome (env_ext ex_env) 0 m s2 r s3"
    by (rule EnsureCreated_run [OF run])
  have "s1 = ex_first ex_labelled ex_init"
    using le by (simp add: s0 load_def ex_label_run ex_first_def ex_state_def)
  moreover have "get_condition ex_ext ex_init ShootControllerStartedCondition
      = Some (UnknownCondition ShootControllerStartedCondition ''Unknown'' ''Condition is unknown'')" by (rule ex_init_started)
  ultimately have "m = Returned None" "s2 = ex_after_manager ex_labelled ex_init" using m by (simp_all add: ex_manager_run)
  moreover from this have "r = Returned None" "s3 = ex_s1" using r by (simp_all add: ex_shoots_run)
  ultimately show ?thesis using run out by (simp add: created_outcome_def)
qed

lemma ex_unraced: "reachable_unraced ex_env ex_start" "reachable_unraced ex_env ex_s1"
proof -
  show start: "reachable_unraced ex_env ex_start" unfolding ex_start_def by (rule unraced_start)
  have "ci_step ex_env ex_start ex_s1" using ex_run by (intro ci_step.reconcile) simp
  moreover have "entry_specs_kept ex_start ex_s1" by (simp add: entry_specs_kept_def)
  ultimately show "reachable_unraced ex_env ex_s1" by (rule unraced_step [OF start])
qed

lemmas ex_reachable = ex_unraced [THEN unraced_reachable]

lemma ex_s1_sel [simp]:
  "cs_running ex_s1 = [ex_goroutine (SetCondition ex_ext (TrueCondition GardenClusterAccessReady ''GardenClusterAccessReady'' []) ex_init)]"
  "cs_cancelled ex_s1 = {}" "cs_closed ex_s1 = {}" "map_lookup (cs_gardens ex_s1) ''org/ci'' = Some ex_entry"
  "gr_key (ex_goroutine c) = ''org/ci''" "gr_ctx (ex_goroutine c) = 1" "gr_chan (ex_goroutine c) = 2"
  by (simp_all add: ex_done_def ex_after_manager_def Let_def ex_goroutine_def)

lemma ex_s1_object [simp]:
  "Name (cs_heap ex_s1 0) = ''ci''" "Namespace (cs_heap ex_s1 0) = ''org''" "ci_Spec (cs_heap ex_s1 0) = ci_Spec ex_kc_ci"
  "gardenKey (cs_heap ex_s1 0) = ''org/ci''" "Shoots (ci_Status (cs_heap ex_s1 0)) = Some [ex_onboarded]"
  by (simp_all add: ex_done_def ex_after_manager_def ex_reported_def Let_def gardenKey_def)

lemma ex_entry_sel [simp]:
  "cancelFunc ex_entry = Some 1" "g_mgr ex_entry = Some \<lparr>mgr_GetClient = mem_garden\<rparr>" "stopChan ex_entry = Some 2"
  "gardenClient ex_entry = Some mem_garden" "careInstructionSpec ex_entry = 0"
  by (simp_all add: ex_entry_def)

lemma ex_key [simp]: "gardenKey ex_kc_ci = ''org/ci''" "gardenKey ex_init = ''org/ci''"
  by (simp_all add: gardenKey_def)

lemma ex_patch: "patch_same_key ex_env"
  by (auto simp: patch_same_key_def mem_gh_def split: option.splits)

section \<open>Witnesses: conditions and managers\<close>

theorem reconcileStatus_ready_witness:
  "get_condition ex_ext (reconcileStatus ex_ext ex_init) ReadyCondition
     = Some (FalseCondition ReadyCondition ''Unknown'' ''Condition is unknown'')"
proof -
  have "first_failing ex_ext ex_init knownConditionTypes
      = Some (UnknownCondition GardenClusterAccessReady ''Unknown'' ''Condition is unknown'')" by code_simp
  with reconcileStatus_ready [OF ex_lawful(2), of ex_init ReadyCondition] show ?thesis by simp
qed

theorem restart_counts_once_witness:
  "ShootControllerRestartCount (ci_Status (cs_heap (snd (run_state (restartShootController 0) ex_s1)) 0))
     = ShootControllerRestartCount (ci_Status (cs_heap ex_s1 0)) + 1"
proof -
  obtain u s u' t where r: "run_state (restartShootController 0) ex_s1 = (u, s)" "run_state (restartShootController 0) s = (u', t)"
    by (metis prod.exhaust)
  from restart_counts_once [OF r] r(1) show ?thesis by simp
qed

theorem at_most_one_manager_witness:
  "\<exists>g e. set (cs_running ex_s1) = {g} \<and> map_lookup (cs_gardens ex_s1) (gr_key g) = Some e \<and> cancelFunc e = Some (gr_ctx g)"
proof -
  let ?g = "ex_goroutine (SetCondition ex_ext (TrueCondition GardenClusterAccessReady ''GardenClusterAccessReady'' []) ex_init)"
  have "?g \<in> set (cs_running ex_s1)" "gr_ctx ?g \<notin> cs_cancelled ex_s1" by simp_all
  from at_most_one_manager [OF ex_reachable(2) this(1) this(1) refl this(2) this(2)] show ?thesis by auto
qed

theorem EnsureCreated_never_panics_witness:
  "\<exists>res result err. fst (run_state (EnsureCreated ex_env 0) (load ex_kc_ci ex_start)) = Returned (res, result, err)"
  using EnsureCreated_never_panics [of ex_env, OF _ ex_reachable(1), of ex_kc_ci] ex_lawful(2) ex_run by simp

lemma ex_abs:
  "abs_managers ex_start = (\<lambda>_. {})" "abs_managers ex_s1 = (\<lambda>_. {})(''org/ci'' := {ci_Spec ex_kc_ci})"
  by (auto simp: abs_managers_def live_def controller_Spec_def ex_goroutine_def fun_eq_iff)

theorem managers_refine_witness:
  "\<exists>out out' s'. run_state (EnsureCreated ex_env 0) (load ex_kc_ci ex_start) = (out, ex_s1)
     \<and> abs_reconcile ''org/ci'' (ci_Spec ex_kc_ci) (\<lambda>_. {}) ((\<lambda>_. {})(''org/ci'' := {ci_Spec ex_kc_ci}))
     \<and> run_state (EnsureDeleted ex_env (cs_next ex_s1)) (load ex_kc_ci ex_s1) = (out', s')
     \<and> abs_managers s' = (\<lambda>_. {}) \<and> abs_managers (manager_exits (hd (cs_running ex_s1)) ex_s1) = (\<lambda>_. {})"
proof -
  obtain out s where run: "run_state (EnsureDeleted ex_env (cs_next ex_s1)) (load ex_kc_ci ex_s1) = (out, s)" by fastforce
  have "hd (cs_running ex_s1) \<in> set (cs_running ex_s1)" by simp
  with managers_refine [OF ex_patch ex_reachable(1), of ex_kc_ci _ ex_s1] ex_run
    managers_refine [OF ex_patch ex_reachable(2), of ex_kc_ci out s "hd (cs_running ex_s1)"] run
  show ?thesis by (auto simp: ex_abs)
qed



theorem entry_spec_is_running_spec_witness:
  "\<exists>g \<in> set (cs_running ex_s1). gr_key g = ''org/ci'' \<and> gr_chan g = 2 \<and> gr_ctx g = 1
     \<and> ci_Spec (sc_CareInstruction (gr_controller g)) = ci_Spec ex_kc_ci"
  using entry_spec_is_running_spec [OF ex_patch ex_unraced(2), of "''org/ci''" ex_entry 2] by simp

lemma ex_s1_started:
  "get_condition ex_ext (cs_heap ex_s1 0) ShootControllerStartedCondition = Some (TrueCondition ShootControllerStartedCondition ''Started'' [])"
proof -
  have "get_condition ex_ext (update_status (\<lambda>st. st\<lparr>TotalTargetShoots := a, CreatedClusters := b, Shoots := c, FailedClusters := d\<rparr>) k) t
      = get_condition ex_ext k t" for a b c d k t by (simp add: get_condition_def)
  then show ?thesis
    by (simp add: ex_done_def ex_after_manager_def Let_def ex_reported_def get_condition_SetCondition [OF ex_lawful(2)])
qed

lemma ex_s1_world [simp]: "sc_world (cs_sc ex_s1) = ex_labelled" "cs_next ex_s1 = 3" "sc_events (cs_sc ex_s1) = []"
  by (simp_all add: ex_done_def ex_after_manager_def Let_def)

lemma ex_access_for:
  "GardenClusterKubeConfigSecretName (ci_Spec c) = \<lparr>skr_Name = ''kc'', skr_Key = ''kubeconfig''\<rparr> \<Longrightarrow> Namespace c = ''org'' \<Longrightarrow>
   run_state (GetGardenClusterAccess ex_env c) ex_labelled = (Inr ''cfg'', ex_labelled)"
  by (simp add: GetGardenClusterAccess_def)

text \<open>The Spec is changed while the status of the first reconciliation is written.\<close>

definition ex_raced :: CareInstruction where
  "ex_raced = (cs_heap ex_s1 0)\<lparr>ci_Spec := (ci_Spec ex_kc_ci)\<lparr>GardenNamespace := ''other''\<rparr>\<rparr>"

theorem raced_status_write_keeps_manager_witness:
  "\<exists>s. run_state (reconcileManager ex_env 3) (load ex_raced (write_back 0 ex_raced ex_s1)) = (Returned None, s)
     \<and> abs_managers s ''org/ci'' = {ci_Spec ex_kc_ci} \<and> GardenNamespace (ci_Spec ex_raced) \<noteq> GardenNamespace (ci_Spec ex_kc_ci)"
proof -
  obtain out s where run: "run_state (reconcileManager ex_env 3) (load ex_raced (write_back 0 ex_raced ex_s1)) = (out, s)" by fastforce
  have c: "Name ex_raced = ''ci''" "Namespace ex_raced = ''org''" "gardenKey ex_raced = ''org/ci''"
    "GardenClusterKubeConfigSecretName (ci_Spec ex_raced) = \<lparr>skr_Name = ''kc'', skr_Key = ''kubeconfig''\<rparr>"
    "GardenNamespace (ci_Spec ex_raced) = ''other''"
    by (simp_all add: ex_raced_def gardenKey_def)
  have st: "says_started ex_env ex_raced"
    using ex_s1_started by (simp add: says_started_def ex_raced_def get_condition_def lawful_IsTrue_iff [OF ex_lawful(2)])
  have cfg: "gardenConfig ex_entry = Some ''cfg''" by (simp add: ex_entry_def)
  have "out = Returned None \<and> abs_managers s = abs_managers ex_s1"
    using raced_status_write_keeps_manager [of ex_env ex_s1 ex_raced ex_entry 2 "''cfg''" out s] ex_lawful(2) ex_reachable(2) run st cfg
    by (simp add: c ex_access_for)
  then show ?thesis using run ex_abs(2) by (simp add: c)
qed

lemma ex_restarted_run:
  "\<exists>s1 s2. run_state (restartShootController 0) ex_s1 = ((), s1) \<and> cs_cancelled s1 = {1}
     \<and> same_but_status ex_kc_ci (cs_heap s1 0) \<and> run_state (reconcileManager ex_env 0) s1 = (Returned None, s2)"
proof -
  obtain s1 where s1: "run_state (restartShootController 0) ex_s1 = ((), s1)" by (cases "run_state (restartShootController 0) ex_s1") simp
  then have eq: "s1 = ex_s1\<lparr>cs_cancelled := {1}, cs_gardens := map_put (cs_gardens ex_s1) ''org/ci'' (ex_entry\<lparr>g_mgr := None\<rparr>),
      cs_heap := (cs_heap ex_s1)(0 := update_status (\<lambda>st. st\<lparr>ShootControllerRestartCount := ShootControllerRestartCount st + 1\<rparr>) (cs_heap ex_s1 0))\<rparr>"
    by (simp add: restart_run)
  have st: "get_condition ex_ext (cs_heap s1 0) ShootControllerStartedCondition = Some (TrueCondition ShootControllerStartedCondition ''Started'' [])"
    using ex_s1_started by (simp add: eq get_condition_def)
  have obj: "same_but_status ex_kc_ci (cs_heap s1 0)" "gardenKey (cs_heap s1 0) = ''org/ci''" by (simp_all add: eq)
  have off: "manager_unchanged ex_env t (e\<lparr>g_mgr := None\<rparr>) c cfg = Returned False"
    if "get_condition ex_ext c ShootControllerStartedCondition = Some x" for t e c cfg x
    using that by (simp add: manager_unchanged_def get_condition_def Let_def)
  obtain G where G: "cs_gardens s1 = Some G" "fmlookup G ''org/ci'' = Some (ex_entry\<lparr>g_mgr := None\<rparr>)"
    by (simp add: eq map_put_def)
  have w: "sc_world (cs_sc s1) = ex_labelled" by (simp add: eq)
  have "\<exists>s2. run_state (reconcileManager ex_env 0) s1 = (Returned None, s2)"
    using obj st G w
    by (simp add: reconcileManager_def seed_hash_def Let_def register_garden_def connect_manager_def ensure_manager_def
        State_Monad.get_def off stop_manager_def ex_start_manager ex_access_for)
  with s1 obj eq show ?thesis by auto
qed

theorem restart_heals_witness:
  "\<exists>s1 s2. run_state (restartShootController 0) ex_s1 = ((), s1) \<and> cs_cancelled s1 = {1}
     \<and> run_state (reconcileManager ex_env 0) s1 = (Returned None, s2) \<and> abs_managers s2 ''org/ci'' = {ci_Spec ex_kc_ci}"
proof -
  obtain s1 s2 where r: "run_state (restartShootController 0) ex_s1 = ((), s1)" "cs_cancelled s1 = {1}"
    "same_but_status ex_kc_ci (cs_heap s1 0)" "run_state (reconcileManager ex_env 0) s1 = (Returned None, s2)"
    using ex_restarted_run by blast
  have "gardenKey (cs_heap s1 0) = gardenKey (cs_heap ex_s1 0)" using r(3) by (simp add: gardenKey_def)
  from restart_heals [OF _ ex_reachable(2) r(1) this r(4)] r ex_lawful(2) show ?thesis by simp
qed

section \<open>Witnesses: reports\<close>

text \<open>Servers that always answer the same Shoots and Clusters.\<close>

definition fixed_env :: "mem_world ci_env" where
  "fixed_env = ex_env\<lparr>r_Client := mem_gh\<lparr>gh_list_clusters := (\<lambda>_ _. ret (Inr [ex_ready_cluster]))\<rparr>\<rparr>"

definition fixed_garden :: "mem_world garden_client" where
  "fixed_garden = mem_garden\<lparr>gd_list_shoots := (\<lambda>_ _ _. ret (Inr [ex_shoot]))\<rparr>"

definition fixed_state :: "mem_world ci_state" where
  "fixed_state = ex_start\<lparr>cs_heap := (cs_heap ex_start)(0 := ex_ci\<lparr>ci_Spec := ex_spec\<lparr>AuthenticationConfigMapName := []\<rparr>\<rparr>),
     cs_gardens := Some (fmupd ''org/ci'' (ex_entry\<lparr>gardenClient := Some fixed_garden\<rparr>) fmempty), cs_next := 1\<rparr>"

lemma fixed_run: "\<exists>s. run_state (reconcileShootsNClusters fixed_env 0) fixed_state = (Returned None, s)
    \<and> ci_Spec (cs_heap s 0) = ex_spec\<lparr>AuthenticationConfigMapName := []\<rparr>"
proof -
  have [simp]: "env_ext fixed_env = ex_ext" "gh_list_clusters (r_Client fixed_env) ns sel = ret (Inr [ex_ready_cluster])"
    "gd_list_shoots fixed_garden ns' sel' fl = ret (Inr [ex_shoot])" for ns sel ns' sel' fl
    by (simp_all add: fixed_env_def fixed_garden_def)
  show ?thesis
    by (simp add: fixed_state_def reconcileShootsNClusters_def shoots_body_def Let_def gardenKey_def ex_ci_def
        handle_ci_annotation_def map_get_def list_target_shoots_def ListShoots_def ex_spec_def classify_shoots_def classify_shoot_def
        MatchesCELFilter_def handle_auth_change_def reconcile_clusters_def list_owned_clusters_def ListClusters_def matched_owned_count_def
        handle_cluster_annotations_def annotate_via_cluster_def report_statuses_def ex_statuses)
qed

theorem reconcileShoots_success_witness:
  "\<exists>s. run_state (reconcileShootsNClusters fixed_env 0) fixed_state = (Returned None, s)
     \<and> TotalTargetShoots (ci_Status (cs_heap s 0)) = 1 \<and> CreatedClusters (ci_Status (cs_heap s 0)) = 1
     \<and> FailedClusters (ci_Status (cs_heap s 0)) = 0"
proof -
  obtain s where run: "run_state (reconcileShootsNClusters fixed_env 0) fixed_state = (Returned None, s)"
    and sp: "ci_Spec (cs_heap s 0) = ex_spec\<lparr>AuthenticationConfigMapName := []\<rparr>" using fixed_run by blast
  have "lawful_conditions (env_ext fixed_env)" using ex_lawful(2) by (simp add: fixed_env_def)
  moreover have "map_lookup (cs_gardens fixed_state) (gardenKey (cs_heap fixed_state 0)) = Some (ex_entry\<lparr>gardenClient := Some fixed_garden\<rparr>)"
    by (simp add: fixed_state_def gardenKey_def ex_ci_def)
  moreover have "\<forall>w. fst (run_state (ListShoots (env_ext fixed_env) (cs_heap s 0) fixed_garden) w) = Inr [ex_shoot]"
    using sp by (simp add: ListShoots_def ex_spec_def fixed_garden_def)
  moreover have "\<forall>w. fst (run_state (ListClusters (cs_heap s 0) (r_Client fixed_env)) w) = Inr [ex_ready_cluster]"
    by (simp add: ListClusters_def fixed_env_def)
  ultimately show ?thesis
    using reconcileShoots_success [where env = fixed_env and p = 0 and s = fixed_state and gc = fixed_garden, OF _ run] run by fastforce
qed

text \<open>The reconcile annotation is present, the API server answers its removal with a status that is not well-formed,
  and the Garden cluster is then out of reach.\<close>

definition noted_env :: "mem_world ci_env" where
  "noted_env = ex_env\<lparr>r_Client := mem_gh\<lparr>gh_patch_careinstruction := (\<lambda>c base. ret (Inr
     (update_status (\<lambda>st. st\<lparr>Shoots := Some [ex_onboarded, ex_onboarded], FailedClusters := 7\<rparr>) c)))\<rparr>\<rparr>"

definition noted_state :: "mem_world ci_state" where
  "noted_state = ex_start\<lparr>cs_heap := (cs_heap ex_start)(0 := ex_ci\<lparr>Annotations := Some (fmupd ReconcileAnnotation ''true'' fmempty)\<rparr>),
     cs_gardens := Some (fmupd ''org/ci'' (ex_entry\<lparr>gardenClient :=
        Some (mem_garden\<lparr>gd_list_shoots := (\<lambda>_ _ _. ret (Inl offline))\<rparr>)\<rparr>) fmempty), cs_next := 3\<rparr>"

lemma noted_run: "\<exists>s. run_state (reconcileShootsNClusters noted_env 0) noted_state = (Returned (Some offline), s)
    \<and> Shoots (ci_Status (cs_heap s 0)) = Some [ex_onboarded, ex_onboarded] \<and> FailedClusters (ci_Status (cs_heap s 0)) = 7"
  by (simp add: noted_env_def noted_state_def reconcileShootsNClusters_def shoots_body_def Let_def gardenKey_def ex_ci_def ex_spec_def
      handle_ci_annotation_def map_get_def list_target_shoots_def ListShoots_def restart_run offline_def update_status_def
      IgnoreNotFound_def IsNotFound_def errors_New_def)

theorem reported_status_well_formed_witness:
  "status_ok (ci_Status (cs_heap (snd (run_state (reconcileShootsNClusters fixed_env 0) fixed_state)) 0))
   \<and> (\<exists>s c answered. run_state (reconcileShootsNClusters noted_env 0) noted_state = (Returned (Some offline), s)
        \<and> patch_answers noted_env c answered \<and> FailedClusters (ci_Status answered) = 7
        \<and> cs_metrics s (FailedClustersGauge, metricLabels (cs_heap s 0)) = Some 7)"
proof -
  obtain s where run: "run_state (reconcileShootsNClusters fixed_env 0) fixed_state = (Returned None, s)" using fixed_run by blast
  have "lawful_conditions (env_ext fixed_env)" using ex_lawful(2) by (simp add: fixed_env_def)
  from reported_status_well_formed [OF this run] run
  have 1: "status_ok (ci_Status (cs_heap (snd (run_state (reconcileShootsNClusters fixed_env 0) fixed_state)) 0))" by simp
  obtain t where t: "run_state (reconcileShootsNClusters noted_env 0) noted_state = (Returned (Some offline), t)"
    "Shoots (ci_Status (cs_heap t 0)) = Some [ex_onboarded, ex_onboarded]" "FailedClusters (ci_Status (cs_heap t 0)) = 7"
    using noted_run by blast
  have "lawful_conditions (env_ext noted_env)" using ex_lawful(2) by (simp add: noted_env_def)
  note rep = reported_status_well_formed [OF this t(1)]
  have "\<not> status_ok (ci_Status (cs_heap t 0))" using t(2) by (simp add: status_ok_def slice_elems_def)
  with rep t show ?thesis using 1 by auto
qed


section \<open>Witnesses: watches, settling and the process\<close>

theorem auth_change_reaches_controller_witness:
  "\<exists>cm'. fmlookup (mem_gh_configmaps ex_labelled) (''org'', ''auth'') = Some cm' \<and> cm_Data cm' = cm_Data ex_auth_cm
     \<and> admits funcs_lib (fst (watch_ConfigMap (ci_watches ex_env)))
         (UpdateEvent (ObjConfigMap cm') (ObjConfigMap (cm'\<lparr>cm_Data := None\<rparr>))) (ex_state ex_labelled)"
proof -
  have lawful: "greenhouse_configmaps (\<lambda>w. fmlookup (mem_gh_configmaps w)) (r_Client ex_env)"
    and lib: "predicate_library (env_preds ex_env)"
    using mem_cms.greenhouse_configmaps_axioms funcs.predicate_library_axioms by simp_all
  have "obj_key_of ex_auth_cm = (Namespace ex_init, AuthenticationConfigMapName (ci_Spec ex_init))"
    by (simp add: ex_auth_cm_def obj_key_of_def)
  moreover have "run_state (gh_list_careinstructions (r_Client ex_env) (Some (Namespace ex_init))) empty_world = (Inr [], empty_world)"
    by (simp add: mem_gh_def empty_world_def)
  ultimately obtain cm' where cm': "fmlookup (mem_gh_configmaps ex_labelled) (''org'', ''auth'') = Some cm'" "cm_Data cm' = cm_Data ex_auth_cm"
    and adm: "\<And>new. obj_key_of new = obj_key_of ex_auth_cm \<Longrightarrow> Labels new = Labels cm' \<Longrightarrow> \<not> maps_Equal (cm_Data cm') (cm_Data new) \<Longrightarrow>
       admits funcs_lib (fst (watch_ConfigMap (ci_watches ex_env))) (UpdateEvent (ObjConfigMap cm') (ObjConfigMap new)) (ex_state ex_labelled)"
    using auth_change_reaches_controller [OF lawful lib, where ci = ex_init and w = ex_kc_world and w' = ex_labelled and cm = ex_auth_cm
        and sc = "ex_state ex_labelled"] ex_label_run by auto
  have "obj_key_of (cm'\<lparr>cm_Data := None\<rparr>) = obj_key_of ex_auth_cm" "\<not> maps_Equal (cm_Data cm') None"
    using cm' by (auto simp: obj_key_of_def maps_Equal_iff ex_auth_cm_def)
  with adm [of "cm'\<lparr>cm_Data := None\<rparr>"] cm' show ?thesis by simp
qed

text \<open>An environment whose access to the Garden cluster and whose ConfigMap never change.\<close>

definition steady_env :: "mem_world ci_env" where
  "steady_env = ex_env\<lparr>r_Client := mem_gh\<lparr>gh_get_secret := (\<lambda>_. ret (Inr ex_kc_secret)), gh_get_configmap := (\<lambda>_. ret (Inr ex_auth_cm))\<rparr>\<rparr>"

lemma steady_sel [simp]:
  "gh_get_secret (r_Client steady_env) k = ret (Inr ex_kc_secret)" "gh_get_configmap (r_Client steady_env) k = ret (Inr ex_auth_cm)"
  "env_ext steady_env = ex_ext" "rest_DeepEqual steady_env = (=)" "RESTConfigFromKubeConfig steady_env b = Inr b"
  "AddToScheme_core steady_env = None" "AddToScheme_gardener steady_env = None" "AddToScheme_authentication steady_env = None"
  "garden_client_New steady_env cfg = ret (Inr mem_garden)"
  "NewManager steady_env cfg ns = ret (Inr \<lparr>mgr_GetClient = mem_garden\<rparr>)" "IndexField steady_env mgr ik f = ret (Inr ())"
  "builder_Complete steady_env mgr reg = ret None" "env_preds steady_env = funcs_lib"
  by (simp_all add: steady_env_def)

lemma steady_access: "run_state (GetGardenClusterAccess steady_env ex_kc_ci) w = (Inr ''cfg'', w)"
  by (simp add: GetGardenClusterAccess_def)

text \<open>A state of the process with the object in memory and no entry yet: a CareInstruction that was
  deleted before it was ever reconciled.\<close>

definition steady_state :: "mem_world ci_state" where
  "steady_state = snd (run_state (EnsureDeleted steady_env 0) (load ex_kc_ci ex_start))"

lemma steady_reachable: "reachable steady_env steady_state"
proof -
  have "reachable steady_env ex_start" unfolding ex_start_def by (rule reachable.start)
  moreover have "ci_step steady_env ex_start steady_state"
    by (rule ci_step.delete [where c = ex_kc_ci and out = "fst (run_state (EnsureDeleted steady_env 0) (load ex_kc_ci ex_start))"])
       (simp add: steady_state_def)
  ultimately show ?thesis by (rule reachable.step)
qed

lemma steady_object:
  "same_but_status ex_kc_ci (cs_heap steady_state 0)" "cs_gardens steady_state = None" "gardenKey (cs_heap steady_state 0) = ''org/ci''"
  by (simp_all add: steady_state_def EnsureDeleted_def cleanupCareInstruction_def load_def gardenKey_def split: option.split)

lemma steady_started:
  "get_condition ex_ext (cs_heap steady_state 0) ShootControllerStartedCondition
     = Some (UnknownCondition ShootControllerStartedCondition ''Unknown'' ''Condition is unknown'')"
  using ex_init_started
  by (simp add: steady_state_def EnsureDeleted_def cleanupCareInstruction_def load_def get_condition_SetCondition [OF ex_lawful(2)]
      split: option.split)

lemma steady_run: "\<exists>s. run_state (reconcileManager steady_env 0) steady_state = (Returned None, s)"
proof -
  have acc: "run_state (GetGardenClusterAccess steady_env (cs_heap steady_state 0)) w = (Inr ''cfg'', w)" for w
    using steady_access access_same_ident [of "cs_heap steady_state 0" ex_kc_ci steady_env] steady_object(1) by simp
  show ?thesis
    using steady_object steady_started
    by (simp add: reconcileManager_def seed_hash_def Let_def register_garden_def acc connect_manager_def ensure_manager_def
        State_Monad.get_def start_manager_def SetupWithManager_def shoot_predicates_def launch_run)
qed

theorem reconcileManager_settles_witness:
  "\<exists>s1 s2. run_state (reconcileManager steady_env 0) steady_state = (Returned None, s1)
     \<and> run_state (reconcileManager steady_env 0) s1 = (Returned None, s2) \<and> cs_running s2 = cs_running s1"
proof -
  obtain s1 where r1: "run_state (reconcileManager steady_env 0) steady_state = (Returned None, s1)" using steady_run by blast
  obtain out s2 where r2: "run_state (reconcileManager steady_env 0) s1 = (out, s2)" by fastforce
  have "\<forall>w. fst (run_state (GetGardenClusterAccess steady_env (cs_heap steady_state 0)) w) = Inr ''cfg''"
    using steady_access access_same_ident [of "cs_heap steady_state 0" ex_kc_ci steady_env] steady_object(1) by simp
  from reconcileManager_settles [OF _ _ steady_reachable this r1 r2] r1 r2 ex_lawful(2) show ?thesis by simp
qed

theorem seeded_hash_no_restart_witness:
  "\<exists>s1 s2. run_state (reconcileManager steady_env 0) steady_state = (Returned None, s1)
     \<and> run_state (handle_auth_change steady_env 0 ''org/ci'') s1 = (Inr (), s2) \<and> cs_cancelled s2 = cs_cancelled s1"
proof -
  obtain s1 where r1: "run_state (reconcileManager steady_env 0) steady_state = (Returned None, s1)" using steady_run by blast
  obtain h s2 where r2: "run_state (handle_auth_change steady_env 0 (gardenKey (cs_heap steady_state 0))) s1 = (h, s2)" by fastforce
  have "map_lookup (cs_gardens steady_state) (gardenKey (cs_heap steady_state 0)) = None"
    "AuthenticationConfigMapName (ci_Spec (cs_heap steady_state 0)) \<noteq> []"
    using steady_object by simp_all
  from seeded_hash_no_restart [OF this, where cm = ex_auth_cm, OF _ r1 r2] r1 r2 steady_object(3) show ?thesis by simp
qed

theorem auth_change_detected_witness:
  "\<exists>s. run_state (handle_auth_change steady_env 0 ''org/ci'')
          (ex_s1\<lparr>cs_gardens := map_put None ''org/ci'' (ex_entry\<lparr>authConfigMapHash := []\<rparr>)\<rparr>) = (Inr (), s)
     \<and> 1 \<in> cs_cancelled s \<and> ShootControllerRestartCount (ci_Status (cs_heap s 0)) = ShootControllerRestartCount (ci_Status (cs_heap ex_s1 0)) + 1"
proof -
  let ?s = "ex_s1\<lparr>cs_gardens := map_put None ''org/ci'' (ex_entry\<lparr>authConfigMapHash := []\<rparr>)\<rparr>"
  obtain h s where run: "run_state (handle_auth_change steady_env 0 ''org/ci'') ?s = (h, s)" by fastforce
  have "hashAuthConfigMap ex_auth_cm \<noteq> []" using length_hashAuthConfigMap [of ex_auth_cm] by auto
  with auth_change_detected [of ?s 0 steady_env ex_auth_cm ex_labelled "ex_entry\<lparr>authConfigMapHash := []\<rparr>" 1 h s] run
  show ?thesis by auto
qed

definition ex_process :: "mem_world process_lib" where
  "ex_process = \<lparr>Getenv = (\<lambda>_. ''ctx''), GetConfigWithContext = (\<lambda>c. ret (Inr c)), gh_NewManager = (\<lambda>_ _. ret (Inl offline))\<rparr>"

text \<open>An error of \<open>NewManager\<close> crashes the process.\<close>

lemma nil_manager_crashes:
  "fst (run_state (process_main ex_process ex_env \<lparr>kubecontext = [], metricsAddr = '':8080''\<rparr>) ex_world) = Crashes"
  by (simp add: process_main_def getKubeconfigOrDie_def ex_process_def mgr_method_def)

end
