(* ===== verification/Spec2Isabelle.thy ===== *)
theory Spec2Isabelle
  imports Ci_Witnesses
begin

text \<open>
  \<^bold>\<open>shoot-grafter: a verification development.\<close>

  shoot-grafter onboards the Shoot clusters of a Gardener landscape to Greenhouse.  A user creates a
  CareInstruction, which names a Garden cluster, a namespace on it and a selection of Shoots.  The program has
  two controllers.  The \<^emph>\<open>CareInstruction controller\<close> runs in the Greenhouse cluster; for every CareInstruction
  it keeps an entry in a table, gets access to the Garden cluster and runs a manager there in a goroutine.
  The manager runs one \<^emph>\<open>Shoot controller\<close>, which writes for each selected Shoot a Secret in Greenhouse (from
  which Greenhouse makes a Cluster of the same name), configures OIDC authentication and RBAC on the Shoot,
  and requests the deletion of the Cluster when the Shoot is gone.  The CareInstruction controller compares
  Shoots and Clusters and reports the result as status, conditions and metrics.

  \<^bold>\<open>Style of the model.\<close>  Definitions are executable functions over records that carry the field names of the Go
  structs; the record \<open>ObjectMeta\<close> is extended by every kind.  A nil map or slice is \<open>None\<close>.
  Errors are values of a sum or option type, and \<open>go_error\<close> keeps the API status reason that the code tests
  for.  Effects are computations of the state monad.  Third-party code is a parameter: an API client is a
  record of calls, each a state transformer on an arbitrary world, so a call may fail, may change anything
  and may see changes made by others; pure library functions are the record \<open>ext\<close>; controller-runtime,
  the lifecycle package and the manager of a cluster are arguments of the definitions that use them.  What a
  property needs of such a parameter is a locale or a named predicate in its hypotheses, and each is
  interpreted on in-memory servers, on which the witnesses run.

  \<^bold>\<open>Theories and sources.\<close>

  \<^item> \<open>Prelude\<close>: errors, nil-able maps and slices, the state monad, loops, Hoare triples and frame rules
    (\<open>keeps\<close>), collections of facts.
  \<^item> \<open>Encoding\<close>: \<open>base64\<close>, hexadecimal and SHA-256 of the Go library, with round trips and lengths.
  \<^item> \<open>Api_Types\<close>: \<open>api/v1alpha1/careinstruction_types.go\<close>, the objects of other API groups,
    \<open>webhook/v1alpha1\<close>; the contract \<open>status_conditions\<close> of the condition helpers.
  \<^item> \<open>Clients\<close>: the API clients, \<open>ListShoots\<close>, \<open>ListClusters\<close>, the contract
    \<open>create_or_update\<close>, and the in-memory servers.
  \<^item> \<open>Predicates\<close>: \<open>internal/clientutil/predicates.go\<close> over the contract \<open>predicate_library\<close>.
  \<^item> \<open>Shoot_Statuses\<close>: \<open>controller/careinstruction/shootstatus.go\<close>; the table of reports is an
    interpretation of \<open>ranked_table\<close>, and \<open>buildShootStatuses\<close> refines a declarative specification.
  \<^item> \<open>Shoot_Secret\<close>, \<open>Shoot_Auth\<close>, \<open>Shoot_Rbac\<close>, \<open>Shoot_Controller\<close>: the files of
    \<open>controller/shoot\<close> (the Secret part of \<open>shoot_controller.go\<close>, \<open>auth.go\<close>, \<open>rbac.go\<close> with
    \<open>client.go\<close>, and \<open>Reconcile\<close> with the rest of \<open>shoot_controller.go\<close>).
  \<^item> \<open>Ci_Status\<close>: \<open>status.go\<close> and \<open>metrics.go\<close> of \<open>controller/careinstruction\<close>.
  \<^item> \<open>Ci_Manager\<close>: \<open>client.go\<close>, and from \<open>careinstruction_controller.go\<close> the table, its
    entries, \<open>reconcileManager\<close>, \<open>restartShootController\<close>, \<open>cleanupCareInstruction\<close>.
  \<^item> \<open>Ci_Shoots\<close>: \<open>reconcileShootsNClusters\<close>, one definition per phase that may return.
  \<^item> \<open>Ci_Controller\<close>: the handlers \<open>EnsureCreated\<close>, \<open>EnsureDeleted\<close>, \<open>EnsureSuspended\<close>, the
    watches and their map functions, and the process as a step relation.
  \<^item> \<open>Ci_Invariants\<close>, \<open>Ci_Spec_Match\<close>, \<open>Ci_Settle\<close>, \<open>Ci_Refinement\<close>, \<open>Ci_Reports\<close>,
    \<open>Ci_Current\<close>, \<open>Ci_Watches\<close>: what holds of that controller, see below.  The locale \<open>second_half\<close> of
    \<open>Ci_Refinement\<close> carries an assertion about managers through \<open>reconcileShootsNClusters\<close>; it is
    interpreted for the refinement and for the current Spec.
  \<^item> \<open>Process\<close>: \<open>main.go\<close>.
  \<^item> \<open>Witnesses\<close>, \<open>Ci_Witnesses\<close>: every property with hypotheses applied to a concrete landscape.

  \<^bold>\<open>The CareInstruction controller as a state machine.\<close>  The state \<open>ci_state\<close> holds the world, the objects
  in memory by address, the table, the contexts that were cancelled, the channels that were closed, the running
  goroutines and the gauges.  An entry of the table keeps a pointer to the Spec of an object that later API
  answers overwrite; this is why objects have addresses.  A step is a creation or deletion handler for
  any CareInstruction, a status computation, the write of the status by the lifecycle package, whose answer
  overwrites the object, the exit of a manager at any moment, or any change of the outside world.  The
  states reached without an answer that brings another Spec into the object of an entry are
  \<open>reachable_unraced\<close>.  Handlers are atomic, because the controller runs one reconciliation at a time and a goroutine only
  ever closes its own channel.  Every access to a table entry,
  a Garden client or a condition that may be nil is a branch with the outcome \<open>Panic\<close>.

  \<^bold>\<open>What is shown.\<close>

  \<^item> The Shoot controller: a successful reconciliation leaves the Secret as the mutate function makes it; no
    other Secret is ever touched; a Cluster is deleted only if it is owned and its Shoot is gone; a foreign
    Cluster is left alone; the mutate function is idempotent and removes stale annotations; reserved annotations
    win; the CA data round-trips; the order of the steps and every error path.
  \<^item> OIDC and RBAC: a successful configuration establishes the whole configuration, and a second one finds
    nothing to do; the binding ends with the desired role although a role reference is immutable.
  \<^item> Statuses: the refinement, the precedence of the sources, independence of map iteration order.
  \<^item> Managers: at most one per CareInstruction that is not cancelled, no nil dereference in any reachable
    state, the handlers and exits refine an abstract machine with one optional Spec per CareInstruction, a
    second reconciliation leaves a working manager alone, the seeded hash prevents a restart, a restart is counted
    once, a changed authentication ConfigMap is noticed and only a changed one.
  \<^item> The current Spec: without a race on the Spec and with failed replacements recorded in the status, success
    and the Ready condition mean that a live manager runs with the current Spec, unless the run itself had a
    reason to restart it; a restart heals any other state; the race is real and keeps a stale manager.
  \<^item> Reports: the CEL filter splits the Shoots, success means that every selected Shoot has its Cluster, the
    status is well-formed except after an early error on the annotation path, and the gauges agree with it.
  \<^item> Watches: a changed authentication ConfigMap reaches the CareInstructions that use it; a dropped update
    of a Shoot is irrelevant.
  \<^item> The whole program (this theory): managers of different CareInstructions do not interfere.

  \<^bold>\<open>Bounds and fuel.\<close>  No definition needs fuel: the loops of the program range over finite lists and are folds
  or \<open>for_range\<close>.  Go's \<open>int\<close> counters are unbounded integers, since they count objects of a list.

  \<^bold>\<open>Not modelled.\<close>  Log output, and with it the reason text for a manager restart
  (\<open>careinstruction_controller.go\<close>, lines 243 to 258); scheme registration and the registration of gauges and
  the webhook with their libraries (\<open>init\<close> functions, \<open>groupversion_info.go\<close>); the generated deep copies
  (\<open>zz_generated.deepcopy.go\<close>), which are the identity on values; flag parsing.  The scheme
  that \<open>GetGardenClusterAccess\<close> returns next to the configuration is the same in every call and is left out.
  The lifecycle package of Greenhouse, which calls the handlers, stores the status and handles the finalizer,
  is a parameter: that its status writes overwrite the object is a step of the process, and that the status is
  stored between reconciliations is the hypothesis \<open>failure_recorded\<close> where a property needs it.

  \<^bold>\<open>Plan.\<close>  The watches of the Shoot controller connected with its reconciliation; the API server's persistence of
  status as a contract of the lifecycle package.
\<close>

section \<open>The two controllers together\<close>

text \<open>Every goroutine runs a Shoot controller for the CareInstruction of its own key, on the Greenhouse
  client of the reconciler.\<close>

definition running_ok :: "'w ci_env \<Rightarrow> 'w ci_state \<Rightarrow> bool" where
  "running_ok env s \<longleftrightarrow> (\<forall>g \<in> set (cs_running s).
     gardenKey (sc_CareInstruction (gr_controller g)) = gr_key g \<and> GreenhouseClient (gr_controller g) = r_Client env)"

abbreviation running_for :: "'w ci_env \<Rightarrow> nat \<Rightarrow> string \<Rightarrow> 'w ci_state \<Rightarrow> bool" where
  "running_for env p key s \<equiv> running_ok env s \<and> gardenKey (cs_heap s p) = key"

lemma running_ok_eq: "cs_running s' = cs_running s \<Longrightarrow> running_ok env s' = running_ok env s"
  by (simp add: running_ok_def)

lemma running_for_keeps:
  assumes "keeps cs_running m" "keeps idents m"
  shows "hoare (running_for env p key) m (\<lambda>_. running_for env p key)"
proof (rule hoareI)
  fix s a s' assume "running_for env p key s" "run_state m s = (a, s')"
  moreover from keepsD [OF assms(1) this(2)] keepsD [OF assms(2) this(2)] have "cs_running s' = cs_running s" "idents s' = idents s" .
  ultimately show "running_for env p key s'" using gardenKey_idents [of s' p s] running_ok_eq [of s' s env] by simp
qed

lemma running_prims2 [keeps_intros]:
  "keeps cs_running (in_sc m)" "keeps cs_running State_Monad.get" "keeps cs_running fresh" "keeps cs_running (register_garden p k h)"
  by (auto simp: keeps_def State_Monad.get_def register_garden_def split: prod.split)

lemma launch_running:
  assumes "gardenKey ci = key"
  shows "hoare (running_for env p key) (launch_manager env p key cfg c m (new_ShootController env m' ci)) (\<lambda>_. running_for env p key)"
  by (rule hoareI)
     (auto simp: launch_manager_def running_ok_def new_ShootController_def assms split: option.splits)

lemma reconcileManager_running:
  assumes "running_ok env s" "run_state (reconcileManager env p) s = (r, s')"
  shows "running_ok env s'"
proof -
  define key where "key = gardenKey (cs_heap s p)"
  let ?P = "running_for env p key"
  have read: "hoare ?P (read_ci p) (\<lambda>ci s. ?P s \<and> gardenKey ci = key)" by (rule hoareI) auto
  have calls: "hoare (\<lambda>s. ?P s \<and> b) (call m') (\<lambda>_ s. ?P s \<and> b)" "hoare (\<lambda>s. ?P s \<and> b) (in_sc m'') (\<lambda>_ s. ?P s \<and> b)"
    for b and m' :: "('a, 'b) state" and m'' :: "('a sc_state, 'c) state"
    by (rule hoare_const, rule running_for_keeps; intro keeps_intros)+
  have launch: "hoare (\<lambda>s. ?P s \<and> gardenKey ci = key) (launch_manager env p key cfg c m (new_ShootController env m' ci)) (\<lambda>_. ?P)"
    for ci cfg c m m' using launch_running unfolding hoare_def by blast
  have start: "hoare ?P (start_manager env p key cfg) (\<lambda>_. ?P)" for cfg
    unfolding start_manager_def Let_def
    by (intro hoare_bind [OF read] hoare_bind [OF calls(1)] hoare_bind [OF calls(2)] launch hoare_sum hoare_option
          hoare_ret) auto
  note same = running_for_keeps [where env = env and p = p and key = key]
  have stop: "hoare ?P (stop_manager key g) (\<lambda>_. ?P)" for g
    unfolding stop_manager_def by (rule same; intro keeps_intros)
  have look: "hoare ?P (lookup_garden key) (\<lambda>_. ?P)" and rd: "hoare ?P (read_ci p) (\<lambda>_. ?P)" and gt: "hoare ?P State_Monad.get (\<lambda>_. ?P)"
    by (rule same; intro keeps_intros)+
  have ensure: "hoare ?P (ensure_manager env p key cfg) (\<lambda>_. ?P)" for cfg
    unfolding ensure_manager_def
    by (intro hoare_bind [OF look] hoare_bind [OF rd] hoare_bind [OF gt] hoare_option hoare_exec hoare_if hoare_bind [OF stop] start hoare_ret)
       simp_all
  have modify: "hoare ?P (modify_ci p (SetCondition E c)) (\<lambda>_. ?P)" for E c
    by (rule same; intro keeps_intros)
  have connect: "hoare ?P (connect_manager env p key acc) (\<lambda>_. ?P)" for acc
    unfolding connect_manager_def by (intro hoare_sum hoare_bind [OF modify] ensure hoare_ret) simp_all
  have seed: "hoare ?P (seed_hash env p) (\<lambda>_. ?P)"
    unfolding seed_hash_def by (rule same; intro keeps_intros)
  have reg: "hoare ?P (register_garden p key h) (\<lambda>_. ?P)" and acc: "hoare ?P (call m) (\<lambda>_. ?P)" for h and m :: "('a, 'b) state"
    by (rule same; intro keeps_intros)+
  have "?P s" using assms(1) by (simp add: key_def)
  then have "?P s'"
    by (rule reconcileManager_phases [where P = ?P, OF assms(2) _ refl seed _ _ acc]) (use reg connect in \<open>simp_all add: key_def\<close>)
  then show ?thesis by simp
qed

lemma ci_step_running:
  assumes "ci_step env s s'" "running_ok env s"
  shows "running_ok env s'"
  using assms(1)
proof cases
  case (reconcile c out)
  obtain s0 le s1 m s2 r s3 where s0: "s0 = (load c s)\<lparr>cs_heap := (cs_heap (load c s))(cs_next s :=
       initializeConditionsToUnknown (env_ext env) (cs_heap (load c s) (cs_next s)))\<rparr>"
    and le: "run_state (call (ensureAuthConfigMapLabeled env (cs_heap s0 (cs_next s)))) s0 = (le, s1)"
    and m: "run_state (reconcileManager env (cs_next s)) s1 = (m, s2)"
    and r: "run_state (reconcileShootsNClusters env (cs_next s)) s2 = (r, s3)"
    and out: "(out, s') = created_outcome (env_ext env) (cs_next s) m s2 r s3"
    by (rule EnsureCreated_run [OF reconcile])
  have "cs_running s1 = cs_running s0" unfolding call_def using keepsD [OF running_prims2(1) le [unfolded call_def]] .
  then have "running_ok env s1" using assms(2) by (simp add: s0 load_def running_ok_def)
  then have "running_ok env s2" by (rule reconcileManager_running [OF _ m])
  moreover have "cs_running s3 = cs_running s2" by (rule keepsD [OF reconcileShoots_running r])
  moreover have "cs_running s' = cs_running s2 \<or> cs_running s' = cs_running s3"
    using out by (auto simp: created_outcome_def split: exec.splits option.splits)
  ultimately show ?thesis by (auto simp: running_ok_def)
next
  case (delete c out)
  then have "cs_running s' = cs_running s"
    by (auto simp: EnsureDeleted_def cleanupCareInstruction_def load_def split: option.splits prod.splits)
  with assms(2) show ?thesis by (simp add: running_ok_def)
next
  case (exits g)
  with assms(2) show ?thesis by (auto simp: running_ok_def manager_exits_def dest: notin_set_remove1)
qed (use assms(2) in \<open>auto simp: running_ok_def write_back_def\<close>)

lemma reachable_running: "reachable env s \<Longrightarrow> running_ok env s"
proof (induction rule: reachable.induct)
  case (start sc)
  show ?case by (simp add: running_ok_def initial_state_def)
qed (rule ci_step_running)

section \<open>Properties of the whole program\<close>

text \<open>C2: managers do not interfere.  In every reachable state, whatever reconciliations, deletions and
  exits came before, take any running manager and any Cluster of its namespace that is labelled with a
  CareInstruction whose key is not the key the manager runs for: a reconciliation of the Shoot of that name
  by this manager reads the Cluster once and then ends, without error, with no write, no event and no other
  call.\<close>

theorem managers_do_not_interfere:
  assumes "reachable env s" "g \<in> set (cs_running s)"
    and "Namespace (sc_CareInstruction (gr_controller g)) = Namespace cluster"
    and "run_state (gh_get_cluster (r_Client env) (Namespace cluster, snd req)) (sc_world t) = (Inr cluster, w)"
    and "map_lookup (Labels cluster) CareInstructionLabel = Some owner" "gr_key g \<noteq> Namespace cluster @ ''/'' @ owner"
  shows "run_state (Reconcile E K (gr_controller g) req) t = ((no_requeue, None), t\<lparr>sc_world := w\<rparr>)"
proof -
  let ?r = "gr_controller g"
  have "gardenKey (sc_CareInstruction ?r) = gr_key g" and client: "GreenhouseClient ?r = r_Client env"
    using reachable_running [OF assms(1)] assms(2) by (auto simp: running_ok_def)
  then have "owner \<noteq> Name (sc_CareInstruction ?r)" using assms(3,6) by (auto simp: gardenKey_def)
  moreover have get: "run_state (gh_get_cluster (GreenhouseClient ?r) (Namespace (sc_CareInstruction ?r), snd req)) (sc_world t) = (Inr cluster, w)"
    using assms(3,4) client by simp
  ultimately show ?thesis using assms(5) by (simp add: Reconcile_def run_check_ownership [OF get])
qed

theorem managers_do_not_interfere_witness:
  "\<exists>g \<in> set (cs_running ex_s1). run_state (Reconcile ex_ext mem_kube (gr_controller g) ex_req) (ex_state (ex_world_owned ''other''))
     = ((no_requeue, None), ex_state (ex_world_owned ''other''))"
proof -
  let ?g = "ex_goroutine (SetCondition ex_ext (TrueCondition GardenClusterAccessReady ''GardenClusterAccessReady'' []) ex_init)"
  let ?w = "ex_world_owned ''other''"
  have g: "?g \<in> set (cs_running ex_s1)" by simp
  have "Namespace (sc_CareInstruction (gr_controller ?g)) = Namespace (ex_cluster ''other'')"
    by (simp add: ex_goroutine_def ex_cluster_def)
  moreover have "run_state (gh_get_cluster (r_Client ex_env) (Namespace (ex_cluster ''other''), snd ex_req)) (sc_world (ex_state ?w))
      = (Inr (ex_cluster ''other''), ?w)"
    by (simp add: ex_world_owned_def ex_req_def ex_cluster_def)
  moreover have "map_lookup (Labels (ex_cluster ''other'')) CareInstructionLabel = Some ''other''"
    "gr_key ?g \<noteq> Namespace (ex_cluster ''other'') @ ''/'' @ ''other''"
    by (simp_all add: ex_cluster_def)
  ultimately have "run_state (Reconcile ex_ext mem_kube (gr_controller ?g) ex_req) (ex_state ?w)
      = ((no_requeue, None), (ex_state ?w)\<lparr>sc_world := ?w\<rparr>)"
    by (rule managers_do_not_interfere [OF ex_reachable(2) g])
  then show ?thesis using g by (auto simp: ex_state_def)
qed

end
